(* ===== verification/Morai_Prelude.thy ===== *)
theory Morai_Prelude
  imports Main "HOL-Library.Char_ord" "HOL-Library.List_Lexorder"
    "HOL-Library.Product_Lexorder" "HOL-Library.Multiset"
begin

text \<open>
  Shared vocabulary of the development: Python's \<open>str\<close> and \<open>bytes\<close> as character lists, the
  decimal rendering of integers, joining with a separator, insertion-ordered dictionaries as
  association lists, and the chunking loop the write paths share.

  A Python \<open>str\<close> is its UTF-8 bytes, a \<open>char\<close> of HOL being eight bits: equality,
  concatenation, \<open>encode\<close>, and lexicographic order (UTF-8 keeps code point order) are then those of
  the source.
\<close>

named_theorems text_simps \<open>rendering and reading back\<close>
named_theorems dict_simps \<open>insertion-ordered dictionaries\<close>

type_synonym bytes = string


section \<open>Decimal rendering\<close>

definition digit_char :: "nat \<Rightarrow> char" where
  "digit_char d = char_of (48 + d)"

definition digit_val :: "char \<Rightarrow> nat" where
  "digit_val c = of_char c - 48"

definition is_digit :: "char \<Rightarrow> bool" where
  "is_digit c \<longleftrightarrow> 48 \<le> (of_char c :: nat) \<and> (of_char c :: nat) \<le> 57"

fun show_nat :: "nat \<Rightarrow> string" where
  "show_nat n = (if n < 10 then [digit_char n] else show_nat (n div 10) @ [digit_char (n mod 10)])"

declare show_nat.simps [simp del]

definition read_nat :: "string \<Rightarrow> nat" where
  "read_nat ds = foldl (\<lambda>a c. 10 * a + digit_val c) 0 ds"

definition show_int :: "int \<Rightarrow> string" where
  "show_int i = (if i < 0 then CHR ''-'' # show_nat (nat (- i)) else show_nat (nat i))"

lemma of_char_digit_char [text_simps]: "d < 10 \<Longrightarrow> (of_char (digit_char d) :: nat) = 48 + d"
  by (simp add: digit_char_def)

lemma digit_val_char [text_simps]: "d < 10 \<Longrightarrow> digit_val (digit_char d) = d"
  by (simp add: digit_val_def text_simps)

lemma is_digit_char [text_simps]: "d < 10 \<Longrightarrow> is_digit (digit_char d)"
  by (simp add: is_digit_def text_simps)

lemma digit_char_val: "is_digit c \<Longrightarrow> digit_char (digit_val c) = c"
  by (simp add: digit_char_def digit_val_def is_digit_def)

lemma digit_val_less: "is_digit c \<Longrightarrow> digit_val c < 10"
  unfolding digit_val_def is_digit_def by arith

lemma read_nat_simps [simp]:
  "read_nat [] = 0" "read_nat (ds @ [c]) = 10 * read_nat ds + digit_val c"
  by (simp_all add: read_nat_def)

lemma read_nat_singleton [simp]: "read_nat [c] = digit_val c"
  by (simp add: read_nat_def)

lemma read_show_nat [simp]: "read_nat (show_nat n) = n"
proof (induction n rule: show_nat.induct)
  case (1 n)
  then show ?case by (subst show_nat.simps) (auto simp: text_simps)
qed

lemma show_nat_digits: "\<forall>c \<in> set (show_nat n). is_digit c"
proof (induction n rule: show_nat.induct)
  case (1 n)
  then show ?case by (subst show_nat.simps) (auto simp: text_simps)
qed

lemma show_nat_is_digit [intro]: "c \<in> set (show_nat n) \<Longrightarrow> is_digit c"
  using show_nat_digits by blast

lemma show_nat_nonempty [simp]: "show_nat n \<noteq> []"
  by (subst show_nat.simps) simp

lemma show_nat_inject [simp]: "show_nat m = show_nat n \<longleftrightarrow> m = n"
  by (metis read_show_nat)

lemma minus_not_digit [simp]: "\<not> is_digit (CHR ''-'')"
  by (simp add: is_digit_def)

lemma hd_show_nat_not_minus: "show_nat n \<noteq> CHR ''-'' # ds"
  by (metis list.set_intros(1) minus_not_digit show_nat_is_digit)

lemma show_int_inject [simp]: "show_int i = show_int j \<longleftrightarrow> i = j"
  by (auto simp: show_int_def hd_show_nat_not_minus hd_show_nat_not_minus [symmetric])

lemma show_int_chars: "c \<in> set (show_int i) \<Longrightarrow> is_digit c \<or> c = CHR ''-''"
  by (auto simp: show_int_def split: if_splits)

text \<open>The number of digits: \<open>len(str(n))\<close> in the source.\<close>

lemma read_nat_bound: "\<forall>c \<in> set ds. is_digit c \<Longrightarrow> read_nat ds < 10 ^ length ds"
proof (induction ds rule: rev_induct)
  case (snoc c ds)
  then have "read_nat ds < 10 ^ length ds" and "digit_val c < 10"
    by (auto intro: digit_val_less)
  then show ?case by simp
qed simp

lemma show_nat_length_upper: "n < 10 ^ length (show_nat n)"
  using read_nat_bound [OF show_nat_digits, of n] by simp

lemma show_nat_length_lower: "0 < n \<Longrightarrow> 10 ^ (length (show_nat n) - 1) \<le> n"
proof (induction n rule: show_nat.induct)
  case (1 n)
  show ?case
  proof (cases "n < 10")
    case True
    with "1.prems" show ?thesis by (subst show_nat.simps) simp
  next
    case False
    define k where "k = length (show_nat (n div 10))"
    from False "1.IH" have ih: "10 ^ (k - 1) \<le> n div 10" by (simp add: k_def)
    have "0 < k" by (simp add: k_def)
    then have "10 ^ k = 10 * (10 ^ (k - 1) :: nat)" by (metis Suc_diff_1 power_Suc)
    also have "\<dots> \<le> 10 * (n div 10)" using ih by simp
    also have "\<dots> \<le> n" by simp
    finally show ?thesis using False by (subst show_nat.simps) (simp add: k_def)
  qed
qed

lemma show_nat_length_le: "n < 10 ^ k \<Longrightarrow> 0 < k \<Longrightarrow> length (show_nat n) \<le> k"
proof (cases "n = 0")
  case True
  assume "0 < k"
  moreover have "length (show_nat 0) = 1" by (subst show_nat.simps) simp
  ultimately show ?thesis using True by simp
next
  case False
  assume b: "n < 10 ^ k"
  from False have "10 ^ (length (show_nat n) - 1) \<le> n" by (intro show_nat_length_lower) simp
  with b have "(10::nat) ^ (length (show_nat n) - 1) < 10 ^ k" by linarith
  then show ?thesis by simp
qed


section \<open>Rounding division\<close>

text \<open>Quotient rounded to the nearest integer, ties to even.\<close>

definition div_half_even :: "nat \<Rightarrow> nat \<Rightarrow> nat" where
  "div_half_even a b =
     (let q = a div b; r = a mod b
      in if 2 * r < b then q
         else if b < 2 * r then Suc q
         else if even q then q else Suc q)"

lemma div_half_even_cases:
  "div_half_even a b = a div b \<and> 2 * (a mod b) \<le> b \<or>
   div_half_even a b = Suc (a div b) \<and> b \<le> 2 * (a mod b)"
  by (auto simp: div_half_even_def Let_def)

lemma div_half_even_bounds:
  assumes "0 < b"
  shows "2 * (div_half_even a b * b) \<le> 2 * a + b" and "2 * a \<le> 2 * (div_half_even a b * b) + b"
proof -
  have a: "a div b * b + a mod b = a" by simp
  have r: "a mod b < b" using assms by simp
  have "2 * (div_half_even a b * b) \<le> 2 * a + b \<and> 2 * a \<le> 2 * (div_half_even a b * b) + b"
    using div_half_even_cases [of a b]
  proof
    assume h: "div_half_even a b = a div b \<and> 2 * (a mod b) \<le> b"
    then have "div_half_even a b * b = a div b * b" by simp
    then show ?thesis using a h by linarith
  next
    assume h: "div_half_even a b = Suc (a div b) \<and> b \<le> 2 * (a mod b)"
    then have "div_half_even a b * b = a div b * b + b" by simp
    then show ?thesis using a h r by linarith
  qed
  then show "2 * (div_half_even a b * b) \<le> 2 * a + b" "2 * a \<le> 2 * (div_half_even a b * b) + b"
    by simp_all
qed

text \<open>The nearest integer is unique when the error is below one half.\<close>

lemma div_half_even_unique:
  assumes b: "0 < b" and q: "2 * (q * b) < 2 * a + b" "2 * a < 2 * (q * b) + b"
  shows "div_half_even a b = q"
proof -
  note h = div_half_even_bounds [OF b, of a]
  have "div_half_even a b * b < q * b + b" using h q by linarith
  then have "div_half_even a b * b < Suc q * b" by simp
  then have "div_half_even a b < Suc q" by (rule mult_less_cancel2 [THEN iffD1, THEN conjunct2])
  moreover have "q * b < div_half_even a b * b + b" using h q by linarith
  then have "q * b < Suc (div_half_even a b) * b" by simp
  then have "q < Suc (div_half_even a b)" by (rule mult_less_cancel2 [THEN iffD1, THEN conjunct2])
  ultimately show ?thesis by simp
qed

lemma div_half_even_exact: "0 < b \<Longrightarrow> div_half_even (q * b) b = q"
  by (simp add: div_half_even_def)


section \<open>Separated text\<close>

fun join :: "string \<Rightarrow> string list \<Rightarrow> string" where
  "join sep [] = []"
| "join sep [x] = x"
| "join sep (x # y # ys) = x @ sep @ join sep (y # ys)"

fun split_on :: "char \<Rightarrow> string \<Rightarrow> string list" where
  "split_on c [] = [[]]"
| "split_on c (x # xs) =
     (if x = c then [] # split_on c xs
      else (case split_on c xs of [] \<Rightarrow> [[x]] | y # ys \<Rightarrow> (x # y) # ys))"

lemma join_append: "xs \<noteq> [] \<Longrightarrow> ys \<noteq> [] \<Longrightarrow> join c (xs @ ys) = join c xs @ c @ join c ys"
proof (induction c xs rule: join.induct)
  case (2 c x)
  then show ?case by (cases ys) simp_all
qed simp_all

lemma split_on_plain: "c \<notin> set x \<Longrightarrow> split_on c x = [x]"
  by (induction x) auto

lemma split_on_append: "c \<notin> set x \<Longrightarrow> split_on c (x @ c # r) = x # split_on c r"
  by (induction x) auto

lemma split_on_join:
  "xs \<noteq> [] \<Longrightarrow> \<forall>x \<in> set xs. c \<notin> set x \<Longrightarrow> split_on c (join [c] xs) = xs"
  by (induction "[c]" xs rule: join.induct) (auto simp: split_on_plain split_on_append)

lemma join_inject:
  assumes "join [c] xs = join [c] ys" "xs \<noteq> []" "ys \<noteq> []"
    and "\<forall>x \<in> set xs. c \<notin> set x" "\<forall>y \<in> set ys. c \<notin> set y"
  shows "xs = ys"
  using assms split_on_join by metis


section \<open>Insertion-ordered dictionaries\<close>

text \<open>\<open>d.setdefault(k, []).append(v)\<close>: a new key goes to the end of the iteration order.\<close>

fun dict_append :: "'k \<Rightarrow> 'v \<Rightarrow> ('k \<times> 'v list) list \<Rightarrow> ('k \<times> 'v list) list" where
  "dict_append k v [] = [(k, [v])]"
| "dict_append k v ((k', vs) # d) =
     (if k = k' then (k', vs @ [v]) # d else (k', vs) # dict_append k v d)"

text \<open>First occurrences in order: the key order of such a dictionary.\<close>

definition firsts :: "'a list \<Rightarrow> 'a list" where
  "firsts xs = rev (remdups (rev xs))"

lemma firsts_simps [simp]:
  "firsts [] = []"
  "firsts (xs @ [x]) = (if x \<in> set xs then firsts xs else firsts xs @ [x])"
  by (simp_all add: firsts_def)

lemma set_firsts [simp]: "set (firsts xs) = set xs"
  by (simp add: firsts_def)

lemma distinct_firsts [simp]: "distinct (firsts xs)"
  by (simp add: firsts_def)

definition group_by :: "('v \<Rightarrow> 'k) \<Rightarrow> 'v list \<Rightarrow> ('k \<times> 'v list) list" where
  "group_by key xs = fold (\<lambda>x. dict_append (key x) x) xs []"

lemma dict_append_map [dict_simps]:
  "distinct ks \<Longrightarrow>
   dict_append k v (map (\<lambda>j. (j, g j)) ks) =
     (if k \<in> set ks then map (\<lambda>j. (j, if j = k then g j @ [v] else g j)) ks
      else map (\<lambda>j. (j, g j)) ks @ [(k, [v])])"
  by (induction ks) auto

lemma group_by_map:
  "group_by key xs = map (\<lambda>k. (k, filter (\<lambda>x. key x = k) xs)) (firsts (map key xs))"
proof (induction xs rule: rev_induct)
  case (snoc x xs)
  have none: "filter (\<lambda>y. key y = key x) xs = []" if "key x \<notin> set (map key xs)"
    using that by (force simp: filter_empty_conv image_iff)
  have "group_by key (xs @ [x]) = dict_append (key x) x (group_by key xs)"
    by (simp add: group_by_def)
  also have "\<dots> = dict_append (key x) x (map (\<lambda>k. (k, filter (\<lambda>y. key y = k) xs)) (firsts (map key xs)))"
    by (simp add: snoc)
  also have "\<dots> = map (\<lambda>k. (k, filter (\<lambda>y. key y = k) (xs @ [x]))) (firsts (map key (xs @ [x])))"
    using none by (auto simp: dict_append_map)
  finally show ?case .
qed (simp add: group_by_def)

lemma group_by_keys [simp]: "map fst (group_by key xs) = firsts (map key xs)"
  by (simp add: group_by_map o_def)

lemma group_by_mem:
  "(k, g) \<in> set (group_by key xs) \<longleftrightarrow> k \<in> key ` set xs \<and> g = filter (\<lambda>x. key x = k) xs"
  by (auto simp: group_by_map)

lemma group_by_nonempty: "(k, g) \<in> set (group_by key xs) \<Longrightarrow> g \<noteq> []"
  by (auto simp: group_by_mem filter_empty_conv)

lemma mset_concat_filter_keys:
  "distinct ks \<Longrightarrow> key ` set xs \<subseteq> set ks \<Longrightarrow>
   mset (concat (map (\<lambda>k. filter (\<lambda>x. key x = k) xs) ks)) = mset xs"
proof (induction ks arbitrary: xs)
  case (Cons k ks)
  let ?ys = "filter (\<lambda>x. key x \<noteq> k) xs"
  have "filter (\<lambda>x. key x = j) xs = filter (\<lambda>x. key x = j) ?ys" if "j \<in> set ks" for j
    using that Cons.prems(1) by (auto intro: filter_cong)
  then have "map (\<lambda>k. filter (\<lambda>x. key x = k) xs) ks = map (\<lambda>k. filter (\<lambda>x. key x = k) ?ys) ks"
    by (intro map_cong) auto
  moreover have "mset (concat (map (\<lambda>k. filter (\<lambda>x. key x = k) ?ys) ks)) = mset ?ys"
    using Cons by (intro Cons.IH) auto
  ultimately have "mset (concat (map (\<lambda>k. filter (\<lambda>x. key x = k) xs) ks)) = mset ?ys"
    by argo
  then show ?case
    by (simp flip: multiset_partition)
qed simp

lemma mset_group_by: "mset (concat (map snd (group_by key xs))) = mset xs"
  by (simp add: group_by_map o_def mset_concat_filter_keys)


lemma filter_unique_key:
  "distinct (map f xs) \<Longrightarrow> x \<in> set xs \<Longrightarrow> filter (\<lambda>y. f y = f x) xs = [x]"
proof (induction xs)
  case (Cons y ys)
  show ?case
  proof (cases "x = y")
    case True
    with Cons.prems have "f z \<noteq> f x" if "z \<in> set ys" for z
      using that by (auto simp: image_iff)
    with True show ?thesis by (simp add: filter_empty_conv)
  next
    case False
    with Cons have "x \<in> set ys" "f y \<noteq> f x" by (force simp: image_iff)+
    with Cons show ?thesis by simp
  qed
qed simp


section \<open>Chunking\<close>

text \<open>The slices \<open>xs[start : start + n] for start in range(0, len(xs), n)\<close>.\<close>

function chunks :: "nat \<Rightarrow> 'a list \<Rightarrow> 'a list list" where
  "chunks n xs = (if xs = [] \<or> n = 0 then [] else take n xs # chunks n (drop n xs))"
  by pat_completeness auto
termination
  by (relation "measure (\<lambda>(n, xs). length xs)") auto

declare chunks.simps [simp del]

lemma chunks_Nil [simp]: "chunks n [] = []"
  by (simp add: chunks.simps)

lemma concat_chunks [simp]: "0 < n \<Longrightarrow> concat (chunks n xs) = xs"
proof (induction n xs rule: chunks.induct)
  case (1 n xs)
  then show ?case by (subst chunks.simps) auto
qed

lemma chunks_nonempty: "c \<in> set (chunks n xs) \<Longrightarrow> c \<noteq> []"
proof (induction n xs rule: chunks.induct)
  case (1 n xs)
  then show ?case by (subst (asm) (2) chunks.simps) (auto split: if_splits)
qed

lemma chunks_length: "c \<in> set (chunks n xs) \<Longrightarrow> length c \<le> n"
proof (induction n xs rule: chunks.induct)
  case (1 n xs)
  then show ?case by (subst (asm) (2) chunks.simps) (auto split: if_splits)
qed

lemma chunks_single: "xs \<noteq> [] \<Longrightarrow> length xs \<le> n \<Longrightarrow> chunks n xs = [xs]"
  by (subst chunks.simps) (cases xs; auto)

end
