(* ===== verification/Py_Uuid.thy ===== *)
theory Py_Uuid
  imports Morai_Prelude "HOL-Library.Word"
begin

text \<open>
  \<open>uuid.UUID\<close> as a 128-bit word with its canonical text (\<open>str(u)\<close>, Postgres' \<open>u::text\<close>), and the
  reader of that text (\<open>UUID(s)\<close>, \<open>s::uuid\<close>). The text is injective, so that an identifier rendered
  into associated data, a sort key or a session setting is as good as the identifier itself.
\<close>

type_synonym uuid = "128 word"

definition hex_char :: "nat \<Rightarrow> char" where
  "hex_char d = (if d < 10 then digit_char d else char_of (87 + d))"

definition hex_val :: "char \<Rightarrow> nat option" where
  "hex_val c = (let n = (of_char c :: nat) in
     if 48 \<le> n \<and> n \<le> 57 then Some (n - 48)
     else if 97 \<le> n \<and> n \<le> 102 then Some (n - 87)
     else if 65 \<le> n \<and> n \<le> 70 then Some (n - 55)
     else None)"

text \<open>The last \<open>k\<close> hexadecimal digits of a number, most significant first.\<close>

fun hex_digits :: "nat \<Rightarrow> nat \<Rightarrow> string" where
  "hex_digits 0 n = []"
| "hex_digits (Suc k) n = hex_digits k (n div 16) @ [hex_char (n mod 16)]"

definition hex_read :: "string \<Rightarrow> nat option" where
  "hex_read cs = fold (\<lambda>c acc. case (acc, hex_val c) of
     (Some n, Some d) \<Rightarrow> Some (16 * n + d) | _ \<Rightarrow> None) cs (Some 0)"

definition uuid_str :: "uuid \<Rightarrow> string" where
  "uuid_str u = (let h = hex_digits 32 (unat u) in
     take 8 h @ ''-'' @ take 4 (drop 8 h) @ ''-'' @ take 4 (drop 12 h) @ ''-'' @
     take 4 (drop 16 h) @ ''-'' @ drop 20 h)"

text \<open>Hyphens are dropped and 32 hexadecimal digits are required; anything else is an error.\<close>

definition uuid_of_text :: "string \<Rightarrow> uuid option" where
  "uuid_of_text s = (let h = filter (\<lambda>c. c \<noteq> CHR ''-'') s in
     if length h = 32 then map_option word_of_nat (hex_read h) else None)"

lemma hex_val_char [text_simps]: "d < 16 \<Longrightarrow> hex_val (hex_char d) = Some d"
  by (auto simp: hex_val_def hex_char_def digit_char_def Let_def)

lemma hex_char_not_minus [text_simps]: "d < 16 \<Longrightarrow> hex_char d \<noteq> CHR ''-''"
proof
  assume "d < 16" "hex_char d = CHR ''-''"
  then have "hex_val (CHR ''-'') = Some d" by (metis hex_val_char)
  then show False by (simp add: hex_val_def Let_def)
qed

lemma length_hex_digits [simp]: "length (hex_digits k n) = k"
  by (induction k n rule: hex_digits.induct) simp_all

lemma hex_digits_no_minus: "CHR ''-'' \<notin> set (hex_digits k n)"
proof (induction k n rule: hex_digits.induct)
  case (2 k n)
  have "hex_char (n mod 16) \<noteq> CHR ''-''" by (rule hex_char_not_minus) simp
  then show ?case using 2 by auto
qed simp

lemma hex_digits_no_colon: "CHR '':'' \<notin> set (hex_digits k n)"
proof (induction k n rule: hex_digits.induct)
  case (2 k n)
  have "hex_val (CHR '':'') = None" by (simp add: hex_val_def Let_def)
  then have "hex_char (n mod 16) \<noteq> CHR '':''" by (metis hex_val_char mod_less_divisor option.distinct(1) zero_less_numeral)
  then show ?case using 2 by auto
qed simp

lemma hex_read_snoc [simp]:
  "hex_read (cs @ [c]) = (case (hex_read cs, hex_val c) of
     (Some n, Some d) \<Rightarrow> Some (16 * n + d) | _ \<Rightarrow> None)"
  by (simp add: hex_read_def)

lemma hex_read_digits [simp]: "n < 16 ^ k \<Longrightarrow> hex_read (hex_digits k n) = Some n"
proof (induction k n rule: hex_digits.induct)
  case (2 k n)
  then have "n div 16 < 16 ^ k" by (simp add: less_mult_imp_div_less mult.commute)
  with 2 show ?case by (simp add: text_simps)
qed (simp add: hex_read_def)

lemma filter_uuid_str: "filter (\<lambda>c. c \<noteq> CHR ''-'') (uuid_str u) = hex_digits 32 (unat u)"
proof -
  define h where "h = hex_digits 32 (unat u)"
  have m: "CHR ''-'' \<notin> set h" by (simp add: h_def hex_digits_no_minus)
  then have k: "filter (\<lambda>c. c \<noteq> CHR ''-'') (take i (drop j h)) = take i (drop j h)"
    "filter (\<lambda>c. c \<noteq> CHR ''-'') (drop j h) = drop j h"
    "filter (\<lambda>c. c \<noteq> CHR ''-'') (take i h) = take i h" for i j
    by (auto simp: filter_id_conv dest: in_set_takeD in_set_dropD)
  have "take 8 h @ take 4 (drop 8 h) @ take 4 (drop 12 h) @ take 4 (drop 16 h) @ drop 20 h = h"
    using append_take_drop_id [of 4 "drop 16 h"] append_take_drop_id [of 4 "drop 12 h"]
      append_take_drop_id [of 4 "drop 8 h"] append_take_drop_id [of 8 h]
    by simp
  then show ?thesis by (simp add: uuid_str_def Let_def k flip: h_def)
qed

theorem uuid_of_text_str [simp]: "uuid_of_text (uuid_str u) = Some u"
proof -
  have "unat u < 16 ^ 32" using unsigned_less [of u] by simp
  then show ?thesis by (simp add: uuid_of_text_def filter_uuid_str)
qed

lemma uuid_str_inject [simp]: "uuid_str u = uuid_str v \<longleftrightarrow> u = v"
  by (metis option.inject uuid_of_text_str)

lemma uuid_str_nonempty [simp]: "uuid_str u \<noteq> []"
  by (simp add: uuid_str_def Let_def)

lemma uuid_of_text_Nil [simp]: "uuid_of_text [] = None"
  by (simp add: uuid_of_text_def)

lemma uuid_str_no_colon [simp]: "CHR '':'' \<notin> set (uuid_str u)"
  using hex_digits_no_colon [of 32 "unat u"]
  by (auto simp: uuid_str_def Let_def dest: in_set_takeD in_set_dropD)

end
