(* ===== verification/Py_Time.thy ===== *)
theory Py_Time
  imports Morai_Prelude
begin

text \<open>
  Python's aware \<open>datetime\<close> and \<open>timedelta\<close> as integers, in microseconds since the Unix epoch (their
  own resolution), and the calendar dates of \<open>datetime.date\<close>. The rendering
  \<open>int(t.timestamp() * 1_000_000)\<close> of \<open>ledger/fills.py\<close> and \<open>ledger/pairing.py\<close> goes through
  IEEE doubles, so it is modelled with the two roundings written out.
\<close>

type_synonym datetime = int
type_synonym timedelta = int

definition td_seconds :: "int \<Rightarrow> timedelta" where
  "td_seconds n = n * 1000000"

definition td_hours :: "int \<Rightarrow> timedelta" where
  "td_hours n = n * 3600000000"

definition td_days :: "int \<Rightarrow> timedelta" where
  "td_days n = n * 86400000000"


section \<open>Calendar dates\<close>

record date =
  d_year :: nat
  d_month :: nat
  d_day :: nat

definition is_leap :: "nat \<Rightarrow> bool" where
  "is_leap y \<longleftrightarrow> y mod 4 = 0 \<and> (y mod 100 \<noteq> 0 \<or> y mod 400 = 0)"

definition days_in_month :: "nat \<Rightarrow> nat \<Rightarrow> nat" where
  "days_in_month y m =
     (if m = 2 then (if is_leap y then 29 else 28)
      else if m \<in> {4, 6, 9, 11} then 30 else 31)"

text \<open>\<open>date(y, m, d)\<close>; \<open>None\<close> is its \<open>ValueError\<close>.\<close>

definition mk_date :: "nat \<Rightarrow> nat \<Rightarrow> nat \<Rightarrow> date option" where
  "mk_date y m d =
     (if 1 \<le> y \<and> y \<le> 9999 \<and> 1 \<le> m \<and> m \<le> 12 \<and> 1 \<le> d \<and> d \<le> days_in_month y m
      then Some \<lparr>d_year = y, d_month = m, d_day = d\<rparr> else None)"

lemma days_in_month_le: "days_in_month y m \<le> 31"
  by (simp add: days_in_month_def)


section \<open>Doubles\<close>

text \<open>
  A non-negative double is \<open>m * 2 ^ e\<close> with a 53-bit mantissa. \<open>dbl_div n d\<close> is the double nearest
  to \<open>n / d\<close>, ties to even, for values in the normal range (every timestamp and product here is).
\<close>

fun bit_len :: "nat \<Rightarrow> nat" where
  "bit_len n = (if n = 0 then 0 else Suc (bit_len (n div 2)))"

declare bit_len.simps [simp del]

definition dbl_scale :: "nat \<Rightarrow> nat \<Rightarrow> int \<Rightarrow> nat" where
  "dbl_scale n d e = div_half_even (n * 2 ^ nat (- e)) (d * 2 ^ nat e)"

text \<open>The exponent that puts the quotient between \<open>2 ^ 52\<close> and \<open>2 ^ 53\<close>.\<close>

definition dbl_exp :: "nat \<Rightarrow> nat \<Rightarrow> int" where
  "dbl_exp n d =
     (let e = int (bit_len n) - int (bit_len d) - 52
      in if n * 2 ^ nat (- e) < d * 2 ^ nat e * 2 ^ 52 then e - 1 else e)"

definition dbl_div :: "nat \<Rightarrow> nat \<Rightarrow> nat \<times> int" where
  "dbl_div n d =
     (if n = 0 then (0, 0) else (dbl_scale n d (dbl_exp n d), dbl_exp n d))"

text \<open>Product of a double with a natural number: the exact product, rounded once more.\<close>

definition dbl_mul_nat :: "nat \<times> int \<Rightarrow> nat \<Rightarrow> nat \<times> int" where
  "dbl_mul_nat x k = (let (m, e) = x in dbl_div (m * k * 2 ^ nat e) (2 ^ nat (- e)))"

definition dbl_trunc :: "nat \<times> int \<Rightarrow> nat" where
  "dbl_trunc x = (let (m, e) = x in (m * 2 ^ nat e) div 2 ^ nat (- e))"

text \<open>
  \<open>int(t.timestamp() * 1_000_000)\<close>: \<open>timestamp()\<close> divides the microseconds by \<open>10 ^ 6\<close> with one
  rounding, the product rounds again, and \<open>int\<close> truncates towards zero.
\<close>

definition epoch_micros :: "datetime \<Rightarrow> int" where
  "epoch_micros t =
     (let v = int (dbl_trunc (dbl_mul_nat (dbl_div (nat \<bar>t\<bar>) 1000000) 1000000))
      in if t < 0 then - v else v)"


text \<open>\<open>int(t.timestamp())\<close>: whole seconds, towards zero.\<close>

definition int_timestamp :: "datetime \<Rightarrow> int" where
  "int_timestamp t =
     (let v = int (dbl_trunc (dbl_div (nat \<bar>t\<bar>) 1000000)) in if t < 0 then - v else v)"

text \<open>\<open>datetime.fromtimestamp(n, tz=UTC)\<close>: years 1 to 9999, or a \<open>ValueError\<close>.\<close>

definition from_timestamp :: "int \<Rightarrow> datetime option" where
  "from_timestamp n =
     (if - 62135596800 \<le> n \<and> n \<le> 253402300799 then Some (td_seconds n) else None)"

subsection \<open>Where the rendering is exact\<close>

lemma bit_len_bounds: "0 < n \<Longrightarrow> 2 ^ (bit_len n - 1) \<le> n \<and> n < 2 ^ bit_len n"
proof (induction n rule: bit_len.induct)
  case (1 n)
  show ?case
  proof (cases "n = 1")
    case True
    then show ?thesis by (simp add: bit_len.simps)
  next
    case False
    with 1 have ih: "2 ^ (bit_len (n div 2) - 1) \<le> n div 2" "n div 2 < 2 ^ bit_len (n div 2)"
      by auto
    have b: "bit_len n = Suc (bit_len (n div 2))" using 1 by (subst bit_len.simps) simp
    have "0 < bit_len (n div 2)" using False 1 by (subst bit_len.simps) auto
    then have "2 ^ bit_len (n div 2) = 2 * (2 ^ (bit_len (n div 2) - 1) :: nat)"
      by (metis Suc_diff_1 power_Suc)
    with ih have "2 ^ bit_len (n div 2) \<le> 2 * (n div 2)" "2 * (n div 2) + 1 < 2 * 2 ^ bit_len (n div 2)"
      by simp_all
    moreover have "2 * (n div 2) \<le> n" "n \<le> 2 * (n div 2) + 1" by simp_all
    ultimately have "2 ^ bit_len (n div 2) \<le> n" "n < 2 * 2 ^ bit_len (n div 2)" by linarith+
    then show ?thesis by (simp add: b)
  qed
qed

lemma bit_len_eqI: "2 ^ k \<le> n \<Longrightarrow> n < 2 ^ Suc k \<Longrightarrow> bit_len n = Suc k"
proof -
  assume a: "2 ^ k \<le> n" "n < 2 ^ Suc k"
  then have "0 < n" by (metis gr0I leD zero_less_numeral zero_less_power)
  note b = bit_len_bounds [OF this]
  have "(2::nat) ^ k < 2 ^ bit_len n" using a(1) b by linarith
  moreover have "(2::nat) ^ (bit_len n - 1) < 2 ^ Suc k" using a(2) b by linarith
  ultimately have "k < bit_len n" "bit_len n - 1 < Suc k"
    by (simp_all only: power_strict_increasing_iff one_less_numeral_iff semiring_norm)
  then show ?thesis by simp
qed

lemma bit_len_million: "bit_len 1000000 = 20"
  by (rule bit_len_eqI [of 19, simplified]) simp_all

text \<open>The first rounding: a timestamp between \<open>2 ^ 30\<close> and \<open>2 ^ 31\<close> seconds has exponent -22.\<close>

lemma timestamp_exp:
  assumes "2 ^ 30 * 1000000 \<le> t" "t < 2 ^ 31 * 1000000"
  shows "dbl_exp t 1000000 = -22"
proof (cases "t < 2 ^ 50")
  case True
  with assms have "bit_len t = 50" by (intro bit_len_eqI [of 49, simplified]) simp_all
  with assms show ?thesis by (simp add: dbl_exp_def bit_len_million)
next
  case False
  with assms have "bit_len t = 51" by (intro bit_len_eqI [of 50, simplified]) simp_all
  with assms show ?thesis by (simp add: dbl_exp_def bit_len_million)
qed

lemma epoch_micros_nat_exact:
  assumes lo: "2 ^ 50 < t" and hi: "t < 2 ^ 31 * 1000000"
  shows "dbl_trunc (dbl_mul_nat (dbl_div t 1000000) 1000000) = t"
proof -
  define m where "m = div_half_even (t * 4194304) 1000000"
  have m: "2 * (m * 1000000) \<le> 2 * (t * 4194304) + 1000000"
    "2 * (t * 4194304) \<le> 2 * (m * 1000000) + 1000000"
    using div_half_even_bounds [of 1000000 "t * 4194304"] by (simp_all add: m_def)
  have e: "dbl_exp t 1000000 = -22" using lo hi by (intro timestamp_exp) simp_all
  have d: "dbl_div t 1000000 = (m, -22)"
    using lo by (simp add: dbl_div_def e dbl_scale_def m_def)
  define p where "p = m * 1000000"
  have plo: "2 ^ 72 \<le> p" and phi: "p < 2 ^ 73"
    using m lo hi unfolding p_def by simp_all
  have pe: "dbl_exp p 4194304 = -2"
  proof -
    have "bit_len p = 73" using plo phi by (intro bit_len_eqI [of 72, simplified]) simp_all
    moreover have "bit_len 4194304 = 23" by (rule bit_len_eqI [of 22, simplified]) simp_all
    ultimately show ?thesis using plo by (simp add: dbl_exp_def)
  qed
  have "div_half_even (p * 4) 4194304 = 4 * t"
    by (rule div_half_even_unique) (use m in \<open>simp_all add: p_def\<close>)
  then have "dbl_div p 4194304 = (4 * t, -2)"
    using plo by (simp add: dbl_div_def pe dbl_scale_def)
  then show ?thesis by (simp add: d dbl_mul_nat_def dbl_trunc_def p_def)
qed

lemma epoch_micros_exact:
  assumes "2 ^ 50 < t" "t < 2 ^ 31 * 1000000"
  shows "epoch_micros t = t"
proof -
  have "2 ^ 50 < nat t" "nat t < 2 ^ 31 * 1000000" using assms by simp_all
  then show ?thesis using assms by (simp add: epoch_micros_def epoch_micros_nat_exact)
qed

text \<open>From 2038-01-19 the rendering can be one microsecond low, and two instants share it.\<close>

lemma epoch_micros_inexact: "epoch_micros 2238069707562968 = 2238069707562967"
proof -
  have b: "bit_len 2238069707562968 = 51" by (rule bit_len_eqI [of 50, simplified]) simp_all
  have e: "dbl_exp 2238069707562968 1000000 = -21" by (simp add: dbl_exp_def b bit_len_million)
  have d: "dbl_div 2238069707562968 1000000 = (4693572363355093, -21)"
    by (simp add: dbl_div_def e dbl_scale_def div_half_even_def)
  have b1: "bit_len 4693572363355093000000 = 72" by (rule bit_len_eqI [of 71, simplified]) simp_all
  have b2: "bit_len 2097152 = 22" by (rule bit_len_eqI [of 21, simplified]) simp_all
  have e2: "dbl_exp 4693572363355093000000 2097152 = -2" by (simp add: dbl_exp_def b1 b2)
  have d2: "dbl_div 4693572363355093000000 2097152 = (8952278830251871, -2)"
    by (simp add: dbl_div_def e2 dbl_scale_def div_half_even_def)
  show ?thesis by (simp add: epoch_micros_def d dbl_mul_nat_def d2 dbl_trunc_def)
qed

end
