(* ===== verification/Schema.thy ===== *)
theory Schema
  imports Py_Uuid Py_Time
begin

text \<open>
  The rows of the database, one record per table of \<open>db/models.py\<close> (and of the queue's job table,
  which the web process and the worker write through Procrastinate). A nullable column is an
  \<open>option\<close>, \<open>timestamptz\<close> is \<open>datetime\<close>, \<open>bytea\<close> and \<open>text\<close> are byte lists. The
  \<open>created_at\<close> columns are left out: nothing in the program reads them.
\<close>

record user_row =
  u_id :: uuid
  u_username :: string
  u_password_hash :: "string option"
  u_is_admin :: bool

record session_row =
  ss_id :: uuid
  ss_token_hash :: string
  ss_user_id :: uuid
  ss_expires_at :: datetime

record setup_token_row =
  st_id :: uuid
  st_token_hash :: string
  st_user_id :: uuid
  st_purpose :: string
  st_expires_at :: datetime

record audit_row =
  al_id :: uuid
  al_reader_id :: uuid
  al_subject_id :: uuid

record data_key_row =
  dk_user_id :: uuid
  dk_key_version :: int
  dk_wrapped_dek :: bytes
  dk_wrap_nonce :: bytes

record fill_row =
  f_user_id :: uuid
  f_order_id :: string
  f_occ_symbol :: string
  f_leg_index :: int
  f_execution_time :: datetime
  f_position_effect :: string
  f_side :: string
  f_quantity_ciphertext :: "bytes option"
  f_quantity_nonce :: "bytes option"
  f_price_usd_ciphertext :: "bytes option"
  f_price_usd_nonce :: "bytes option"
  f_key_version :: int

record position_row =
  p_id :: uuid
  p_user_id :: uuid
  p_opened_at :: "datetime option"
  p_closed_at :: "datetime option"

record leg_row =
  l_id :: uuid
  l_position_id :: uuid
  l_user_id :: uuid
  l_leg_role :: string
  l_occ_symbol :: string
  l_root :: string

record event_row =
  e_id :: uuid
  e_user_id :: uuid
  e_position_id :: uuid
  e_event_type :: string
  e_event_time :: datetime
  e_fill_ids_hash :: "string option"
  e_open_debit_usd_ciphertext :: "bytes option"
  e_open_debit_usd_nonce :: "bytes option"
  e_close_credit_usd_ciphertext :: "bytes option"
  e_close_credit_usd_nonce :: "bytes option"
  e_key_version :: int

record connection_row =
  c_user_id :: uuid
  c_account_hash_ciphertext :: bytes
  c_account_hash_nonce :: bytes
  c_token_ciphertext :: bytes
  c_token_nonce :: bytes
  c_key_version :: int
  c_token_created_at :: datetime
  c_last_synced_at :: "datetime option"
  c_reauth_notified_at :: "datetime option"

record broker_tx_row =
  b_user_id :: uuid
  b_activity_id :: string
  b_transaction_type :: string
  b_transaction_time :: datetime
  b_order_id :: "string option"
  b_raw_ciphertext :: bytes
  b_raw_nonce :: bytes
  b_key_version :: int

record sync_run_row =
  r_id :: uuid
  r_user_id :: uuid
  r_started_at :: datetime
  r_finished_at :: datetime
  r_trigger :: string
  r_status :: string
  r_fills_landed :: "int option"
  r_broker_transactions_landed :: "int option"
  r_error_code :: "string option"

text \<open>One deferred job: the task's name and its keyword arguments.\<close>

record job_row =
  j_task :: string
  j_user_id :: string
  j_trigger :: "string option"

record db =
  t_users :: "user_row list"
  t_sessions :: "session_row list"
  t_setup_tokens :: "setup_token_row list"
  t_audit_log :: "audit_row list"
  t_user_data_keys :: "data_key_row list"
  t_fills :: "fill_row list"
  t_positions :: "position_row list"
  t_legs :: "leg_row list"
  t_events :: "event_row list"
  t_schwab_connections :: "connection_row list"
  t_broker_transactions :: "broker_tx_row list"
  t_sync_runs :: "sync_run_row list"
  t_procrastinate_jobs :: "job_row list"

definition empty_db :: db where
  "empty_db = \<lparr>t_users = [], t_sessions = [], t_setup_tokens = [], t_audit_log = [],
     t_user_data_keys = [], t_fills = [], t_positions = [], t_legs = [], t_events = [],
     t_schwab_connections = [], t_broker_transactions = [], t_sync_runs = [],
     t_procrastinate_jobs = []\<rparr>"

end
