(* ===== verification/Db_Session.thy ===== *)
theory Db_Session
  imports Schema
begin

text \<open>
  Database sessions. A session works on its own view of the database until it commits; it carries
  the role it connected as, the two settings row-level security reads, the advisory locks of its
  transaction and the number of draws made from the entropy source. An operation takes a session to
  a result or an exception and the session after it. Statements run under the grants and the policy
  of their table, and a failed statement aborts the transaction, as Postgres does.
\<close>

named_theorems op_run \<open>running operations\<close>
named_theorems keeps_intros \<open>what operations keep\<close>

section \<open>Exceptions, sessions and operations\<close>

text \<open>
  The exceptions of the program, by their class, with the status code and detail where the code reads
  them. \<open>Diverges\<close> is no exception: it stands for a run that does not return, and no handler sees it.
\<close>

datatype exn =
    InvalidTag
  | DataKeyMissing
  | ConnectionDataKeyMissing
  | ConnectionNotFound
  | NoResultFound
  | MultipleResultsFound
  | IntegrityError
  | InsufficientPrivilege
  | DataError
  | PendingRollback
  | ValueError
  | InvalidOperation
  | RuntimeError
  | RlsContextMissing
  | ValidationError
  | IndexError
  | Diverges
  | HTTPStatusError nat
  | HTTPException nat string

datatype role = App | Superuser

record sess =
  s_committed :: db
  s_db :: db
  s_role :: role
  s_user_guc :: "string option"
  s_admin_guc :: "string option"
  s_locks :: "int list"
  s_draws :: nat
  s_aborted :: bool

type_synonym 'a op = "sess \<Rightarrow> (exn + 'a) \<times> sess"

definition ret :: "'a \<Rightarrow> 'a op" where
  "ret x = (\<lambda>s. (Inr x, s))"

definition raise :: "exn \<Rightarrow> 'a op" where
  "raise e = (\<lambda>s. (Inl e, s))"

definition op_bind :: "'a op \<Rightarrow> ('a \<Rightarrow> 'b op) \<Rightarrow> 'b op" where
  "op_bind m f = (\<lambda>s. case m s of (Inl e, s') \<Rightarrow> (Inl e, s') | (Inr x, s') \<Rightarrow> f x s')"

definition op_seq :: "'a op \<Rightarrow> 'b op \<Rightarrow> 'b op" where
  "op_seq m k = op_bind m (\<lambda>_. k)"

text \<open>\<open>try: m except h\<close>, the handler seeing the session as the body left it.\<close>

definition op_catch :: "'a op \<Rightarrow> (exn \<Rightarrow> 'a op) \<Rightarrow> 'a op" where
  "op_catch m h = (\<lambda>s. case m s of
     (Inl e, s') \<Rightarrow> if e = Diverges then (Inl e, s') else h e s'
   | (Inr x, s') \<Rightarrow> (Inr x, s'))"

fun op_map :: "('a \<Rightarrow> 'b op) \<Rightarrow> 'a list \<Rightarrow> 'b list op" where
  "op_map f [] = ret []"
| "op_map f (x # xs) = op_bind (f x) (\<lambda>y. op_bind (op_map f xs) (\<lambda>ys. ret (y # ys)))"

definition op_from :: "exn + 'a \<Rightarrow> 'a op" where
  "op_from r = (\<lambda>s. (r, s))"

definition gets :: "(sess \<Rightarrow> 'a) \<Rightarrow> 'a op" where
  "gets f = (\<lambda>s. (Inr (f s), s))"

lemma op_run_simps [op_run]:
  "ret x s = (Inr x, s)"
  "raise e s = (Inl e, s)"
  "op_bind m f s = (case m s of (Inl e, s') \<Rightarrow> (Inl e, s') | (Inr x, s') \<Rightarrow> f x s')"
  "op_seq m k s = op_bind m (\<lambda>_. k) s"
  "op_catch m h s = (case m s of
     (Inl e, s') \<Rightarrow> if e = Diverges then (Inl e, s') else h e s'
   | (Inr x, s') \<Rightarrow> (Inr x, s'))"
  "op_from r s = (r, s)"
  "gets g s = (Inr (g s), s)"
  by (simp_all add: ret_def raise_def op_bind_def op_seq_def op_catch_def op_from_def gets_def)

lemma op_bind_ok: "m s = (Inr x, s') \<Longrightarrow> op_bind m f s = f x s'"
  by (simp add: op_run)

lemma op_bind_err: "m s = (Inl e, s') \<Longrightarrow> op_bind m f s = (Inl e, s')"
  by (simp add: op_run)

lemma op_bind_Inr_iff:
  "op_bind m f s = (Inr y, t) \<longleftrightarrow> (\<exists>x s'. m s = (Inr x, s') \<and> f x s' = (Inr y, t))"
  by (auto simp: op_run split: prod.splits sum.splits)


section \<open>Tables and their row-level security\<close>

datatype verb = SELECT | INSERT | UPDATE | DELETE

text \<open>
  The four shapes of policy in the migrations: none, the owner's rows only, the owner's rows or
  everything for an admin, and append only.
\<close>

datatype policy = NoPolicy | UserIsolation | SelfOrAdmin | AppendOnly

record 'r table =
  tb_rows :: "db \<Rightarrow> 'r list"
  tb_put :: "'r list \<Rightarrow> db \<Rightarrow> db"
  tb_grants :: "verb list"
  tb_policy :: policy
  tb_owner :: "'r \<Rightarrow> uuid"
  tb_clash :: "'r \<Rightarrow> 'r \<Rightarrow> bool"
  tb_check :: "'r \<Rightarrow> exn option"
  tb_parents :: "db \<Rightarrow> 'r \<Rightarrow> bool"
  tb_referenced :: "db \<Rightarrow> 'r \<Rightarrow> bool"

text \<open>
  \<open>current_setting('app.current_user_id', true)::uuid\<close>: NULL when never set, an error for a text
  that is no identifier (the empty string a finished transaction leaves behind).
\<close>

definition setting_uuid :: "string option \<Rightarrow> exn + uuid option" where
  "setting_uuid g = (case g of None \<Rightarrow> Inr None
     | Some t \<Rightarrow> (case uuid_of_text t of None \<Rightarrow> Inl DataError | Some u \<Rightarrow> Inr (Some u)))"

definition policy_user :: "'r table \<Rightarrow> sess \<Rightarrow> exn + uuid option" where
  "policy_user tb s =
     (if s_role s = Superuser \<or> tb_policy tb = NoPolicy \<or> tb_policy tb = AppendOnly then Inr None
      else setting_uuid (s_user_guc s))"

definition row_visible :: "'r table \<Rightarrow> sess \<Rightarrow> uuid option \<Rightarrow> 'r \<Rightarrow> bool" where
  "row_visible tb s cu r = (s_role s = Superuser \<or>
     (case tb_policy tb of
        NoPolicy \<Rightarrow> True
      | UserIsolation \<Rightarrow> cu = Some (tb_owner tb r)
      | SelfOrAdmin \<Rightarrow> cu = Some (tb_owner tb r) \<or> s_admin_guc s = Some ''true''
      | AppendOnly \<Rightarrow> False))"

definition row_writable :: "'r table \<Rightarrow> sess \<Rightarrow> uuid option \<Rightarrow> 'r \<Rightarrow> bool" where
  "row_writable tb s cu r = (tb_policy tb = AppendOnly \<or> row_visible tb s cu r)"


section \<open>Statements\<close>

text \<open>
  Every statement: refused in an aborted transaction and without the grant; its body sees the user
  the policy compares with; a failure aborts the transaction.
\<close>

definition db_fail :: "exn \<Rightarrow> 'a op" where
  "db_fail e = (\<lambda>s. (Inl e, s\<lparr>s_aborted := True\<rparr>))"

definition stmt :: "verb \<Rightarrow> 'r table \<Rightarrow> (sess \<Rightarrow> uuid option \<Rightarrow> db \<Rightarrow> exn + ('a \<times> db)) \<Rightarrow> 'a op" where
  "stmt v tb body = (\<lambda>s.
     if s_aborted s then (Inl PendingRollback, s)
     else if s_role s = App \<and> v \<notin> set (tb_grants tb) then db_fail InsufficientPrivilege s
     else (case policy_user tb s of
             Inl e \<Rightarrow> db_fail e s
           | Inr cu \<Rightarrow> (case body s cu (s_db s) of
                Inl e \<Rightarrow> db_fail e s
              | Inr (x, d) \<Rightarrow> (Inr x, s\<lparr>s_db := d\<rparr>))))"

text \<open>
  The rows of a \<open>SELECT\<close> come in the order of the table, oldest first. Postgres promises no order without an
  \<open>ORDER BY\<close>, so what is said of the order of a read holds up to that order.
\<close>

definition sel :: "'r table \<Rightarrow> ('r \<Rightarrow> bool) \<Rightarrow> 'r list op" where
  "sel tb P = stmt SELECT tb (\<lambda>s cu d.
     Inr (filter (\<lambda>r. row_visible tb s cu r \<and> P r) (tb_rows tb d), d))"

definition insert_row :: "'r table \<Rightarrow> ('r \<Rightarrow> bool) \<Rightarrow> 'r \<Rightarrow> db \<Rightarrow> exn + (unit \<times> db)" where
  "insert_row tb w r d =
     (if \<not> w r then Inl InsufficientPrivilege
      else (case tb_check tb r of
              Some e \<Rightarrow> Inl e
            | None \<Rightarrow>
                if list_ex (\<lambda>q. tb_clash tb q r) (tb_rows tb d) \<or> \<not> tb_parents tb d r
                then Inl IntegrityError
                else Inr ((), tb_put tb (tb_rows tb d @ [r]) d)))"

definition ins :: "'r table \<Rightarrow> 'r \<Rightarrow> unit op" where
  "ins tb r = stmt INSERT tb (\<lambda>s cu. insert_row tb (row_writable tb s cu) r)"

text \<open>\<open>INSERT ... VALUES ... ON CONFLICT (key) DO NOTHING RETURNING\<close>: the rows that landed.\<close>

fun offer_rows :: "'r table \<Rightarrow> ('r \<Rightarrow> bool) \<Rightarrow> 'r list \<Rightarrow> db \<Rightarrow> exn + ('r list \<times> db)" where
  "offer_rows tb w [] d = Inr ([], d)"
| "offer_rows tb w (r # rs) d =
     (if \<not> w r then Inl InsufficientPrivilege
      else (case tb_check tb r of
              Some e \<Rightarrow> Inl e
            | None \<Rightarrow>
                if list_ex (\<lambda>q. tb_clash tb q r) (tb_rows tb d) then offer_rows tb w rs d
                else if \<not> tb_parents tb d r then Inl IntegrityError
                else map_sum id (\<lambda>(ls, d'). (r # ls, d'))
                       (offer_rows tb w rs (tb_put tb (tb_rows tb d @ [r]) d))))"

definition ins_on_conflict_do_nothing :: "'r table \<Rightarrow> 'r list \<Rightarrow> 'r list op" where
  "ins_on_conflict_do_nothing tb rs =
     stmt INSERT tb (\<lambda>s cu. offer_rows tb (row_writable tb s cu) rs)"

text \<open>\<open>INSERT ... ON CONFLICT (key) DO UPDATE SET ...\<close>, \<open>f\<close> being the assignment.\<close>

definition ins_on_conflict_do_update :: "'r table \<Rightarrow> 'r \<Rightarrow> ('r \<Rightarrow> 'r) \<Rightarrow> unit op" where
  "ins_on_conflict_do_update tb r f = stmt INSERT tb (\<lambda>s cu d.
     if list_ex (\<lambda>q. tb_clash tb q r) (tb_rows tb d)
     then (if \<not> row_writable tb s cu r then Inl InsufficientPrivilege
           else (case tb_check tb r of
                   Some e \<Rightarrow> Inl e
                 | None \<Rightarrow>
                     if list_all (\<lambda>q. tb_clash tb q r \<longrightarrow> row_visible tb s cu q) (tb_rows tb d) \<and>
                       UPDATE \<in> set (tb_grants tb)
                     then Inr ((), tb_put tb (map (\<lambda>q. if tb_clash tb q r then f q else q) (tb_rows tb d)) d)
                     else Inl InsufficientPrivilege))
     else insert_row tb (row_writable tb s cu) r d)"

text \<open>
  No statement of the program assigns a key column, and none a value its column could refuse, so
  \<open>UPDATE\<close> rechecks neither uniqueness nor types.
\<close>

definition upd :: "'r table \<Rightarrow> ('r \<Rightarrow> bool) \<Rightarrow> ('r \<Rightarrow> 'r) \<Rightarrow> nat op" where
  "upd tb P f = stmt UPDATE tb (\<lambda>s cu d.
     let hit = (\<lambda>r. row_visible tb s cu r \<and> P r); rows = tb_rows tb d
     in if list_all (\<lambda>r. hit r \<longrightarrow> row_writable tb s cu (f r)) rows
        then Inr (length (filter hit rows), tb_put tb (map (\<lambda>r. if hit r then f r else r) rows) d)
        else Inl InsufficientPrivilege)"

definition del :: "'r table \<Rightarrow> ('r \<Rightarrow> bool) \<Rightarrow> nat op" where
  "del tb P = stmt DELETE tb (\<lambda>s cu d.
     let hit = (\<lambda>r. row_visible tb s cu r \<and> P r); rows = tb_rows tb d
     in if list_ex (\<lambda>r. hit r \<and> tb_referenced tb d r) rows then Inl IntegrityError
        else Inr (length (filter hit rows), tb_put tb (filter (\<lambda>r. \<not> hit r) rows) d))"

text \<open>\<open>DELETE ... RETURNING\<close>: the rows that went.\<close>

definition del_returning :: "'r table \<Rightarrow> ('r \<Rightarrow> bool) \<Rightarrow> 'r list op" where
  "del_returning tb P = stmt DELETE tb (\<lambda>s cu d.
     let hit = (\<lambda>r. row_visible tb s cu r \<and> P r); rows = tb_rows tb d
     in if list_ex (\<lambda>r. hit r \<and> tb_referenced tb d r) rows then Inl IntegrityError
        else Inr (filter hit rows, tb_put tb (filter (\<lambda>r. \<not> hit r) rows) d))"

text \<open>\<open>Result.one()\<close> and \<open>Result.one_or_none()\<close>.\<close>

definition one :: "'a list \<Rightarrow> 'a op" where
  "one xs = (case xs of [] \<Rightarrow> raise NoResultFound | [x] \<Rightarrow> ret x | _ \<Rightarrow> raise MultipleResultsFound)"

definition one_or_none :: "'a list \<Rightarrow> 'a option op" where
  "one_or_none xs = (case xs of [] \<Rightarrow> ret None | [x] \<Rightarrow> ret (Some x) | _ \<Rightarrow> raise MultipleResultsFound)"


section \<open>Transactions, settings and locks\<close>

text \<open>A transaction-local setting reads as the empty string once its transaction is over.\<close>

definition end_tx :: "sess \<Rightarrow> sess" where
  "end_tx s = s\<lparr>s_user_guc := map_option (\<lambda>_. []) (s_user_guc s),
     s_admin_guc := map_option (\<lambda>_. []) (s_admin_guc s), s_locks := [], s_aborted := False\<rparr>"

definition commit :: "unit op" where
  "commit = (\<lambda>s. if s_aborted s then (Inl PendingRollback, s)
     else (Inr (), end_tx (s\<lparr>s_committed := s_db s\<rparr>)))"

definition rollback :: "unit op" where
  "rollback = (\<lambda>s. (Inr (), end_tx (s\<lparr>s_db := s_committed s\<rparr>)))"

definition on_live :: "(sess \<Rightarrow> sess) \<Rightarrow> unit op" where
  "on_live f = (\<lambda>s. if s_aborted s then (Inl PendingRollback, s) else (Inr (), f s))"

definition set_current_user :: "string \<Rightarrow> unit op" where
  "set_current_user t = on_live (s_user_guc_update (\<lambda>_. Some t))"

definition set_is_admin :: "string \<Rightarrow> unit op" where
  "set_is_admin t = on_live (s_admin_guc_update (\<lambda>_. Some t))"

definition advisory_xact_lock :: "int \<Rightarrow> unit op" where
  "advisory_xact_lock k = on_live (s_locks_update (\<lambda>ks. k # ks))"

text \<open>A fresh session on the same server: it sees what is committed.\<close>

definition new_session :: "role \<Rightarrow> db \<Rightarrow> nat \<Rightarrow> sess" where
  "new_session r d n = \<lparr>s_committed = d, s_db = d, s_role = r, s_user_guc = None,
     s_admin_guc = None, s_locks = [], s_draws = n, s_aborted = False\<rparr>"

end
