(* ===== verification/Tables.thy ===== *)
theory Tables
  imports Db_Session
begin

text \<open>
  The tables of the migrations as descriptors: where the rows live, what the application role is
  granted, which policy guards them, what makes two rows clash, which column types and
  \<open>CHECK\<close> constraints a row has to meet, which parents it refers to and which children refer to it.
  A text column is taken to hold no NUL character.
\<close>

definition int2 :: "int \<Rightarrow> bool" where
  "int2 i \<longleftrightarrow> - 32768 \<le> i \<and> i \<le> 32767"

definition int4 :: "int \<Rightarrow> bool" where
  "int4 i \<longleftrightarrow> - 2147483648 \<le> i \<and> i \<le> 2147483647"

lemma int2_small [simp]: "int2 0" "int2 1"
  by (simp_all add: int2_def)

definition typed :: "bool \<Rightarrow> exn option" where
  "typed b = (if b then None else Some DataError)"

definition has_user :: "db \<Rightarrow> uuid \<Rightarrow> bool" where
  "has_user d u \<longleftrightarrow> list_ex (\<lambda>r. u_id r = u) (t_users d)"

definition has_position :: "db \<Rightarrow> uuid \<Rightarrow> bool" where
  "has_position d p \<longleftrightarrow> list_ex (\<lambda>r. p_id r = p) (t_positions d)"

text \<open>The foreign keys onto \<open>users.id\<close>, none of which cascades.\<close>

definition user_referenced :: "db \<Rightarrow> uuid \<Rightarrow> bool" where
  "user_referenced d u \<longleftrightarrow>
     list_ex (\<lambda>r. ss_user_id r = u) (t_sessions d) \<or>
     list_ex (\<lambda>r. st_user_id r = u) (t_setup_tokens d) \<or>
     list_ex (\<lambda>r. al_reader_id r = u \<or> al_subject_id r = u) (t_audit_log d) \<or>
     list_ex (\<lambda>r. dk_user_id r = u) (t_user_data_keys d) \<or>
     list_ex (\<lambda>r. f_user_id r = u) (t_fills d) \<or>
     list_ex (\<lambda>r. p_user_id r = u) (t_positions d) \<or>
     list_ex (\<lambda>r. l_user_id r = u) (t_legs d) \<or>
     list_ex (\<lambda>r. e_user_id r = u) (t_events d) \<or>
     list_ex (\<lambda>r. c_user_id r = u) (t_schwab_connections d) \<or>
     list_ex (\<lambda>r. b_user_id r = u) (t_broker_transactions d) \<or>
     list_ex (\<lambda>r. r_user_id r = u) (t_sync_runs d)"

definition users_table :: "user_row table" where
  "users_table = \<lparr>
     tb_rows = t_users, tb_put = (\<lambda>xs. t_users_update (\<lambda>_. xs)),
     tb_grants = [SELECT, INSERT, UPDATE, DELETE], tb_policy = SelfOrAdmin, tb_owner = u_id,
     tb_clash = (\<lambda>q r. u_id q = u_id r \<or> u_username q = u_username r),
     tb_check = (\<lambda>r. None), tb_parents = (\<lambda>d r. True),
     tb_referenced = (\<lambda>d r. user_referenced d (u_id r))\<rparr>"

definition sessions_table :: "session_row table" where
  "sessions_table = \<lparr>
     tb_rows = t_sessions, tb_put = (\<lambda>xs. t_sessions_update (\<lambda>_. xs)),
     tb_grants = [SELECT, INSERT, UPDATE, DELETE], tb_policy = NoPolicy, tb_owner = ss_user_id,
     tb_clash = (\<lambda>q r. ss_id q = ss_id r \<or> ss_token_hash q = ss_token_hash r),
     tb_check = (\<lambda>r. None), tb_parents = (\<lambda>d r. has_user d (ss_user_id r)),
     tb_referenced = (\<lambda>d r. False)\<rparr>"

definition setup_tokens_table :: "setup_token_row table" where
  "setup_tokens_table = \<lparr>
     tb_rows = t_setup_tokens, tb_put = (\<lambda>xs. t_setup_tokens_update (\<lambda>_. xs)),
     tb_grants = [SELECT, INSERT, UPDATE, DELETE], tb_policy = NoPolicy, tb_owner = st_user_id,
     tb_clash = (\<lambda>q r. st_id q = st_id r \<or> st_token_hash q = st_token_hash r),
     tb_check = (\<lambda>r. None), tb_parents = (\<lambda>d r. has_user d (st_user_id r)),
     tb_referenced = (\<lambda>d r. False)\<rparr>"

text \<open>Migration 0006 leaves the application role with \<open>INSERT\<close> alone.\<close>

definition audit_log_table :: "audit_row table" where
  "audit_log_table = \<lparr>
     tb_rows = t_audit_log, tb_put = (\<lambda>xs. t_audit_log_update (\<lambda>_. xs)),
     tb_grants = [INSERT], tb_policy = AppendOnly, tb_owner = al_reader_id,
     tb_clash = (\<lambda>q r. al_id q = al_id r), tb_check = (\<lambda>r. None),
     tb_parents = (\<lambda>d r. has_user d (al_reader_id r) \<and> has_user d (al_subject_id r)),
     tb_referenced = (\<lambda>d r. False)\<rparr>"

definition user_data_keys_table :: "data_key_row table" where
  "user_data_keys_table = \<lparr>
     tb_rows = t_user_data_keys, tb_put = (\<lambda>xs. t_user_data_keys_update (\<lambda>_. xs)),
     tb_grants = [SELECT, INSERT, DELETE], tb_policy = UserIsolation, tb_owner = dk_user_id,
     tb_clash = (\<lambda>q r. dk_user_id q = dk_user_id r \<and> dk_key_version q = dk_key_version r),
     tb_check = (\<lambda>r. typed (int2 (dk_key_version r))),
     tb_parents = (\<lambda>d r. has_user d (dk_user_id r)), tb_referenced = (\<lambda>d r. False)\<rparr>"

definition fills_table :: "fill_row table" where
  "fills_table = \<lparr>
     tb_rows = t_fills, tb_put = (\<lambda>xs. t_fills_update (\<lambda>_. xs)),
     tb_grants = [SELECT, INSERT, DELETE], tb_policy = UserIsolation, tb_owner = f_user_id,
     tb_clash = (\<lambda>q r. f_user_id q = f_user_id r \<and> f_order_id q = f_order_id r \<and>
        f_occ_symbol q = f_occ_symbol r \<and> f_leg_index q = f_leg_index r \<and>
        f_execution_time q = f_execution_time r),
     tb_check = (\<lambda>r. typed (int2 (f_leg_index r) \<and> int2 (f_key_version r))),
     tb_parents = (\<lambda>d r. has_user d (f_user_id r)), tb_referenced = (\<lambda>d r. False)\<rparr>"

definition positions_table :: "position_row table" where
  "positions_table = \<lparr>
     tb_rows = t_positions, tb_put = (\<lambda>xs. t_positions_update (\<lambda>_. xs)),
     tb_grants = [SELECT, INSERT, DELETE], tb_policy = UserIsolation, tb_owner = p_user_id,
     tb_clash = (\<lambda>q r. p_id q = p_id r), tb_check = (\<lambda>r. None),
     tb_parents = (\<lambda>d r. has_user d (p_user_id r)),
     tb_referenced = (\<lambda>d r. list_ex (\<lambda>l. l_position_id l = p_id r) (t_legs d) \<or>
        list_ex (\<lambda>e. e_position_id e = p_id r) (t_events d))\<rparr>"

definition legs_table :: "leg_row table" where
  "legs_table = \<lparr>
     tb_rows = t_legs, tb_put = (\<lambda>xs. t_legs_update (\<lambda>_. xs)),
     tb_grants = [SELECT, INSERT, DELETE], tb_policy = UserIsolation, tb_owner = l_user_id,
     tb_clash = (\<lambda>q r. l_id q = l_id r \<or>
        l_position_id q = l_position_id r \<and> l_leg_role q = l_leg_role r),
     tb_check = (\<lambda>r. None),
     tb_parents = (\<lambda>d r. has_user d (l_user_id r) \<and> has_position d (l_position_id r)),
     tb_referenced = (\<lambda>d r. False)\<rparr>"

text \<open>The two \<open>CHECK\<close> constraints of migration 0008: the event types, and a ROLL's two amounts.\<close>

definition event_row_check :: "event_row \<Rightarrow> exn option" where
  "event_row_check r =
     (if \<not> int2 (e_key_version r) then Some DataError
      else if e_event_type r \<notin> {''OPEN'', ''CLOSE'', ''ROLL'', ''SETTLEMENT''} then Some IntegrityError
      else if e_event_type r = ''ROLL'' \<and>
        (e_open_debit_usd_ciphertext r = None \<or> e_close_credit_usd_ciphertext r = None)
      then Some IntegrityError
      else None)"

definition events_table :: "event_row table" where
  "events_table = \<lparr>
     tb_rows = t_events, tb_put = (\<lambda>xs. t_events_update (\<lambda>_. xs)),
     tb_grants = [SELECT, INSERT, DELETE], tb_policy = UserIsolation, tb_owner = e_user_id,
     tb_clash = (\<lambda>q r. e_id q = e_id r), tb_check = event_row_check,
     tb_parents = (\<lambda>d r. has_user d (e_user_id r) \<and> has_position d (e_position_id r)),
     tb_referenced = (\<lambda>d r. False)\<rparr>"

definition schwab_connections_table :: "connection_row table" where
  "schwab_connections_table = \<lparr>
     tb_rows = t_schwab_connections, tb_put = (\<lambda>xs. t_schwab_connections_update (\<lambda>_. xs)),
     tb_grants = [SELECT, INSERT, UPDATE, DELETE], tb_policy = UserIsolation, tb_owner = c_user_id,
     tb_clash = (\<lambda>q r. c_user_id q = c_user_id r),
     tb_check = (\<lambda>r. typed (int2 (c_key_version r))),
     tb_parents = (\<lambda>d r. has_user d (c_user_id r)), tb_referenced = (\<lambda>d r. False)\<rparr>"

definition broker_transactions_table :: "broker_tx_row table" where
  "broker_transactions_table = \<lparr>
     tb_rows = t_broker_transactions, tb_put = (\<lambda>xs. t_broker_transactions_update (\<lambda>_. xs)),
     tb_grants = [SELECT, INSERT, DELETE], tb_policy = UserIsolation, tb_owner = b_user_id,
     tb_clash = (\<lambda>q r. b_user_id q = b_user_id r \<and> b_activity_id q = b_activity_id r),
     tb_check = (\<lambda>r. typed (int2 (b_key_version r))),
     tb_parents = (\<lambda>d r. has_user d (b_user_id r)), tb_referenced = (\<lambda>d r. False)\<rparr>"

definition sync_run_row_check :: "sync_run_row \<Rightarrow> exn option" where
  "sync_run_row_check r =
     (if \<not> pred_option int4 (r_fills_landed r) \<or> \<not> pred_option int4 (r_broker_transactions_landed r)
      then Some DataError
      else if r_trigger r \<notin> {''scheduled'', ''manual''} \<or> r_status r \<notin> {''succeeded'', ''failed''}
      then Some IntegrityError
      else None)"

definition sync_runs_table :: "sync_run_row table" where
  "sync_runs_table = \<lparr>
     tb_rows = t_sync_runs, tb_put = (\<lambda>xs. t_sync_runs_update (\<lambda>_. xs)),
     tb_grants = [SELECT, INSERT, DELETE], tb_policy = UserIsolation, tb_owner = r_user_id,
     tb_clash = (\<lambda>q r. r_id q = r_id r), tb_check = sync_run_row_check,
     tb_parents = (\<lambda>d r. has_user d (r_user_id r)), tb_referenced = (\<lambda>d r. False)\<rparr>"

text \<open>Procrastinate's own table, with the grants of migration 0013 and no policy.\<close>

definition procrastinate_jobs_table :: "job_row table" where
  "procrastinate_jobs_table = \<lparr>
     tb_rows = t_procrastinate_jobs, tb_put = (\<lambda>xs. t_procrastinate_jobs_update (\<lambda>_. xs)),
     tb_grants = [INSERT, SELECT], tb_policy = NoPolicy, tb_owner = (\<lambda>_. 0),
     tb_clash = (\<lambda>q r. False), tb_check = (\<lambda>r. None), tb_parents = (\<lambda>d r. True),
     tb_referenced = (\<lambda>d r. False)\<rparr>"

text \<open>\<open>login_lookup(p_username)\<close>, a \<open>SECURITY DEFINER\<close> function owned by a superuser.\<close>

definition login_lookup :: "string \<Rightarrow> (uuid \<times> string option) list op" where
  "login_lookup name = (\<lambda>s. if s_aborted s then (Inl PendingRollback, s)
     else (Inr (map (\<lambda>r. (u_id r, u_password_hash r))
                  (filter (\<lambda>r. u_username r = name) (t_users (s_db s)))), s))"

end
