(* ===== verification/Table_Laws.thy ===== *)
theory Table_Laws
  imports Tables
begin

text \<open>
  Two interfaces. session_relation: a reflexive and transitive relation between the session
  before and after, kept by an operation when its parts keep it. owned_table: a table under
  the \<open>user_isolation\<close> policy; what a user's session reads and writes in it, and that it leaves every
  other user's rows alone. Both are interpreted here, the second on all eight isolated tables.
\<close>

section \<open>What operations keep\<close>

definition keeps :: "(sess \<Rightarrow> sess \<Rightarrow> bool) \<Rightarrow> 'a op \<Rightarrow> bool" where
  "keeps R m \<longleftrightarrow> (\<forall>s. R s (snd (m s)))"

lemma keepsD: "keeps R m \<Longrightarrow> m s = (x, s') \<Longrightarrow> R s s'"
  by (metis keeps_def snd_conv)

locale session_relation =
  fixes R :: "sess \<Rightarrow> sess \<Rightarrow> bool"
  assumes refl: "R s s"
    and trans: "R s t \<Longrightarrow> R t v \<Longrightarrow> R s v"
begin

lemma keeps_ret: "keeps R (ret x)"
  and keeps_raise: "keeps R (raise e)"
  and keeps_gets: "keeps R (gets g)"
  and keeps_from: "keeps R (op_from r)"
  by (simp_all add: keeps_def refl op_run)

lemma keeps_bind:
  assumes "keeps R m" "\<And>x. keeps R (f x)"
  shows "keeps R (op_bind m f)"
  unfolding keeps_def
proof
  fix s
  obtain r t where m: "m s = (r, t)" by fastforce
  with assms(1) have st: "R s t" by (rule keepsD)
  show "R s (snd (op_bind m f s))"
  proof (cases r)
    case (Inl e)
    with m st show ?thesis by (simp add: op_run)
  next
    case (Inr x)
    have "R t (snd (f x t))" using assms(2) by (simp add: keeps_def)
    with m st Inr show ?thesis by (simp add: op_run trans)
  qed
qed

lemma keeps_seq: "keeps R m \<Longrightarrow> keeps R k \<Longrightarrow> keeps R (op_seq m k)"
  by (simp add: op_seq_def keeps_bind)

lemma keeps_catch:
  assumes "keeps R m" "\<And>e. keeps R (h e)"
  shows "keeps R (op_catch m h)"
  unfolding keeps_def
proof
  fix s
  obtain r t where m: "m s = (r, t)" by fastforce
  with assms(1) have st: "R s t" by (rule keepsD)
  show "R s (snd (op_catch m h s))"
  proof (cases r)
    case (Inl e)
    have "R t (snd (h e t))" using assms(2) by (simp add: keeps_def)
    with m st Inl show ?thesis by (simp add: op_run trans)
  next
    case (Inr x)
    with m st show ?thesis by (simp add: op_run)
  qed
qed

lemma keeps_map: "(\<And>x. x \<in> set xs \<Longrightarrow> keeps R (f x)) \<Longrightarrow> keeps R (op_map f xs)"
proof (induction xs)
  case Nil
  show ?case by (simp add: keeps_ret)
next
  case (Cons x xs)
  then have "keeps R (f x)" "keeps R (op_map f xs)" by simp_all
  then show ?case by (auto intro!: keeps_bind keeps_ret)
qed

lemma keeps_one: "keeps R (one xs)"
  by (auto simp: one_def keeps_ret keeps_raise split: list.split)

lemma keeps_one_or_none: "keeps R (one_or_none xs)"
  by (auto simp: one_or_none_def keeps_ret keeps_raise split: list.split)

lemmas keeps_basic = keeps_ret keeps_raise keeps_gets keeps_from keeps_bind keeps_seq keeps_map
  keeps_one keeps_one_or_none

end

text \<open>
  Inside the caller's transaction: nothing becomes durable, the settings stand, and the role too.
\<close>

definition same_tx :: "sess \<Rightarrow> sess \<Rightarrow> bool" where
  "same_tx s t \<longleftrightarrow> s_committed t = s_committed s \<and> s_role t = s_role s \<and>
     s_user_guc t = s_user_guc s \<and> s_admin_guc t = s_admin_guc s \<and>
     set (s_locks s) \<subseteq> set (s_locks t) \<and> s_draws s \<le> s_draws t"

interpretation tx: session_relation same_tx
  by unfold_locales (auto simp: same_tx_def)

lemma same_tx_fail [simp]: "same_tx s (snd (db_fail e s))"
  by (simp add: same_tx_def db_fail_def)

lemma keeps_tx_stmt: "keeps same_tx (stmt v tb body)"
  by (auto simp: keeps_def stmt_def same_tx_def db_fail_def split: sum.split prod.split)

lemma keeps_tx_statements:
  "keeps same_tx (sel tb P)" "keeps same_tx (ins tb r)"
  "keeps same_tx (ins_on_conflict_do_nothing tb rs)"
  "keeps same_tx (ins_on_conflict_do_update tb r f)"
  "keeps same_tx (upd tb P g)" "keeps same_tx (del tb P)"
  by (simp_all add: sel_def ins_def ins_on_conflict_do_nothing_def ins_on_conflict_do_update_def
      upd_def del_def keeps_tx_stmt)

lemma keeps_tx_lock: "keeps same_tx (advisory_xact_lock k)"
  by (auto simp: keeps_def advisory_xact_lock_def on_live_def same_tx_def)

lemmas keeps_tx = tx.keeps_basic keeps_tx_statements keeps_tx_lock


section \<open>Isolated tables\<close>

text \<open>The rows of the isolated tables that belong to anyone but \<open>u\<close>.\<close>

definition others :: "uuid \<Rightarrow> db \<Rightarrow> db" where
  "others u d = empty_db\<lparr>
     t_user_data_keys := filter (\<lambda>r. dk_user_id r \<noteq> u) (t_user_data_keys d),
     t_fills := filter (\<lambda>r. f_user_id r \<noteq> u) (t_fills d),
     t_positions := filter (\<lambda>r. p_user_id r \<noteq> u) (t_positions d),
     t_legs := filter (\<lambda>r. l_user_id r \<noteq> u) (t_legs d),
     t_events := filter (\<lambda>r. e_user_id r \<noteq> u) (t_events d),
     t_schwab_connections := filter (\<lambda>r. c_user_id r \<noteq> u) (t_schwab_connections d),
     t_broker_transactions := filter (\<lambda>r. b_user_id r \<noteq> u) (t_broker_transactions d),
     t_sync_runs := filter (\<lambda>r. r_user_id r \<noteq> u) (t_sync_runs d)\<rparr>"

text \<open>A session of the application role working for \<open>u\<close>, its transaction alive.\<close>

definition as_user :: "uuid \<Rightarrow> sess \<Rightarrow> bool" where
  "as_user u s \<longleftrightarrow> s_role s = App \<and> \<not> s_aborted s \<and> s_user_guc s = Some (uuid_str u)"

text \<open>What a session of \<open>u\<close> may do to the isolated tables: nothing outside \<open>u\<close>'s own rows.\<close>

definition confined :: "uuid \<Rightarrow> sess \<Rightarrow> sess \<Rightarrow> bool" where
  "confined u s t \<longleftrightarrow>
     (s_role s = App \<and> s_user_guc s = Some (uuid_str u) \<longrightarrow>
      s_role t = App \<and> s_user_guc t = Some (uuid_str u) \<and>
      others u (s_db t) = others u (s_db s))"

interpretation conf: session_relation "confined u" for u
  by unfold_locales (auto simp: confined_def)

lemma setting_uuid_str [simp]: "setting_uuid (Some (uuid_str u)) = Inr (Some u)"
  by (simp add: setting_uuid_def)

locale owned_table =
  fixes tb :: "'r table"
  assumes rows_put [simp]: "tb_rows tb (tb_put tb xs d) = xs"
    and put_put [simp]: "tb_put tb xs (tb_put tb ys d) = tb_put tb xs d"
    and put_rows [simp]: "tb_put tb (tb_rows tb d) d = d"
    and isolated [simp]: "tb_policy tb = UserIsolation"
    and put_others: "filter (\<lambda>r. tb_owner tb r \<noteq> u) xs = filter (\<lambda>r. tb_owner tb r \<noteq> u) (tb_rows tb d)
      \<Longrightarrow> others u (tb_put tb xs d) = others u d"
begin

lemma policy_user_as: "s_role s = App \<Longrightarrow> s_user_guc s = Some (uuid_str u) \<Longrightarrow>
   policy_user tb s = Inr (Some u)"
  by (simp add: policy_user_def)

lemma visible_as: "s_role s = App \<Longrightarrow> row_visible tb s (Some u) r \<longleftrightarrow> tb_owner tb r = u"
  by (auto simp: row_visible_def)

lemma writable_as: "s_role s = App \<Longrightarrow> row_writable tb s (Some u) r \<longleftrightarrow> tb_owner tb r = u"
  by (simp add: row_writable_def visible_as)

text \<open>A statement of the user's session, its grant given.\<close>

lemma stmt_as:
  assumes "as_user u s" "v \<in> set (tb_grants tb)"
  shows "stmt v tb body s = (case body s (Some u) (s_db s) of
     Inl e \<Rightarrow> (Inl e, s\<lparr>s_aborted := True\<rparr>) | Inr (x, d) \<Rightarrow> (Inr x, s\<lparr>s_db := d\<rparr>))"
  using assms by (auto simp: stmt_def as_user_def policy_user_as db_fail_def split: sum.split)

lemma sel_as:
  assumes "as_user u s" "SELECT \<in> set (tb_grants tb)"
  shows "sel tb P s = (Inr (filter (\<lambda>r. tb_owner tb r = u \<and> P r) (tb_rows tb (s_db s))), s)"
  using assms by (simp add: sel_def stmt_as visible_as as_user_def cong: filter_cong)

lemma ins_as:
  assumes "as_user u s" "INSERT \<in> set (tb_grants tb)" "tb_owner tb r = u" "tb_check tb r = None"
    "\<not> list_ex (\<lambda>q. tb_clash tb q r) (tb_rows tb (s_db s))" "tb_parents tb (s_db s) r"
  shows "ins tb r s = (Inr (), s\<lparr>s_db := tb_put tb (tb_rows tb (s_db s) @ [r]) (s_db s)\<rparr>)"
  using assms by (simp add: ins_def stmt_as insert_row_def writable_as as_user_def)

lemma upd_as:
  assumes "as_user u s" "UPDATE \<in> set (tb_grants tb)" "\<And>q. tb_owner tb (f q) = tb_owner tb q"
  shows "upd tb P f s = (Inr (length (filter (\<lambda>r. tb_owner tb r = u \<and> P r) (tb_rows tb (s_db s)))),
    s\<lparr>s_db := tb_put tb (map (\<lambda>r. if tb_owner tb r = u \<and> P r then f r else r) (tb_rows tb (s_db s)))
      (s_db s)\<rparr>)"
  using assms by (simp add: upd_def stmt_as visible_as writable_as as_user_def Let_def list_all_iff
      cong: filter_cong)

lemma del_as:
  assumes "as_user u s" "DELETE \<in> set (tb_grants tb)" "\<And>d r. \<not> tb_referenced tb d r"
  shows "del tb P s = (Inr (length (filter (\<lambda>r. tb_owner tb r = u \<and> P r) (tb_rows tb (s_db s)))),
    s\<lparr>s_db := tb_put tb (filter (\<lambda>r. \<not> (tb_owner tb r = u \<and> P r)) (tb_rows tb (s_db s))) (s_db s)\<rparr>)"
  using assms by (simp add: del_def stmt_as visible_as as_user_def Let_def list_ex_iff
      cong: filter_cong)

text \<open>An upsert on a table keyed by its owner: the owner's row is replaced, or a first one appended.\<close>

lemma upsert_as:
  assumes "as_user u s" "INSERT \<in> set (tb_grants tb)" "UPDATE \<in> set (tb_grants tb)" "tb_owner tb r = u"
    "\<And>q. tb_clash tb q r \<longleftrightarrow> tb_owner tb q = u"
  shows "ins_on_conflict_do_update tb r f s =
    (case tb_check tb r of Some x \<Rightarrow> (Inl x, s\<lparr>s_aborted := True\<rparr>)
     | None \<Rightarrow>
        if list_ex (\<lambda>q. tb_owner tb q = u) (tb_rows tb (s_db s))
        then (Inr (), s\<lparr>s_db := tb_put tb (map (\<lambda>q. if tb_owner tb q = u then f q else q)
               (tb_rows tb (s_db s))) (s_db s)\<rparr>)
        else if tb_parents tb (s_db s) r
        then (Inr (), s\<lparr>s_db := tb_put tb (tb_rows tb (s_db s) @ [r]) (s_db s)\<rparr>)
        else (Inl IntegrityError, s\<lparr>s_aborted := True\<rparr>))"
  using assms
  by (simp add: ins_on_conflict_do_update_def stmt_as insert_row_def writable_as visible_as as_user_def
      list_all_iff split: option.split)

lemma insert_row_others:
  assumes "\<forall>r. w r \<longrightarrow> tb_owner tb r = u" "insert_row tb w r d = Inr (x, d')"
  shows "others u d' = others u d"
  using assms by (auto simp: insert_row_def intro!: put_others split: if_splits option.splits)

lemma offer_rows_others:
  assumes "\<forall>r. w r \<longrightarrow> tb_owner tb r = u"
  shows "offer_rows tb w rs d = Inr (ls, d') \<Longrightarrow> others u d' = others u d"
proof (induction rs arbitrary: d ls)
  case (Cons r rs)
  have "others u (tb_put tb (tb_rows tb d @ [r]) d) = others u d" if "w r"
    using assms that by (intro put_others) auto
  with Cons show ?case
    by (auto split: if_splits option.splits sum.splits simp: map_sum_def)
qed simp

text \<open>The isolation each statement keeps, whatever its arguments.\<close>

lemma confined_stmt:
  assumes "\<And>s d x d'. s_role s = App \<Longrightarrow> body s (Some u) d = Inr (x, d') \<Longrightarrow> others u d' = others u d"
  shows "keeps (confined u) (stmt v tb body)"
  using assms
  by (auto simp: keeps_def confined_def stmt_def db_fail_def policy_user_as
      split: sum.split prod.split)

lemma confined_sel: "keeps (confined u) (sel tb P)"
  unfolding sel_def by (rule confined_stmt) simp

lemma confined_ins: "keeps (confined u) (ins tb r)"
  unfolding ins_def by (rule confined_stmt) (auto simp: writable_as elim: insert_row_others [rotated])

lemma confined_ins_nothing: "keeps (confined u) (ins_on_conflict_do_nothing tb rs)"
  unfolding ins_on_conflict_do_nothing_def
  by (rule confined_stmt) (auto simp: writable_as elim: offer_rows_others [rotated])

lemma filter_map_if_others:
  assumes "\<forall>r \<in> set xs. hit r \<longrightarrow> tb_owner tb r = u \<and> tb_owner tb (f r) = u"
  shows "filter (\<lambda>r. tb_owner tb r \<noteq> u) (map (\<lambda>r. if hit r then f r else r) xs) =
    filter (\<lambda>r. tb_owner tb r \<noteq> u) xs"
  using assms by (induction xs) auto

lemma confined_upd: "keeps (confined u) (upd tb P f)"
  unfolding upd_def
  by (rule confined_stmt)
    (auto simp: Let_def visible_as writable_as list_all_iff split: if_splits
      intro!: put_others filter_map_if_others)

lemma confined_del: "keeps (confined u) (del tb P)"
  unfolding del_def
  by (rule confined_stmt)
    (auto simp: Let_def visible_as split: if_splits intro!: put_others intro: filter_cong)

lemma confined_upsert:
  assumes "\<And>q. tb_owner tb (f q) = tb_owner tb q"
  shows "keeps (confined u) (ins_on_conflict_do_update tb r f)"
  unfolding ins_on_conflict_do_update_def
  by (rule confined_stmt)
    (use assms in \<open>auto simp: visible_as writable_as list_all_iff split: if_splits option.splits
      intro!: put_others filter_map_if_others elim: insert_row_others [rotated]\<close>)

lemmas confined_statements =
  confined_sel confined_ins confined_ins_nothing confined_upd confined_del

end

interpretation keys_tb: owned_table user_data_keys_table
  by unfold_locales (simp_all add: user_data_keys_table_def others_def)

interpretation fills_tb: owned_table fills_table
  by unfold_locales (simp_all add: fills_table_def others_def)

interpretation positions_tb: owned_table positions_table
  by unfold_locales (simp_all add: positions_table_def others_def)

interpretation legs_tb: owned_table legs_table
  by unfold_locales (simp_all add: legs_table_def others_def)

interpretation events_tb: owned_table events_table
  by unfold_locales (simp_all add: events_table_def others_def)

interpretation connections_tb: owned_table schwab_connections_table
  by unfold_locales (simp_all add: schwab_connections_table_def others_def)

interpretation broker_tb: owned_table broker_transactions_table
  by unfold_locales (simp_all add: broker_transactions_table_def others_def)

interpretation runs_tb: owned_table sync_runs_table
  by unfold_locales (simp_all add: sync_runs_table_def others_def)

lemma confined_lock: "keeps (confined u) (advisory_xact_lock k)"
  by (auto simp: keeps_def advisory_xact_lock_def on_live_def confined_def)

lemma keeps_case_prod [keeps_intros]:
  "(\<And>a b. keeps R (f a b)) \<Longrightarrow> keeps R (case p of (a, b) \<Rightarrow> f a b)"
  by (cases p) simp

lemma keeps_case_option [keeps_intros]:
  "(x = None \<Longrightarrow> keeps R m) \<Longrightarrow> (\<And>a. x = Some a \<Longrightarrow> keeps R (f a)) \<Longrightarrow>
   keeps R (case x of None \<Rightarrow> m | Some a \<Rightarrow> f a)"
  by (cases x) simp_all

lemma keeps_if [keeps_intros]:
  "(b \<Longrightarrow> keeps R m) \<Longrightarrow> (\<not> b \<Longrightarrow> keeps R k) \<Longrightarrow> keeps R (if b then m else k)"
  by simp

lemmas keeps_conf = conf.keeps_basic confined_lock
  keys_tb.confined_statements fills_tb.confined_statements positions_tb.confined_statements
  legs_tb.confined_statements events_tb.confined_statements
  connections_tb.confined_statements broker_tb.confined_statements runs_tb.confined_statements

declare keeps_tx [keeps_intros] keeps_conf [keeps_intros]

end
