(* ===== verification/Py_Json.thy ===== *)
theory Py_Json
  imports Morai_Prelude
begin

text \<open>
  JSON values as the program passes them around (Pydantic's \<open>JsonValue\<close>) and \<open>json.dumps\<close> with its
  default settings: separators \<open>", "\<close> and \<open>": "\<close>, everything outside printable ASCII escaped. A float
  is carried as the text Python prints for it. Objects keep their insertion order.
\<close>

datatype json =
    JNull
  | JBool bool
  | JInt int
  | JFloat string
  | JStr string
  | JArr "json list"
  | JObj "(string \<times> json) list"

text \<open>The code points of a UTF-8 text.\<close>

fun utf8_points :: "nat list \<Rightarrow> nat list" where
  "utf8_points [] = []"
| "utf8_points (b # bs) =
     (if b < 128 then b # utf8_points bs
      else if b < 224 then
        (case bs of c # r \<Rightarrow> ((b - 192) * 64 + (c - 128)) # utf8_points r | _ \<Rightarrow> [])
      else if b < 240 then
        (case bs of c # d # r \<Rightarrow> ((b - 224) * 4096 + (c - 128) * 64 + (d - 128)) # utf8_points r
         | _ \<Rightarrow> [])
      else
        (case bs of c # d # f # r \<Rightarrow>
           ((b - 240) * 262144 + (c - 128) * 4096 + (d - 128) * 64 + (f - 128)) # utf8_points r
         | _ \<Rightarrow> []))"

definition hex4 :: "nat \<Rightarrow> string" where
  "hex4 n = map (\<lambda>i. let d = n div 16 ^ i mod 16
     in if d < 10 then digit_char d else char_of (87 + d)) [3, 2, 1, 0]"

definition esc_u :: "nat \<Rightarrow> string" where
  "esc_u n = CHR 0x5C # CHR ''u'' # hex4 n"

definition esc_point :: "nat \<Rightarrow> string" where
  "esc_point n =
     (if n = 34 then [CHR 0x5C, CHR 0x22]
      else if n = 92 then [CHR 0x5C, CHR 0x5C]
      else if n = 10 then [CHR 0x5C, CHR ''n'']
      else if n = 13 then [CHR 0x5C, CHR ''r'']
      else if n = 9 then [CHR 0x5C, CHR ''t'']
      else if n = 12 then [CHR 0x5C, CHR ''f'']
      else if n = 8 then [CHR 0x5C, CHR ''b'']
      else if 32 \<le> n \<and> n \<le> 126 then [char_of n]
      else if n < 65536 then esc_u n
      else esc_u (55296 + (n - 65536) div 1024) @ esc_u (56320 + (n - 65536) mod 1024))"

definition json_string :: "string \<Rightarrow> string" where
  "json_string t = CHR 0x22 # concat (map esc_point (utf8_points (map of_char t))) @ [CHR 0x22]"

fun json_dumps :: "json \<Rightarrow> string" where
  "json_dumps JNull = ''null''"
| "json_dumps (JBool b) = (if b then ''true'' else ''false'')"
| "json_dumps (JInt i) = show_int i"
| "json_dumps (JFloat t) = t"
| "json_dumps (JStr t) = json_string t"
| "json_dumps (JArr xs) = ''['' @ join '', '' (map json_dumps xs) @ '']''"
| "json_dumps (JObj kvs) =
     ''{'' @ join '', '' (map (\<lambda>(k, v). json_string k @ '': '' @ json_dumps v) kvs) @ ''}''"

end
