(* ===== verification/Py_Decimal.thy ===== *)
theory Py_Decimal
  imports Complex_Main Morai_Prelude
begin

text \<open>
  Python's \<open>decimal.Decimal\<close>, as far as the ledger uses it: finite values as sign, coefficient and
  exponent; multiplication, addition and negation under the default context (28 digits,
  \<open>ROUND_HALF_EVEN\<close>); \<open>str\<close> and the constructor from a string. It models
  \<open>ledger/fills.py::_encode_decimal\<close> and \<open>_decode_decimal\<close>, \<open>money/units.py::points_to_usd\<close> and
  \<open>money/api_types.py::_parse_decimal_strict\<close>.

  Not carried: infinities and NaNs (pydantic's \<open>Decimal\<close> fields refuse them, and no arithmetic of
  the source makes one), the context's exponent range (\<open>10 ^ 999999\<close>), and the underscores and
  surrounding blanks the constructor tolerates.
\<close>

named_theorems dec_simps \<open>decimal values\<close>


section \<open>Values and context rounding\<close>

datatype pydec = Dec (dsign: bool) (dcoeff: nat) (dexp: int)

definition dec_prec :: nat where
  "dec_prec = 28"

text \<open>Rounding to the context precision, \<open>Decimal._fix\<close>.\<close>

definition dec_fix :: "pydec \<Rightarrow> pydec" where
  "dec_fix d =
     (let n = length (show_nat (dcoeff d))
      in if n \<le> dec_prec then d
         else (let c = div_half_even (dcoeff d) (10 ^ (n - dec_prec));
                   e = dexp d + int (n - dec_prec)
               in if c = 10 ^ dec_prec then Dec (dsign d) (c div 10) (e + 1)
                  else Dec (dsign d) c e))"

definition dec_mul :: "pydec \<Rightarrow> pydec \<Rightarrow> pydec" where
  "dec_mul a b = dec_fix (Dec (dsign a \<noteq> dsign b) (dcoeff a * dcoeff b) (dexp a + dexp b))"

text \<open>The signed coefficient at a smaller exponent.\<close>

definition dec_scaled :: "pydec \<Rightarrow> int \<Rightarrow> int" where
  "dec_scaled d e = (if dsign d then -1 else 1) * int (dcoeff d) * 10 ^ nat (dexp d - e)"

definition dec_add :: "pydec \<Rightarrow> pydec \<Rightarrow> pydec" where
  "dec_add a b =
     (let e = min (dexp a) (dexp b);
          r = dec_scaled a e + dec_scaled b e;
          s = (if r = 0 then dsign a \<and> dsign b else r < 0)
      in dec_fix (Dec s (nat \<bar>r\<bar>) e))"

text \<open>Unary minus: a zero loses its sign.\<close>

definition dec_neg :: "pydec \<Rightarrow> pydec" where
  "dec_neg d = dec_fix (Dec (dcoeff d \<noteq> 0 \<and> \<not> dsign d) (dcoeff d) (dexp d))"

definition dec_is_zero :: "pydec \<Rightarrow> bool" where
  "dec_is_zero d \<longleftrightarrow> dcoeff d = 0"

definition dec_pos :: "pydec \<Rightarrow> bool" where
  "dec_pos d \<longleftrightarrow> dcoeff d \<noteq> 0 \<and> \<not> dsign d"

definition dec_zero :: pydec where
  "dec_zero = Dec False 0 0"

definition dec_of_int :: "int \<Rightarrow> pydec" where
  "dec_of_int i = Dec (i < 0) (nat \<bar>i\<bar>) 0"


section \<open>The rational a decimal stands for\<close>

definition dec_val :: "pydec \<Rightarrow> rat" where
  "dec_val d = (if dsign d then -1 else 1) * of_nat (dcoeff d) * 10 powi dexp d"

lemma dec_val_zero [simp]: "dec_val dec_zero = 0"
  by (simp add: dec_val_def dec_zero_def)

lemma dec_scaled_val:
  assumes "e \<le> dexp d"
  shows "of_int (dec_scaled d e) * (10 powi e) = dec_val d"
proof -
  have "(10::rat) powi dexp d = 10 powi (int (nat (dexp d - e)) + e)" using assms by simp
  also have "\<dots> = 10 ^ nat (dexp d - e) * 10 powi e"
    using assms by (subst power_int_add) (simp_all add: power_int_def)
  finally show ?thesis by (simp add: dec_scaled_def dec_val_def)
qed

lemma dec_fix_id: "dcoeff d < 10 ^ dec_prec \<Longrightarrow> dec_fix d = d"
  using show_nat_length_le [of "dcoeff d" dec_prec] by (simp add: dec_fix_def dec_prec_def)

lemma dec_mul_exact [dec_simps]:
  "dcoeff a * dcoeff b < 10 ^ dec_prec \<Longrightarrow> dec_val (dec_mul a b) = dec_val a * dec_val b"
  by (simp add: dec_mul_def dec_fix_id dec_val_def power_int_add)

lemma dec_neg_exact [dec_simps]:
  "dcoeff d < 10 ^ dec_prec \<Longrightarrow> dec_val (dec_neg d) = - dec_val d"
  by (simp add: dec_neg_def dec_fix_id dec_val_def)

lemma dec_add_exact:
  assumes "nat \<bar>dec_scaled a (min (dexp a) (dexp b)) + dec_scaled b (min (dexp a) (dexp b))\<bar> < 10 ^ dec_prec"
  shows "dec_val (dec_add a b) = dec_val a + dec_val b"
proof -
  let ?e = "min (dexp a) (dexp b)"
  let ?r = "dec_scaled a ?e + dec_scaled b ?e"
  have "dec_val (dec_add a b) = of_int ?r * 10 powi ?e"
    using assms by (auto simp: dec_add_def Let_def dec_fix_id dec_val_def abs_if)
  also have "\<dots> = dec_val a + dec_val b"
    by (simp add: distrib_right dec_scaled_val)
  finally show ?thesis .
qed

lemma dec_pos_val: "dec_pos d \<longleftrightarrow> 0 < dec_val d"
proof -
  have "\<not> (10::rat) powi dexp d < 0" by (simp add: not_less)
  then show ?thesis by (auto simp: dec_pos_def dec_val_def zero_less_mult_iff)
qed

lemma dec_is_zero_val: "dec_is_zero d \<longleftrightarrow> dec_val d = 0"
  by (auto simp: dec_is_zero_def dec_val_def)


section \<open>String form\<close>

text \<open>\<open>Decimal.__str__\<close>: to-scientific-string.\<close>

definition show_exp :: "int \<Rightarrow> string" where
  "show_exp i = (if i < 0 then CHR ''-'' # show_nat (nat (- i)) else CHR ''+'' # show_nat (nat i))"

definition dec_str :: "pydec \<Rightarrow> string" where
  "dec_str d =
     (let digits = show_nat (dcoeff d);
          n = int (length digits);
          leftdigits = dexp d + n;
          dotplace = (if dexp d \<le> 0 \<and> -6 < leftdigits then leftdigits else 1);
          intpart = (if dotplace \<le> 0 then ''0''
                     else if n \<le> dotplace then digits @ replicate (nat (dotplace - n)) (CHR ''0'')
                     else take (nat dotplace) digits);
          fracpart = (if dotplace \<le> 0 then CHR ''.'' # replicate (nat (- dotplace)) (CHR ''0'') @ digits
                      else if n \<le> dotplace then []
                      else CHR ''.'' # drop (nat dotplace) digits);
          ex = (if leftdigits = dotplace then [] else CHR ''E'' # show_exp (leftdigits - dotplace))
      in (if dsign d then ''-'' else []) @ intpart @ fracpart @ ex)"

text \<open>
  The constructor on a string: an optional sign, digits with an optional point, an optional
  exponent. \<open>None\<close> is \<open>InvalidOperation\<close>.
\<close>

definition parse_sign :: "string \<Rightarrow> bool \<times> string" where
  "parse_sign s =
     (case s of
        [] \<Rightarrow> (False, s)
      | c # r \<Rightarrow> if c = CHR ''-'' then (True, r) else if c = CHR ''+'' then (False, r) else (False, s))"

definition parse_frac :: "string \<Rightarrow> string \<times> string" where
  "parse_frac s =
     (case s of
        [] \<Rightarrow> ([], s)
      | c # r \<Rightarrow> if c = CHR ''.'' then (takeWhile is_digit r, dropWhile is_digit r) else ([], s))"

definition parse_exp :: "string \<Rightarrow> int option" where
  "parse_exp s =
     (case s of
        [] \<Rightarrow> Some 0
      | c # r \<Rightarrow>
          if c = CHR ''E'' \<or> c = CHR ''e''
          then (let (neg, ds) = parse_sign r
                in if ds \<noteq> [] \<and> list_all is_digit ds
                   then Some (if neg then - int (read_nat ds) else int (read_nat ds))
                   else None)
          else None)"

definition dec_parse :: "string \<Rightarrow> pydec option" where
  "dec_parse s =
     (let (neg, r) = parse_sign s;
          ip = takeWhile is_digit r;
          (fp, r') = parse_frac (dropWhile is_digit r)
      in if ip @ fp = [] then None
         else (case parse_exp r' of
                 None \<Rightarrow> None
               | Some e \<Rightarrow> Some (Dec neg (read_nat (ip @ fp)) (e - int (length fp)))))"

definition encode_decimal :: "pydec \<Rightarrow> bytes" where
  "encode_decimal v = dec_str v"

definition decode_decimal :: "bytes \<Rightarrow> pydec option" where
  "decode_decimal b = dec_parse b"


subsection \<open>Reading back what was written\<close>

lemma read_nat_append: "read_nat (xs @ ys) = read_nat xs * 10 ^ length ys + read_nat ys"
proof (induction ys rule: rev_induct)
  case (snoc y ys)
  then show ?case by (simp add: append.assoc [symmetric] del: append_assoc)
qed simp

lemma digit_val_0 [simp]: "digit_val (CHR ''0'') = 0"
  by (simp add: digit_val_def)

lemma read_nat_zeros [simp]: "read_nat (replicate k (CHR ''0'')) = 0"
  by (induction k) (simp_all add: read_nat_def)

lemma read_nat_zero_Cons [simp]: "read_nat (CHR ''0'' # ds) = read_nat ds"
  by (simp add: read_nat_def)

lemma read_nat_zeros_append [simp]: "read_nat (replicate k (CHR ''0'') @ ys) = read_nat ys"
  by (simp add: read_nat_append)

lemma digit_facts [simp]:
  "is_digit (CHR ''0'')" "\<not> is_digit (CHR ''.'')" "\<not> is_digit (CHR ''E'')" "\<not> is_digit (CHR ''+'')"
  by (simp_all add: is_digit_def)

lemma takeWhile_digits:
  "\<forall>c \<in> set ds. is_digit c \<Longrightarrow> r = [] \<or> \<not> is_digit (hd r) \<Longrightarrow>
   takeWhile is_digit (ds @ r) = ds \<and> dropWhile is_digit (ds @ r) = r"
  by (cases r) (auto simp: takeWhile_append dropWhile_append)

lemma parse_exp_show [simp]: "parse_exp (CHR ''E'' # show_exp i) = Some i"
proof -
  have d: "list_all is_digit (show_nat n)" for n
    using show_nat_digits by (simp add: list_all_iff)
  show ?thesis by (auto simp: parse_exp_def show_exp_def parse_sign_def d)
qed

lemma parse_exp_Nil [simp]: "parse_exp [] = Some 0"
  by (simp add: parse_exp_def)

text \<open>A number text in parts: integer digits, an optional point with digits, an optional exponent.\<close>

lemma dec_parse_parts:
  assumes ip: "\<forall>c \<in> set ip. is_digit c" "ip \<noteq> []"
    and fp: "\<forall>c \<in> set fp. is_digit c"
    and fr: "fr = (if fp = [] then [] else CHR ''.'' # fp)"
    and ex: "ex = [] \<and> e = 0 \<or> ex = CHR ''E'' # show_exp e"
  shows "dec_parse ((if neg then ''-'' else []) @ ip @ fr @ ex) =
    Some (Dec neg (read_nat (ip @ fp)) (e - int (length fp)))"
proof -
  obtain c ip' where c: "ip = c # ip'" using ip(2) by (cases ip) auto
  with ip(1) have "is_digit c" by simp
  then have "c \<noteq> CHR ''-''" and "c \<noteq> CHR ''+''" by auto
  then have s: "parse_sign ((if neg then ''-'' else []) @ ip @ fr @ ex) = (neg, ip @ fr @ ex)"
    by (auto simp: parse_sign_def c)
  have "fr @ ex = [] \<or> \<not> is_digit (hd (fr @ ex))" using fr ex by auto
  then have i: "takeWhile is_digit (ip @ fr @ ex) = ip" "dropWhile is_digit (ip @ fr @ ex) = fr @ ex"
    using takeWhile_digits [OF ip(1)] by auto
  have exd: "ex = [] \<or> \<not> is_digit (hd ex)" using ex by auto
  have f: "parse_frac (fr @ ex) = (fp, ex)"
  proof (cases "fp = []")
    case True
    then show ?thesis using fr ex by (auto simp: parse_frac_def)
  next
    case False
    then show ?thesis using fr takeWhile_digits [OF fp exd] by (simp add: parse_frac_def)
  qed
  have x: "parse_exp ex = Some e" using ex by auto
  show ?thesis using ip(2) by (simp add: dec_parse_def s i f x)
qed

theorem dec_parse_str: "dec_parse (dec_str d) = Some d"
proof -
  define digits where "digits = show_nat (dcoeff d)"
  define n where "n = int (length digits)"
  define left where "left = dexp d + n"
  define dot where "dot = (if dexp d \<le> 0 \<and> -6 < left then left else 1)"
  define ip where "ip = (if dot \<le> 0 then ''0''
      else if n \<le> dot then digits @ replicate (nat (dot - n)) (CHR ''0'') else take (nat dot) digits)"
  define fp where "fp = (if dot \<le> 0 then replicate (nat (- dot)) (CHR ''0'') @ digits
      else if n \<le> dot then [] else drop (nat dot) digits)"
  define fr where "fr = (if dot \<le> 0 then CHR ''.'' # replicate (nat (- dot)) (CHR ''0'') @ digits
      else if n \<le> dot then [] else CHR ''.'' # drop (nat dot) digits)"
  define ex where "ex = (if left = dot then [] else CHR ''E'' # show_exp (left - dot))"
  have dg: "\<forall>c \<in> set digits. is_digit c" and dne: "digits \<noteq> []"
    using show_nat_digits by (auto simp: digits_def)
  have n1: "1 \<le> n" using dne by (cases digits) (auto simp: n_def)
  have str: "dec_str d = (if dsign d then ''-'' else []) @ ip @ fr @ ex"
    by (simp add: dec_str_def Let_def ip_def fr_def ex_def dot_def left_def n_def digits_def)
  have ipd: "\<forall>c \<in> set ip. is_digit c" "ip \<noteq> []"
    using dg dne by (auto simp: ip_def dest: in_set_takeD)
  have fpd: "\<forall>c \<in> set fp. is_digit c"
    using dg by (auto simp: fp_def dest: in_set_dropD)
  have frd: "fr = (if fp = [] then [] else CHR ''.'' # fp)"
    using dne by (auto simp: fr_def fp_def n_def)
  have exd: "ex = [] \<and> left - dot = 0 \<or> ex = CHR ''E'' # show_exp (left - dot)"
    by (auto simp: ex_def)
  have parsed: "dec_parse (dec_str d) = Some (Dec (dsign d) (read_nat (ip @ fp)) (left - dot - int (length fp)))"
    unfolding str by (rule dec_parse_parts [OF ipd fpd frd exd])
  have dot_le: "dot \<le> n" using n1 by (auto simp: dot_def left_def)
  have "read_nat (ip @ fp) = dcoeff d \<and> left - dot - int (length fp) = dexp d"
  proof (cases "dot \<le> 0")
    case True
    then show ?thesis
      by (simp add: ip_def fp_def read_nat_append) (simp add: digits_def left_def n_def)
  next
    case False
    with dot_le show ?thesis
      by (auto simp: ip_def fp_def digits_def [symmetric] left_def n_def) (simp_all add: digits_def)
  qed
  then show ?thesis by (simp add: parsed)
qed

lemma decode_encode_decimal [simp]: "decode_decimal (encode_decimal v) = Some v"
  by (simp add: encode_decimal_def decode_decimal_def dec_parse_str)

end
