(* ===== verification/Envelope.thy ===== *)
theory Envelope
  imports Table_Laws Py_Json Py_Decimal
begin

text \<open>
  \<open>crypto/envelope.py\<close>, and the data-key lookups of the write and read paths that stand on it.

  Everything outside the repository is a field of env: AES-256-GCM of \<open>cryptography\<close>,
  SHA-256, the entropy source (indexed by the number of draws so far), \<open>uuid4\<close> and
  \<open>gen_random_uuid()\<close>, Postgres' \<open>hashtext\<close>, Pydantic's JSON reader and its lax conversions to
  \<open>int\<close>, \<open>Decimal\<close> and \<open>datetime\<close>, Argon2 and the master key of
  the settings. \<open>AESGCM\<close> refuses a key of a wrong length; data keys and the master key are 32
  bytes here, so that refusal is not carried.
\<close>

record env =
  aes_enc :: "bytes \<Rightarrow> bytes \<Rightarrow> bytes \<Rightarrow> bytes option \<Rightarrow> bytes"
  aes_dec :: "bytes \<Rightarrow> bytes \<Rightarrow> bytes \<Rightarrow> bytes option \<Rightarrow> bytes option"
  sha256_hex :: "bytes \<Rightarrow> string"
  urandom :: "nat \<Rightarrow> nat \<Rightarrow> bytes"
  gen_uuid :: "nat \<Rightarrow> uuid"
  hashtext :: "string \<Rightarrow> int"
  validate_json :: "bytes \<Rightarrow> json option"
  parse_int :: "json \<Rightarrow> int option"
  parse_decimal :: "json \<Rightarrow> pydec option"
  parse_datetime :: "json \<Rightarrow> datetime option"
  argon2_hash :: "nat \<Rightarrow> string \<Rightarrow> string"
  argon2_verify :: "string \<Rightarrow> string \<Rightarrow> bool"
  argon2_needs_rehash :: "string \<Rightarrow> bool"
  master_key_bytes :: bytes

text \<open>What the library promises: decryption inverts encryption, and refuses all else.\<close>

definition aead_correct :: "env \<Rightarrow> bool" where
  "aead_correct e \<longleftrightarrow> (\<forall>k n p a. aes_dec e k n (aes_enc e k n p a) a = Some p)"

definition aead_binding :: "env \<Rightarrow> bool" where
  "aead_binding e \<longleftrightarrow> (\<forall>k n p a k' n' a'.
     aes_dec e k' n' (aes_enc e k n p a) a' \<noteq> None \<longrightarrow> k' = k \<and> n' = n \<and> a' = a)"

lemma aead_correctD: "aead_correct e \<Longrightarrow> aes_dec e k n (aes_enc e k n p a) a = Some p"
  by (simp add: aead_correct_def)

lemma aead_bindingD:
  "aead_binding e \<Longrightarrow> k' \<noteq> k \<or> n' \<noteq> n \<or> a' \<noteq> a \<Longrightarrow> aes_dec e k' n' (aes_enc e k n p a) a' = None"
  unfolding aead_binding_def by blast


section \<open>Entropy\<close>

definition draw :: "env \<Rightarrow> nat \<Rightarrow> bytes op" where
  "draw e n = (\<lambda>s. (Inr (urandom e (s_draws s) n), s\<lparr>s_draws := Suc (s_draws s)\<rparr>))"

definition draw_uuid :: "env \<Rightarrow> uuid op" where
  "draw_uuid e = (\<lambda>s. (Inr (gen_uuid e (s_draws s)), s\<lparr>s_draws := Suc (s_draws s)\<rparr>))"


section \<open>The five functions of the envelope\<close>

definition generate_dek :: "env \<Rightarrow> bytes op" where
  "generate_dek e = draw e (256 div 8)"

definition wrap_dek :: "env \<Rightarrow> bytes \<Rightarrow> bytes \<Rightarrow> (bytes \<times> bytes) op" where
  "wrap_dek e dek kek = op_bind (draw e 12) (\<lambda>nonce. ret (aes_enc e kek nonce dek None, nonce))"

definition unwrap_dek :: "env \<Rightarrow> bytes \<Rightarrow> bytes \<Rightarrow> bytes \<Rightarrow> bytes op" where
  "unwrap_dek e wrapped_dek wrap_nonce kek =
     (case aes_dec e kek wrap_nonce wrapped_dek None of None \<Rightarrow> raise InvalidTag | Some dek \<Rightarrow> ret dek)"

definition encrypt_field :: "env \<Rightarrow> bytes \<Rightarrow> bytes \<Rightarrow> bytes \<Rightarrow> (bytes \<times> bytes) op" where
  "encrypt_field e plaintext dek associated_data =
     op_bind (draw e 12) (\<lambda>nonce. ret (aes_enc e dek nonce plaintext (Some associated_data), nonce))"

definition decrypt_field :: "env \<Rightarrow> bytes \<Rightarrow> bytes \<Rightarrow> bytes \<Rightarrow> bytes \<Rightarrow> bytes op" where
  "decrypt_field e ciphertext nonce dek associated_data =
     (case aes_dec e dek nonce ciphertext (Some associated_data) of
        None \<Rightarrow> raise InvalidTag | Some p \<Rightarrow> ret p)"


section \<open>Data keys\<close>

text \<open>\<open>provision_data_key\<close>: a fresh key, wrapped, as version 1.\<close>

definition provision_data_key :: "env \<Rightarrow> uuid \<Rightarrow> unit op" where
  "provision_data_key e user_id =
     op_bind (generate_dek e) (\<lambda>dek.
     op_bind (wrap_dek e dek (master_key_bytes e)) (\<lambda>(wrapped_dek, wrap_nonce).
     ins user_data_keys_table \<lparr>dk_user_id = user_id, dk_key_version = 1,
       dk_wrapped_dek = wrapped_dek, dk_wrap_nonce = wrap_nonce\<rparr>))"

text \<open>\<open>ORDER BY key_version DESC LIMIT 1\<close>: the first row of the highest version.\<close>

definition latest_version :: "data_key_row list \<Rightarrow> data_key_row list" where
  "latest_version rows =
     take 1 (filter (\<lambda>r. list_all (\<lambda>q. dk_key_version q \<le> dk_key_version r) rows) rows)"

definition current_dek :: "env \<Rightarrow> uuid \<Rightarrow> (bytes \<times> int) op" where
  "current_dek e user_id =
     op_bind (sel user_data_keys_table (\<lambda>r. dk_user_id r = user_id)) (\<lambda>rows.
     op_bind (one (latest_version rows)) (\<lambda>row.
     op_bind (unwrap_dek e (dk_wrapped_dek row) (dk_wrap_nonce row) (master_key_bytes e)) (\<lambda>dek.
     ret (dek, dk_key_version row))))"

text \<open>The key of one version: the lookup of the read paths, \<open>missing\<close> being what each raises.\<close>

definition dek_for_version :: "env \<Rightarrow> exn \<Rightarrow> uuid \<Rightarrow> int \<Rightarrow> bytes op" where
  "dek_for_version e missing user_id key_version =
     op_bind (sel user_data_keys_table
       (\<lambda>r. dk_user_id r = user_id \<and> dk_key_version r = key_version)) (\<lambda>rows.
     op_bind (one_or_none rows) (\<lambda>key_row.
     (case key_row of None \<Rightarrow> raise missing
      | Some r \<Rightarrow> unwrap_dek e (dk_wrapped_dek r) (dk_wrap_nonce r) (master_key_bytes e))))"

text \<open>\<open>dek_cache\<close>: one lookup per version.\<close>

definition cached_dek ::
    "env \<Rightarrow> exn \<Rightarrow> uuid \<Rightarrow> (int \<Rightarrow> bytes option) \<Rightarrow> int \<Rightarrow> (bytes \<times> (int \<Rightarrow> bytes option)) op" where
  "cached_dek e missing user_id dek_cache key_version =
     (case dek_cache key_version of
        Some dek \<Rightarrow> ret (dek, dek_cache)
      | None \<Rightarrow> op_bind (dek_for_version e missing user_id key_version)
          (\<lambda>dek. ret (dek, dek_cache(key_version := Some dek))))"


section \<open>What they keep\<close>

lemma keeps_draw [keeps_intros]:
  "keeps same_tx (draw e n)" "keeps (confined u) (draw e n)"
  "keeps same_tx (draw_uuid e)" "keeps (confined u) (draw_uuid e)"
  by (simp_all add: keeps_def draw_def draw_uuid_def same_tx_def confined_def)

lemma keeps_envelope [keeps_intros]:
  "keeps same_tx (generate_dek e)" "keeps (confined u) (generate_dek e)"
  "keeps same_tx (wrap_dek e dek kek)" "keeps (confined u) (wrap_dek e dek kek)"
  "keeps same_tx (unwrap_dek e w n kek)" "keeps (confined u) (unwrap_dek e w n kek)"
  "keeps same_tx (encrypt_field e p dek a)" "keeps (confined u) (encrypt_field e p dek a)"
  "keeps same_tx (decrypt_field e c n dek a)" "keeps (confined u) (decrypt_field e c n dek a)"
  unfolding generate_dek_def wrap_dek_def unwrap_dek_def encrypt_field_def decrypt_field_def
  by (intro keeps_intros)+

lemma keeps_keys [keeps_intros]:
  "keeps same_tx (provision_data_key e v)" "keeps (confined u) (provision_data_key e v)"
  "keeps same_tx (current_dek e v)" "keeps (confined u) (current_dek e v)"
  "keeps same_tx (dek_for_version e x v k)" "keeps (confined u) (dek_for_version e x v k)"
  "keeps same_tx (cached_dek e x v c k)" "keeps (confined u) (cached_dek e x v c k)"
  unfolding provision_data_key_def current_dek_def dek_for_version_def cached_dek_def
  by (intro keeps_intros)+


section \<open>Looking a key up\<close>

definition keys_distinct :: "db \<Rightarrow> bool" where
  "keys_distinct d \<longleftrightarrow> distinct (map (\<lambda>r. (dk_user_id r, dk_key_version r)) (t_user_data_keys d))"

definition key_rows :: "db \<Rightarrow> uuid \<Rightarrow> data_key_row list" where
  "key_rows d u = filter (\<lambda>r. dk_user_id r = u) (t_user_data_keys d)"

definition unwrapped :: "env \<Rightarrow> data_key_row \<Rightarrow> bytes option" where
  "unwrapped e r = aes_dec e (master_key_bytes e) (dk_wrap_nonce r) (dk_wrapped_dek r) None"

text \<open>The data key of a user's version, as the stored row and the master key determine it.\<close>

definition dek_in :: "env \<Rightarrow> db \<Rightarrow> uuid \<Rightarrow> int \<Rightarrow> bytes option" where
  "dek_in e d u v =
     (case filter (\<lambda>r. dk_key_version r = v) (key_rows d u) of [r] \<Rightarrow> unwrapped e r | _ \<Rightarrow> None)"

lemma sel_keys_as:
  assumes "as_user u s"
  shows "sel user_data_keys_table P s = (Inr (filter P (key_rows (s_db s) u)), s)"
proof -
  have "SELECT \<in> set (tb_grants user_data_keys_table)" by (simp add: user_data_keys_table_def)
  from keys_tb.sel_as [OF assms this] show ?thesis
    by (simp add: user_data_keys_table_def key_rows_def conj_commute)
qed

lemma sel_own_keys_as:
  assumes "as_user u s"
  shows "sel user_data_keys_table (\<lambda>r. dk_user_id r = u) s = (Inr (key_rows (s_db s) u), s)"
  using sel_keys_as [OF assms] by (simp add: key_rows_def cong: filter_cong)

lemma sel_key_version_as:
  assumes "as_user u s"
  shows "sel user_data_keys_table (\<lambda>r. dk_user_id r = u \<and> dk_key_version r = v) s =
    (Inr (filter (\<lambda>r. dk_key_version r = v) (key_rows (s_db s) u)), s)"
  using sel_keys_as [OF assms] by (simp add: key_rows_def cong: filter_cong conj_cong)

lemma dek_for_version_as:
  assumes "as_user u s" "dek_in e (s_db s) u v = Some dek"
  shows "dek_for_version e x u v s = (Inr dek, s)"
  using assms
  by (auto simp: dek_for_version_def op_run sel_key_version_as dek_in_def one_or_none_def
      unwrap_dek_def unwrapped_def split: list.splits option.splits)

lemma dek_for_version_missing:
  assumes "as_user u s" "key_rows (s_db s) u = []"
  shows "dek_for_version e x u v s = (Inl x, s)"
  using assms by (simp add: dek_for_version_def op_run sel_key_version_as one_or_none_def)

lemma one_latest:
  assumes "one (latest_version rows) s = (Inr r, s')"
  shows "s' = s \<and> r \<in> set rows"
proof -
  have "set (latest_version rows) \<subseteq> set rows"
    by (auto simp: latest_version_def dest: in_set_takeD)
  with assms show ?thesis
    by (auto simp: one_def op_run split: list.splits)
qed

lemma keys_distinct_version:
  assumes "keys_distinct d" "r \<in> set (key_rows d u)"
  shows "filter (\<lambda>q. dk_key_version q = dk_key_version r) (key_rows d u) = [r]"
proof -
  have "distinct (map dk_key_version (key_rows d u))"
  proof -
    have "distinct (map (\<lambda>q. (dk_user_id q, dk_key_version q)) (key_rows d u))"
      using assms(1) by (simp add: keys_distinct_def key_rows_def distinct_map_filter)
    moreover have "inj_on (\<lambda>q. (dk_user_id q, dk_key_version q)) (set (key_rows d u)) \<longleftrightarrow>
        inj_on dk_key_version (set (key_rows d u))"
      by (auto simp: inj_on_def key_rows_def)
    ultimately show ?thesis by (simp add: distinct_map)
  qed
  then show ?thesis using assms(2) by (rule filter_unique_key)
qed

lemma current_dek_as:
  assumes "as_user u s" "keys_distinct (s_db s)" "current_dek e u s = (Inr (dek, v), s')"
  shows "s' = s \<and> dek_in e (s_db s) u v = Some dek"
proof -
  let ?rows = "key_rows (s_db s) u"
  have c: "current_dek e u s = op_bind (one (latest_version ?rows)) (\<lambda>row.
      op_bind (unwrap_dek e (dk_wrapped_dek row) (dk_wrap_nonce row) (master_key_bytes e)) (\<lambda>dek.
      ret (dek, dk_key_version row))) s"
    by (simp add: current_dek_def op_run sel_own_keys_as [OF assms(1)])
  obtain row t where o: "one (latest_version ?rows) s = (Inr row, t)"
    and k: "op_bind (unwrap_dek e (dk_wrapped_dek row) (dk_wrap_nonce row) (master_key_bytes e)) (\<lambda>dek.
      ret (dek, dk_key_version row)) t = (Inr (dek, v), s')"
    using assms(3) unfolding c op_bind_Inr_iff by blast
  from one_latest [OF o] have t: "t = s" and row: "row \<in> set ?rows" by simp_all
  from k have "unwrapped e row = Some dek" "dk_key_version row = v" "s' = t"
    by (auto simp: op_run unwrap_dek_def unwrapped_def split: option.splits)
  moreover from keys_distinct_version [OF assms(2) row]
  have "filter (\<lambda>q. dk_key_version q = dk_key_version row) ?rows = [row]" .
  ultimately show ?thesis using t by (auto simp: dek_in_def)
qed

lemma current_dek_none:
  assumes "as_user u s" "key_rows (s_db s) u = []"
  shows "current_dek e u s = (Inl NoResultFound, s)"
  using assms by (simp add: current_dek_def op_run sel_own_keys_as latest_version_def one_def)

text \<open>A cache that only holds keys of the store.\<close>

definition cache_ok :: "env \<Rightarrow> db \<Rightarrow> uuid \<Rightarrow> (int \<Rightarrow> bytes option) \<Rightarrow> bool" where
  "cache_ok e d u c \<longleftrightarrow> (\<forall>v k. c v = Some k \<longrightarrow> dek_in e d u v = Some k)"

lemma cache_ok_empty [simp]: "cache_ok e d u (\<lambda>_. None)"
  by (simp add: cache_ok_def)

lemma cached_dek_as:
  assumes "as_user u s" "cache_ok e (s_db s) u c" "dek_in e (s_db s) u v = Some dek"
  shows "\<exists>c'. cached_dek e x u c v s = (Inr (dek, c'), s) \<and> cache_ok e (s_db s) u c'"
proof (cases "c v")
  case None
  then show ?thesis using assms
    by (simp add: cached_dek_def op_run dek_for_version_as cache_ok_def)
next
  case (Some k)
  then show ?thesis using assms by (auto simp: cached_dek_def op_run cache_ok_def)
qed

lemma cached_dek_missing:
  assumes "as_user u s" "key_rows (s_db s) u = []"
  shows "cached_dek e x u (\<lambda>_. None) v s = (Inl x, s)"
  using assms by (simp add: cached_dek_def op_run dek_for_version_missing)

end
