(* ===== verification/Conflict_Store.thy ===== *)
theory Conflict_Store
  imports Table_Laws
begin

text \<open>
  The contract of \<open>INSERT ... ON CONFLICT DO NOTHING\<close>: a table whose rows clash exactly when their keys
  are equal is a first-write-wins store. The specification is fresh, the rows of a batch whose
  key is new; the interface is proved once and interpreted on the two tables the ingest writes.
\<close>

text \<open>The rows that land, given the keys already taken.\<close>

fun fresh :: "('r \<Rightarrow> 'k) \<Rightarrow> 'k set \<Rightarrow> 'r list \<Rightarrow> 'r list" where
  "fresh key K [] = []"
| "fresh key K (r # rs) =
     (if key r \<in> K then fresh key K rs else r # fresh key (insert (key r) K) rs)"

lemma fresh_append: "fresh key K (xs @ ys) = fresh key K xs @ fresh key (K \<union> key ` set xs) ys"
proof (induction key K xs rule: fresh.induct)
  case (2 key K r rs)
  then show ?case by (cases "key r \<in> K") (simp_all add: insert_absorb)
qed simp

lemma set_fresh: "set (fresh key K xs) \<subseteq> set xs"
  by (induction key K xs rule: fresh.induct) auto

lemma fresh_keys: "key ` set (fresh key K xs) = key ` set xs - K"
  by (induction key K xs rule: fresh.induct) auto

lemma distinct_fresh: "distinct (map key (fresh key K xs))"
proof (induction key K xs rule: fresh.induct)
  case (2 key K r rs)
  show ?case
  proof (cases "key r \<in> K")
    case False
    have "key r \<notin> key ` set (fresh key (insert (key r) K) rs)" unfolding fresh_keys by simp
    with False 2 show ?thesis by simp
  qed (use 2 in simp)
qed simp

lemma fresh_none: "key ` set xs \<subseteq> K \<Longrightarrow> fresh key K xs = []"
  by (induction xs) auto

lemma fresh_all: "distinct (map key xs) \<Longrightarrow> key ` set xs \<inter> K = {} \<Longrightarrow> fresh key K xs = xs"
  by (induction key K xs rule: fresh.induct) auto

lemma fresh_map: "fresh key K (map f xs) = map f (fresh (key \<circ> f) K xs)"
  by (induction xs arbitrary: K) auto

lemma fresh_cong: "(\<And>x. x \<in> set xs \<Longrightarrow> (key x \<in> K) = (key' x \<in> K')) \<Longrightarrow>
    (\<And>x y. x \<in> set xs \<Longrightarrow> y \<in> set xs \<Longrightarrow> (key x = key y) = (key' x = key' y)) \<Longrightarrow>
    fresh key K xs = fresh key' K' xs"
proof (induction xs arbitrary: K K')
  case (Cons x xs)
  have "fresh key (insert (key x) K) xs = fresh key' (insert (key' x) K') xs"
    using Cons.prems by (intro Cons.IH) auto
  moreover have "fresh key K xs = fresh key' K' xs"
    using Cons.prems by (intro Cons.IH) auto
  ultimately show ?case using Cons.prems(1) [of x] by simp
qed simp

text \<open>The keys a table holds.\<close>

definition taken :: "'r table \<Rightarrow> ('r \<Rightarrow> 'k) \<Rightarrow> db \<Rightarrow> 'k set" where
  "taken tb key d = key ` set (tb_rows tb d)"

locale conflict_store = owned_table tb
  for tb :: "'r table" +
  fixes key :: "'r \<Rightarrow> 'k"
  assumes clash_key: "tb_clash tb q r \<longleftrightarrow> key q = key r"
    and parents_put: "tb_parents tb (tb_put tb xs d) r = tb_parents tb d r"
    and grant_insert: "INSERT \<in> set (tb_grants tb)"
begin

lemma clash_taken: "list_ex (\<lambda>q. tb_clash tb q r) (tb_rows tb d) \<longleftrightarrow> key r \<in> taken tb key d"
  unfolding list_ex_iff clash_key taken_def image_iff by (metis)

lemma offer_rows_fresh:
  assumes "\<forall>r \<in> set rs. w r \<and> tb_check tb r = None \<and> tb_parents tb d r"
  shows "offer_rows tb w rs d =
    Inr (fresh key (taken tb key d) rs, tb_put tb (tb_rows tb d @ fresh key (taken tb key d) rs) d)"
  using assms
proof (induction rs arbitrary: d)
  case (Cons r rs)
  note clash = clash_taken [of r d]
  show ?case
  proof (cases "key r \<in> taken tb key d")
    case True
    with Cons clash show ?thesis by simp
  next
    case False
    let ?d = "tb_put tb (tb_rows tb d @ [r]) d"
    have "taken tb key ?d = insert (key r) (taken tb key d)" by (simp add: taken_def)
    moreover have "offer_rows tb w rs ?d =
        Inr (fresh key (taken tb key ?d) rs, tb_put tb (tb_rows tb ?d @ fresh key (taken tb key ?d) rs) ?d)"
      using Cons.prems by (intro Cons.IH) (simp add: parents_put)
    ultimately show ?thesis using Cons.prems False clash by simp
  qed
qed simp

lemma offer_rows_landed:
  assumes "offer_rows tb w rs d = Inr (ls, d')"
  shows "ls = fresh key (taken tb key d) rs \<and> d' = tb_put tb (tb_rows tb d @ ls) d"
  using assms
proof (induction rs arbitrary: d ls d')
  case (Cons r rs)
  note clash = clash_taken [of r d]
  have ok: "w r" "tb_check tb r = None"
    using Cons.prems by (auto split: if_splits option.splits)
  show ?case
  proof (cases "key r \<in> taken tb key d")
    case True
    with Cons clash ok show ?thesis by simp
  next
    case False
    let ?d = "tb_put tb (tb_rows tb d @ [r]) d"
    obtain ls' where l: "offer_rows tb w rs ?d = Inr (ls', d')" "ls = r # ls'"
      using Cons.prems False clash ok
      by (auto split: if_splits sum.splits simp: map_sum_def)
    have "taken tb key ?d = insert (key r) (taken tb key d)" by (simp add: taken_def)
    with Cons.IH [OF l(1)] l(2) False show ?thesis by simp
  qed
qed simp

lemma offer_run:
  assumes "as_user u s"
    and "\<forall>r \<in> set rs. tb_owner tb r = u \<and> tb_check tb r = None \<and> tb_parents tb (s_db s) r"
  shows "ins_on_conflict_do_nothing tb rs s =
    (Inr (fresh key (taken tb key (s_db s)) rs),
     s\<lparr>s_db := tb_put tb (tb_rows tb (s_db s) @ fresh key (taken tb key (s_db s)) rs) (s_db s)\<rparr>)"
proof -
  have "\<forall>r \<in> set rs. row_writable tb s (Some u) r \<and> tb_check tb r = None \<and> tb_parents tb (s_db s) r"
    using assms by (simp add: writable_as as_user_def)
  from offer_rows_fresh [OF this] show ?thesis
    by (simp add: ins_on_conflict_do_nothing_def stmt_as [OF assms(1) grant_insert])
qed

lemma offer_result:
  assumes "as_user u s" "ins_on_conflict_do_nothing tb rs s = (Inr ls, s')"
  shows "ls = fresh key (taken tb key (s_db s)) rs \<and>
    s' = s\<lparr>s_db := tb_put tb (tb_rows tb (s_db s) @ ls) (s_db s)\<rparr>"
proof -
  have "offer_rows tb (row_writable tb s (Some u)) rs (s_db s) = Inr (ls, s_db s') \<and>
      s' = s\<lparr>s_db := s_db s'\<rparr>"
    using assms(2) by (auto simp: ins_on_conflict_do_nothing_def stmt_as [OF assms(1) grant_insert]
        split: sum.splits prod.splits)
  with offer_rows_landed show ?thesis by metis
qed

text \<open>The key stays unique: the primary key, kept by every batch.\<close>

lemma offer_distinct:
  assumes "distinct (map key (tb_rows tb d))"
  shows "distinct (map key (tb_rows tb d @ fresh key (taken tb key d) rs))"
  using assms distinct_fresh [of key "taken tb key d" rs] fresh_keys [of key "taken tb key d" rs]
  by (auto simp: taken_def)

end

definition fill_row_key :: "fill_row \<Rightarrow> uuid \<times> string \<times> string \<times> int \<times> datetime" where
  "fill_row_key r = (f_user_id r, f_order_id r, f_occ_symbol r, f_leg_index r, f_execution_time r)"

interpretation fills_cs: conflict_store fills_table fill_row_key
  by unfold_locales (auto simp: fills_table_def fill_row_key_def has_user_def)

definition broker_tx_row_key :: "broker_tx_row \<Rightarrow> uuid \<times> string" where
  "broker_tx_row_key r = (b_user_id r, b_activity_id r)"

interpretation broker_cs: conflict_store broker_transactions_table broker_tx_row_key
  by unfold_locales (auto simp: broker_transactions_table_def broker_tx_row_key_def has_user_def)

end
