(* ===== verification/Fills.thy ===== *)
theory Fills
  imports Envelope Py_Decimal Conflict_Store
begin

text \<open>
  \<open>ledger/fills.py\<close>: the one write path into the fill table and its read path. Quantity and price are
  encrypted one column at a time under the user's current data key, each bound to its row by associated
  data; rows go in by chunks with \<open>ON CONFLICT DO NOTHING\<close> on the full primary key, and come back
  decrypted under the key of their own version.
\<close>

record fill_write =
  fw_order_id :: string
  fw_occ_symbol :: string
  fw_leg_index :: int
  fw_execution_time :: datetime
  fw_position_effect :: string
  fw_side :: string
  fw_quantity :: "pydec option"
  fw_price_usd :: "pydec option"

record fill_record =
  fr_user_id :: uuid
  fr_order_id :: string
  fr_occ_symbol :: string
  fr_leg_index :: int
  fr_execution_time :: datetime
  fr_position_effect :: string
  fr_side :: string
  fr_quantity :: "pydec option"
  fr_price_usd :: "pydec option"
  fr_key_version :: int

definition fill_chunk_size :: nat where
  "fill_chunk_size = 2000"

definition fill_associated_data ::
    "string \<Rightarrow> uuid \<Rightarrow> string \<Rightarrow> string \<Rightarrow> int \<Rightarrow> datetime \<Rightarrow> bytes" where
  "fill_associated_data column user_id order_id occ_symbol leg_index execution_time =
     (let micros = epoch_micros execution_time in
      join '':'' [''fills'', column, uuid_str user_id, order_id, occ_symbol,
        show_int leg_index, show_int micros])"

text \<open>The sentinel \<open>Fill.__init__\<close> asks for: only the write path holds the right one.\<close>

datatype write_token = FillWriteToken | BrokerTransactionWriteToken | OtherObject

definition fill_init :: "write_token \<Rightarrow> fill_row \<Rightarrow> fill_row op" where
  "fill_init token kwargs = (if token \<noteq> FillWriteToken then raise RuntimeError else ret kwargs)"

text \<open>One optional amount: absent stays absent, present is rendered and encrypted.\<close>

definition encrypt_amount ::
    "env \<Rightarrow> bytes \<Rightarrow> bytes \<Rightarrow> pydec option \<Rightarrow> (bytes option \<times> bytes option) op" where
  "encrypt_amount e dek associated_data amount =
     (case amount of
        None \<Rightarrow> ret (None, None)
      | Some v \<Rightarrow> op_bind (encrypt_field e (encode_decimal v) dek associated_data)
          (\<lambda>(ciphertext, nonce). ret (Some ciphertext, Some nonce)))"

definition fill_values :: "env \<Rightarrow> bytes \<Rightarrow> int \<Rightarrow> uuid \<Rightarrow> fill_write \<Rightarrow> fill_row op" where
  "fill_values e dek key_version user_id fill =
     (let ad = (\<lambda>column. fill_associated_data column user_id (fw_order_id fill) (fw_occ_symbol fill)
                  (fw_leg_index fill) (fw_execution_time fill))
      in op_bind (encrypt_amount e dek (ad ''quantity'') (fw_quantity fill)) (\<lambda>(qc, qn).
         op_bind (encrypt_amount e dek (ad ''price_usd'') (fw_price_usd fill)) (\<lambda>(pc, pn).
         ret \<lparr>f_user_id = user_id, f_order_id = fw_order_id fill, f_occ_symbol = fw_occ_symbol fill,
           f_leg_index = fw_leg_index fill, f_execution_time = fw_execution_time fill,
           f_position_effect = fw_position_effect fill, f_side = fw_side fill,
           f_quantity_ciphertext = qc, f_quantity_nonce = qn,
           f_price_usd_ciphertext = pc, f_price_usd_nonce = pn, f_key_version = key_version\<rparr>)))"

definition insert_fill_chunk :: "env \<Rightarrow> bytes \<Rightarrow> int \<Rightarrow> uuid \<Rightarrow> fill_write list \<Rightarrow> nat op" where
  "insert_fill_chunk e dek key_version user_id chunk =
     op_bind (op_map (fill_values e dek key_version user_id) chunk) (\<lambda>values.
     op_seq (fill_init FillWriteToken (hd values))
       (op_bind (ins_on_conflict_do_nothing fills_table values) (\<lambda>landed.
        ret (length landed))))"

text \<open>The chunk size is an argument, so that its irrelevance can be stated.\<close>

definition insert_fills_chunked :: "nat \<Rightarrow> env \<Rightarrow> uuid \<Rightarrow> fill_write list \<Rightarrow> nat op" where
  "insert_fills_chunked chunk_size e user_id fills =
     (if fills = [] then ret 0
      else op_bind (current_dek e user_id) (\<lambda>(dek, key_version).
           op_bind (op_map (insert_fill_chunk e dek key_version user_id) (chunks chunk_size fills)) (\<lambda>landed.
           ret (sum_list landed))))"

definition insert_fills :: "env \<Rightarrow> uuid \<Rightarrow> fill_write list \<Rightarrow> nat op" where
  "insert_fills e user_id fills = insert_fills_chunked fill_chunk_size e user_id fills"

definition decrypt_amount ::
    "env \<Rightarrow> bytes \<Rightarrow> bytes \<Rightarrow> bytes option \<Rightarrow> bytes option \<Rightarrow> pydec option op" where
  "decrypt_amount e dek associated_data ciphertext nonce =
     (case (ciphertext, nonce) of
        (Some c, Some n) \<Rightarrow>
          op_bind (decrypt_field e c n dek associated_data) (\<lambda>p.
          (case decode_decimal p of None \<Rightarrow> raise InvalidOperation | Some v \<Rightarrow> ret (Some v)))
      | _ \<Rightarrow> ret None)"

definition fill_record_of :: "env \<Rightarrow> bytes \<Rightarrow> uuid \<Rightarrow> fill_row \<Rightarrow> fill_record op" where
  "fill_record_of e dek user_id row =
     (let ad = (\<lambda>column. fill_associated_data column user_id (f_order_id row) (f_occ_symbol row)
                  (f_leg_index row) (f_execution_time row))
      in op_bind (decrypt_amount e dek (ad ''quantity'')
                    (f_quantity_ciphertext row) (f_quantity_nonce row)) (\<lambda>quantity.
         op_bind (decrypt_amount e dek (ad ''price_usd'')
                    (f_price_usd_ciphertext row) (f_price_usd_nonce row)) (\<lambda>price_usd.
         ret \<lparr>fr_user_id = user_id, fr_order_id = f_order_id row, fr_occ_symbol = f_occ_symbol row,
           fr_leg_index = f_leg_index row, fr_execution_time = f_execution_time row,
           fr_position_effect = f_position_effect row, fr_side = f_side row,
           fr_quantity = quantity, fr_price_usd = price_usd, fr_key_version = f_key_version row\<rparr>)))"

fun read_fill_rows ::
    "env \<Rightarrow> uuid \<Rightarrow> (int \<Rightarrow> bytes option) \<Rightarrow> fill_row list \<Rightarrow> fill_record list op" where
  "read_fill_rows e user_id dek_cache [] = ret []"
| "read_fill_rows e user_id dek_cache (row # rows) =
     op_bind (cached_dek e DataKeyMissing user_id dek_cache (f_key_version row)) (\<lambda>(dek, dek_cache').
     op_bind (fill_record_of e dek user_id row) (\<lambda>record.
     op_bind (read_fill_rows e user_id dek_cache' rows) (\<lambda>records.
     ret (record # records))))"

definition read_fills :: "env \<Rightarrow> uuid \<Rightarrow> fill_record list op" where
  "read_fills e user_id =
     op_bind (sel fills_table (\<lambda>r. f_user_id r = user_id)) (\<lambda>rows.
     read_fill_rows e user_id (\<lambda>_. None) rows)"

end
