(* ===== verification/Dec_Sums.thy ===== *)
theory Dec_Sums
  imports Py_Decimal
begin

text \<open>
  Sums of decimals. As long as no partial sum can need more than the context's 28 digits, adding decimals
  up from zero is exact and depends on the multiset of summands only, representation included.
\<close>

definition dec_sum :: "pydec list \<Rightarrow> pydec" where
  "dec_sum ds = foldl dec_add dec_zero ds"

text \<open>The exact total: the smallest exponent in sight, and the integer sum at it.\<close>

definition total_exp :: "pydec list \<Rightarrow> int" where
  "total_exp ds = Min (insert 0 (dexp ` set ds))"

definition total_at :: "pydec list \<Rightarrow> int \<Rightarrow> int" where
  "total_at ds e = (\<Sum>d \<leftarrow> ds. dec_scaled d e)"

definition dec_total :: "pydec list \<Rightarrow> pydec" where
  "dec_total ds = (let e = total_exp ds; r = total_at ds e in Dec (r < 0) (nat \<bar>r\<bar>) e)"

text \<open>\<open>k\<close> decimals, and absolute values that add up within 28 digits at that scale.\<close>

definition sum_fits :: "nat \<Rightarrow> pydec list \<Rightarrow> bool" where
  "sum_fits k ds \<longleftrightarrow> list_all (\<lambda>d. - int k \<le> dexp d) ds \<and>
     (\<Sum>d \<leftarrow> ds. \<bar>dec_scaled d (- int k)\<bar>) < 10 ^ dec_prec"

lemma dec_scaled_shift:
  assumes "e \<le> e'" "e' \<le> dexp d"
  shows "dec_scaled d e = dec_scaled d e' * 10 ^ nat (e' - e)"
proof -
  have "nat (dexp d - e) = nat (dexp d - e') + nat (e' - e)" using assms by simp
  then show ?thesis by (simp add: dec_scaled_def power_add)
qed

lemma total_exp_le: "total_exp ds \<le> 0" "d \<in> set ds \<Longrightarrow> total_exp ds \<le> dexp d"
  by (simp_all add: total_exp_def)

lemma total_exp_ge: "(\<forall>d \<in> set ds. e \<le> dexp d) \<Longrightarrow> e \<le> 0 \<Longrightarrow> e \<le> total_exp ds"
  by (simp add: total_exp_def)

lemma total_exp_snoc: "total_exp (ds @ [d]) = min (total_exp ds) (dexp d)"
proof -
  have "Min (insert (dexp d) (insert 0 (dexp ` set ds))) = min (dexp d) (Min (insert 0 (dexp ` set ds)))"
    by (rule Min_insert) simp_all
  then show ?thesis by (simp add: total_exp_def insert_commute min.commute)
qed

lemma total_at_shift:
  assumes "e \<le> e'" "\<forall>d \<in> set ds. e' \<le> dexp d"
  shows "total_at ds e = total_at ds e' * 10 ^ nat (e' - e)"
  using assms(2)
  by (induction ds) (simp_all add: total_at_def dec_scaled_shift [OF assms(1)] distrib_right)

lemma dec_scaled_total:
  assumes "e \<le> total_exp ds"
  shows "dec_scaled (dec_total ds) e = total_at ds e"
proof -
  let ?e = "total_exp ds"
  have "dec_scaled (dec_total ds) e = total_at ds ?e * 10 ^ nat (?e - e)"
    by (simp add: dec_scaled_def dec_total_def Let_def)
  also have "\<dots> = total_at ds e"
    using total_at_shift [OF assms, of ds] total_exp_le by simp
  finally show ?thesis .
qed

lemma total_at_abs: "\<bar>total_at ds e\<bar> \<le> (\<Sum>d \<leftarrow> ds. \<bar>dec_scaled d e\<bar>)"
  by (induction ds) (simp_all add: total_at_def)

lemma total_fits:
  assumes "sum_fits k ds"
  shows "nat \<bar>total_at ds (total_exp ds)\<bar> < 10 ^ dec_prec"
proof -
  let ?e = "total_exp ds"
  have k: "- int k \<le> ?e"
    using assms by (intro total_exp_ge) (auto simp: sum_fits_def list_all_iff)
  have "\<bar>total_at ds ?e\<bar> * 1 \<le> \<bar>total_at ds ?e\<bar> * 10 ^ nat (?e - - int k)"
    by (intro mult_left_mono) simp_all
  also have "\<dots> = \<bar>total_at ds (- int k)\<bar>"
    using total_at_shift [OF k, of ds] total_exp_le by (simp add: abs_mult)
  also have "\<dots> \<le> (\<Sum>d \<leftarrow> ds. \<bar>dec_scaled d (- int k)\<bar>)" by (rule total_at_abs)
  also have "\<dots> < 10 ^ dec_prec" using assms by (simp add: sum_fits_def)
  finally have "\<bar>total_at ds ?e\<bar> < 10 ^ dec_prec" by simp
  then show ?thesis by (simp add: nat_less_iff)
qed

lemma sum_fits_snoc: "sum_fits k (ds @ [d]) \<Longrightarrow> sum_fits k ds"
  by (auto simp: sum_fits_def intro: le_less_trans [rotated])

lemma dec_add_total:
  assumes "sum_fits k (ds @ [d])"
  shows "dec_add (dec_total ds) d = dec_total (ds @ [d])"
proof -
  let ?e = "total_exp (ds @ [d])"
  have exp: "dexp (dec_total ds) = total_exp ds" by (simp add: dec_total_def Let_def)
  then have e: "min (dexp (dec_total ds)) (dexp d) = ?e" by (simp add: total_exp_snoc)
  have r: "dec_scaled (dec_total ds) ?e + dec_scaled d ?e = total_at (ds @ [d]) ?e"
    by (subst dec_scaled_total) (simp_all add: total_exp_snoc total_at_def)
  have sign: "\<not> (dsign (dec_total ds) \<and> dsign d)" if "total_at (ds @ [d]) ?e = 0"
  proof
    assume "dsign (dec_total ds) \<and> dsign d"
    moreover from this have "dcoeff (dec_total ds) \<noteq> 0"
      by (simp add: dec_total_def Let_def)
    ultimately have "dec_scaled (dec_total ds) ?e < 0" "dec_scaled d ?e \<le> 0"
      by (simp_all add: dec_scaled_def)
    with r that show False by simp
  qed
  have "dec_add (dec_total ds) d =
      dec_fix (Dec (total_at (ds @ [d]) ?e < 0) (nat \<bar>total_at (ds @ [d]) ?e\<bar>) ?e)"
    using sign by (auto simp: dec_add_def Let_def e r)
  also have "\<dots> = dec_total (ds @ [d])"
    using total_fits [OF assms] by (simp add: dec_fix_id dec_total_def Let_def)
  finally show ?thesis .
qed

theorem dec_sum_total: "sum_fits k ds \<Longrightarrow> dec_sum ds = dec_total ds"
proof (induction ds rule: rev_induct)
  case Nil
  show ?case by (simp add: dec_sum_def dec_total_def dec_zero_def total_exp_def total_at_def)
next
  case (snoc d ds)
  have "dec_sum (ds @ [d]) = dec_add (dec_sum ds) d" by (simp add: dec_sum_def)
  also have "dec_sum ds = dec_total ds" using snoc sum_fits_snoc by blast
  also have "dec_add (dec_total ds) d = dec_total (ds @ [d])" by (rule dec_add_total [OF snoc.prems])
  finally show ?case .
qed

lemma total_at_rat:
  "(of_int (total_at ds e) :: rat) * p = (\<Sum>d \<leftarrow> ds. of_int (dec_scaled d e) * p)"
  by (induction ds) (simp_all add: total_at_def distrib_right)

lemma dec_total_val: "dec_val (dec_total ds) = (\<Sum>d \<leftarrow> ds. dec_val d)"
proof -
  let ?e = "total_exp ds"
  have "dec_val (dec_total ds) = of_int (total_at ds ?e) * 10 powi ?e"
    by (simp add: dec_total_def Let_def dec_val_def)
  also have "\<dots> = (\<Sum>d \<leftarrow> ds. of_int (dec_scaled d ?e) * 10 powi ?e)"
    by (rule total_at_rat)
  also have "\<dots> = (\<Sum>d \<leftarrow> ds. dec_val d)"
    using total_exp_le by (intro arg_cong [of _ _ sum_list] map_cong) (simp_all add: dec_scaled_val)
  finally show ?thesis .
qed

lemma sum_list_mset: "mset xs = mset ys \<Longrightarrow> (\<Sum>x \<leftarrow> xs. (f x :: int)) = (\<Sum>x \<leftarrow> ys. f x)"
  by (metis mset_map sum_mset_sum_list)

lemma dec_total_mset: "mset ds = mset ds' \<Longrightarrow> dec_total ds = dec_total ds'"
  using mset_eq_setD [of ds ds']
  by (simp add: dec_total_def total_exp_def total_at_def sum_list_mset [of ds ds'])

lemma sum_fits_mset: "mset ds = mset ds' \<Longrightarrow> sum_fits k ds = sum_fits k ds'"
  using mset_eq_setD [of ds ds']
  by (simp add: sum_fits_def list_all_iff sum_list_mset [of ds ds'])

end
