(* ===== verification/Pairing.thy ===== *)
theory Pairing
  imports Fills Dec_Sums
begin

text \<open>
  The pure core of \<open>ledger/pairing.py\<close>: a fill's role, the signed amount of a leg, the digest of an
  event's fills, and \<open>derive_events\<close>.
\<close>

type_synonym fill_key = "string \<times> string \<times> int \<times> datetime"

datatype fill_role = RoleOpen | RoleClose | RoleUnknown

datatype event_type = TypeOpen | TypeClose

definition event_type_value :: "event_type \<Rightarrow> string" where
  "event_type_value t = (case t of TypeOpen \<Rightarrow> ''OPEN'' | TypeClose \<Rightarrow> ''CLOSE'')"

record derived_event =
  v_position_id :: uuid
  v_event_type :: event_type
  v_event_time :: datetime
  v_fill_ids_hash :: string
  v_open_debit_usd :: "pydec option"
  v_close_credit_usd :: "pydec option"
  v_commission_usd :: "pydec option"

record derivation =
  dv_events :: "derived_event list"
  dv_unresolved :: "fill_key list"
  dv_unclassified :: "fill_key list"

definition classify_fill :: "string \<Rightarrow> fill_role" where
  "classify_fill position_effect =
     (if position_effect = ''OPENING'' then RoleOpen
      else if position_effect = ''CLOSING'' then RoleClose
      else RoleUnknown)"

definition signed_leg_amount :: "fill_record \<Rightarrow> event_type \<Rightarrow> pydec option" where
  "signed_leg_amount fill type =
     (case (fr_quantity fill, fr_price_usd fill) of
        (Some quantity, Some price_usd) \<Rightarrow>
          if fr_side fill \<notin> {''BUY'', ''SELL''} then None
          else (let amount = dec_mul price_usd quantity
                in if type = TypeOpen
                   then Some (if fr_side fill = ''BUY'' then amount else dec_neg amount)
                   else Some (if fr_side fill = ''SELL'' then amount else dec_neg amount))
      | _ \<Rightarrow> None)"

fun net_amount_from :: "pydec \<Rightarrow> fill_record list \<Rightarrow> event_type \<Rightarrow> pydec option" where
  "net_amount_from running [] type = Some running"
| "net_amount_from running (fill # fills) type =
     (case signed_leg_amount fill type of
        None \<Rightarrow> None
      | Some amount \<Rightarrow> net_amount_from (dec_add running amount) fills type)"

definition net_amount :: "fill_record list \<Rightarrow> event_type \<Rightarrow> pydec option" where
  "net_amount fills type = net_amount_from dec_zero fills type"

definition render_key :: "fill_key \<Rightarrow> string" where
  "render_key = (\<lambda>(order_id, occ_symbol, leg_index, execution_time).
     join '':'' [order_id, occ_symbol, show_int leg_index, show_int (epoch_micros execution_time)])"

definition hash_fill_ids :: "env \<Rightarrow> fill_key list \<Rightarrow> string" where
  "hash_fill_ids e keys =
     (let rendered = sort (map render_key keys) in sha256_hex e (join '':'' rendered))"

definition fill_key_of :: "fill_record \<Rightarrow> fill_key" where
  "fill_key_of fill = (fr_order_id fill, fr_occ_symbol fill, fr_leg_index fill, fr_execution_time fill)"

text \<open>\<open>resolutions.get(key)\<close>: an absent key and a stored \<open>None\<close> are alike.\<close>

type_synonym resolutions = "fill_key \<Rightarrow> uuid option option"

definition res_get :: "resolutions \<Rightarrow> fill_key \<Rightarrow> uuid option" where
  "res_get resolutions key = (case resolutions key of None \<Rightarrow> None | Some p \<Rightarrow> p)"

type_synonym group_key = "uuid \<times> fill_role \<times> string"

record scan =
  sc_unresolved :: "fill_key list"
  sc_unclassified :: "fill_key list"
  sc_groups :: "(group_key \<times> fill_record list) list"

definition empty_scan :: scan where
  "empty_scan = \<lparr>sc_unresolved = [], sc_unclassified = [], sc_groups = []\<rparr>"

text \<open>The body of the loop over the fills.\<close>

definition scan_fill :: "resolutions \<Rightarrow> fill_record \<Rightarrow> scan \<Rightarrow> scan" where
  "scan_fill resolutions fill sc =
     (let key = fill_key_of fill
      in case res_get resolutions key of
           None \<Rightarrow> sc\<lparr>sc_unresolved := sc_unresolved sc @ [key]\<rparr>
         | Some position_id \<Rightarrow>
             (let role = classify_fill (fr_position_effect fill)
              in if role = RoleUnknown then sc\<lparr>sc_unclassified := sc_unclassified sc @ [key]\<rparr>
                 else sc\<lparr>sc_groups :=
                   dict_append (position_id, role, fr_order_id fill) fill (sc_groups sc)\<rparr>))"

definition event_of_group :: "env \<Rightarrow> group_key \<times> fill_record list \<Rightarrow> derived_event" where
  "event_of_group e = (\<lambda>((position_id, role, order_id), group_fills).
     (let type = (if role = RoleOpen then TypeOpen else TypeClose);
          event_time = Min (set (map fr_execution_time group_fills));
          fill_ids_hash = hash_fill_ids e (map fill_key_of group_fills);
          net = net_amount group_fills type
      in \<lparr>v_position_id = position_id, v_event_type = type, v_event_time = event_time,
          v_fill_ids_hash = fill_ids_hash,
          v_open_debit_usd = (if type = TypeOpen then net else None),
          v_close_credit_usd = (if type = TypeClose then net else None),
          v_commission_usd = None\<rparr>))"

definition event_sort_key :: "derived_event \<Rightarrow> string \<times> string \<times> string" where
  "event_sort_key v =
     (uuid_str (v_position_id v), event_type_value (v_event_type v), v_fill_ids_hash v)"

definition derive_events :: "env \<Rightarrow> fill_record list \<Rightarrow> resolutions \<Rightarrow> derivation" where
  "derive_events e fills resolutions =
     (let sc = fold (scan_fill resolutions) fills empty_scan;
          events = map (event_of_group e) (sc_groups sc)
      in \<lparr>dv_events = sort_key event_sort_key events,
          dv_unresolved = sc_unresolved sc, dv_unclassified = sc_unclassified sc\<rparr>)"


section \<open>The scan, described by filters\<close>

definition is_resolved :: "resolutions \<Rightarrow> fill_record \<Rightarrow> bool" where
  "is_resolved res f \<longleftrightarrow> res_get res (fill_key_of f) \<noteq> None"

definition is_classified :: "fill_record \<Rightarrow> bool" where
  "is_classified f \<longleftrightarrow> classify_fill (fr_position_effect f) \<noteq> RoleUnknown"

text \<open>The fills that reach an event.\<close>

definition survives :: "resolutions \<Rightarrow> fill_record \<Rightarrow> bool" where
  "survives res f \<longleftrightarrow> is_resolved res f \<and> is_classified f"

definition group_key_of :: "resolutions \<Rightarrow> fill_record \<Rightarrow> group_key" where
  "group_key_of res f = (the (res_get res (fill_key_of f)), classify_fill (fr_position_effect f), fr_order_id f)"

lemma group_by_snoc: "group_by key (xs @ [x]) = dict_append (key x) x (group_by key xs)"
  by (simp add: group_by_def)

lemma scan_filters:
  "fold (scan_fill res) fills empty_scan =
    \<lparr>sc_unresolved = map fill_key_of (filter (\<lambda>f. \<not> is_resolved res f) fills),
     sc_unclassified = map fill_key_of (filter (\<lambda>f. is_resolved res f \<and> \<not> is_classified f) fills),
     sc_groups = group_by (group_key_of res) (filter (survives res) fills)\<rparr>"
proof (induction fills rule: rev_induct)
  case Nil
  show ?case by (simp add: empty_scan_def group_by_def)
next
  case (snoc f fills)
  then show ?case
    by (cases "res_get res (fill_key_of f)")
      (simp_all add: scan_fill_def is_resolved_def is_classified_def survives_def Let_def
        group_by_snoc group_key_of_def)
qed

definition fill_groups :: "resolutions \<Rightarrow> fill_record list \<Rightarrow> (group_key \<times> fill_record list) list" where
  "fill_groups res fills = group_by (group_key_of res) (filter (survives res) fills)"

lemma derive_events_eq:
  "derive_events e fills res =
    \<lparr>dv_events = sort_key event_sort_key (map (event_of_group e) (fill_groups res fills)),
     dv_unresolved = map fill_key_of (filter (\<lambda>f. \<not> is_resolved res f) fills),
     dv_unclassified = map fill_key_of (filter (\<lambda>f. is_resolved res f \<and> \<not> is_classified f) fills)\<rparr>"
  by (simp add: derive_events_def scan_filters Let_def fill_groups_def)

lemma mset_derived: "mset (dv_events (derive_events e fills res)) =
    image_mset (event_of_group e) (mset (fill_groups res fills))"
  by (simp add: derive_events_eq)

lemma fill_groups_mem:
  "(k, g) \<in> set (fill_groups res fills) \<longleftrightarrow>
    (\<exists>f \<in> set fills. survives res f \<and> group_key_of res f = k) \<and>
    g = filter (\<lambda>f. survives res f \<and> group_key_of res f = k) fills"
  by (auto simp: fill_groups_def group_by_mem intro!: filter_cong)

end
