(* ===== verification/Demo_World.thy ===== *)
theory Demo_World
  imports Envelope
begin

text \<open>
  A small concrete world: an authenticated cipher that writes its key, nonce and associated data in
  front of the plaintext, an injective digest, counted entropy, and a database with one user holding one
  data key. It shows that the hypotheses on outside code can hold, and the witnesses run in it.
\<close>

definition frame :: "bytes \<Rightarrow> bytes" where
  "frame x = show_nat (length x) @ CHR '':'' # x"

definition demo_header :: "bytes \<Rightarrow> bytes \<Rightarrow> bytes option \<Rightarrow> bytes" where
  "demo_header k n a = frame k @ frame n @ (case a of None \<Rightarrow> ''-'' | Some b \<Rightarrow> CHR ''+'' # frame b)"

definition strip_prefix :: "bytes \<Rightarrow> bytes \<Rightarrow> bytes option" where
  "strip_prefix h c = (if take (length h) c = h then Some (drop (length h) c) else None)"

definition demo_env :: env where
  "demo_env = \<lparr>
     aes_enc = (\<lambda>k n p a. demo_header k n a @ p),
     aes_dec = (\<lambda>k n c a. strip_prefix (demo_header k n a) c),
     sha256_hex = (\<lambda>b. b),
     urandom = (\<lambda>i n. take n (show_nat i @ replicate n (CHR ''x''))),
     gen_uuid = (\<lambda>i. word_of_nat (i + 1000)),
     hashtext = (\<lambda>t. int (length t)),
     validate_json = (\<lambda>b. if b = json_dumps (JStr ''tok'') then Some (JStr ''tok'')
        else if b = json_dumps (JStr ''new'') then Some (JStr ''new'') else None),
     parse_int = (\<lambda>j. case j of JInt i \<Rightarrow> Some i | _ \<Rightarrow> None),
     parse_decimal = (\<lambda>j. case j of JInt i \<Rightarrow> Some (Dec (i < 0) (nat \<bar>i\<bar>) 0) | JStr t \<Rightarrow> decode_decimal t
        | _ \<Rightarrow> None),
     parse_datetime = (\<lambda>j. case j of JInt i \<Rightarrow> Some i | _ \<Rightarrow> None),
     argon2_hash = (\<lambda>i p. CHR ''$'' # p),
     argon2_verify = (\<lambda>h p. h = CHR ''$'' # p),
     argon2_needs_rehash = (\<lambda>h. False),
     master_key_bytes = replicate 32 (CHR ''K'')\<rparr>"

lemma colon_not_digit [simp]: "\<not> is_digit (CHR '':'')"
  by (simp add: is_digit_def)

lemma takeWhile_digits_colon:
  "takeWhile is_digit (show_nat n @ CHR '':'' # r) = show_nat n"
  by (subst takeWhile_append2) auto

lemma frame_append: "frame x @ r = frame y @ r' \<longleftrightarrow> x = y \<and> r = r'"
proof
  assume a: "frame x @ r = frame y @ r'"
  then have "takeWhile is_digit (frame x @ r) = takeWhile is_digit (frame y @ r')" by simp
  then have l: "length x = length y" by (simp add: frame_def takeWhile_digits_colon)
  with a have "x @ r = y @ r'" by (simp add: frame_def)
  with l show "x = y \<and> r = r'" by simp
qed simp

lemma demo_header_append: "demo_header k n a @ p = demo_header k' n' a' @ p' \<longleftrightarrow>
    k = k' \<and> n = n' \<and> a = a' \<and> p = p'"
  by (cases a; cases a') (auto simp: demo_header_def frame_append)

lemma strip_prefix_Some: "strip_prefix h c = Some p \<longleftrightarrow> c = h @ p"
  by (auto simp: strip_prefix_def) (metis append_take_drop_id)

lemma demo_aead_correct: "aead_correct demo_env"
  by (simp add: aead_correct_def demo_env_def strip_prefix_Some)

lemma demo_aead_binding: "aead_binding demo_env"
proof -
  have "k' = k \<and> n' = n \<and> a' = a"
    if "strip_prefix (demo_header k' n' a') (demo_header k n a @ p) = Some q" for k n p a k' n' a' q
    using that by (simp add: strip_prefix_Some demo_header_append)
  then show ?thesis by (auto simp: aead_binding_def demo_env_def)
qed

definition demo_user :: uuid where
  "demo_user = 7"

definition demo_dek :: bytes where
  "demo_dek = replicate 32 (CHR ''D'')"

definition demo_key_row :: data_key_row where
  "demo_key_row = \<lparr>dk_user_id = demo_user, dk_key_version = 1,
     dk_wrapped_dek = aes_enc demo_env (master_key_bytes demo_env) ''n'' demo_dek None,
     dk_wrap_nonce = ''n''\<rparr>"

definition demo_user_row :: user_row where
  "demo_user_row = \<lparr>u_id = demo_user, u_username = ''ada'', u_password_hash = Some ''$pw'',
     u_is_admin = False\<rparr>"

definition demo_db :: db where
  "demo_db = empty_db\<lparr>t_users := [demo_user_row], t_user_data_keys := [demo_key_row]\<rparr>"

definition demo_sess :: sess where
  "demo_sess = (new_session App demo_db 0)\<lparr>s_user_guc := Some (uuid_str demo_user)\<rparr>"

lemma demo_as_user [simp]: "as_user demo_user demo_sess"
  by (simp add: as_user_def demo_sess_def new_session_def)

lemma demo_keys_distinct [simp]: "keys_distinct demo_db"
  by (simp add: keys_distinct_def demo_db_def)

lemma demo_sess_db [simp]: "s_db demo_sess = demo_db" "s_draws demo_sess = 0"
  by (simp_all add: demo_sess_def new_session_def)

lemma demo_has_user [simp]: "has_user demo_db demo_user"
  by (simp add: has_user_def demo_db_def demo_user_row_def)

lemma demo_key_rows [simp]: "key_rows demo_db demo_user = [demo_key_row]"
  by (simp add: key_rows_def demo_db_def demo_key_row_def)

lemma demo_unwrapped [simp]: "unwrapped demo_env demo_key_row = Some demo_dek"
  using aead_correctD [OF demo_aead_correct] by (simp add: unwrapped_def demo_key_row_def)

lemma demo_dek_in [simp]: "dek_in demo_env demo_db demo_user 1 = Some demo_dek"
proof -
  have "filter (\<lambda>r. dk_key_version r = 1) [demo_key_row] = [demo_key_row]"
    by (simp add: demo_key_row_def)
  then show ?thesis by (simp add: dek_in_def)
qed

lemma current_dek_single:
  assumes "as_user u s" "key_rows (s_db s) u = [r]" "unwrapped e r = Some dek"
  shows "current_dek e u s = (Inr (dek, dk_key_version r), s)"
  using assms
  by (simp add: current_dek_def op_run sel_own_keys_as latest_version_def one_def unwrap_dek_def
      unwrapped_def)

lemma demo_key_version [simp]: "dk_key_version demo_key_row = 1"
  by (simp add: demo_key_row_def)

lemma demo_current_dek [simp]: "current_dek demo_env demo_user demo_sess = (Inr (demo_dek, 1), demo_sess)"
  using current_dek_single [OF demo_as_user, of demo_key_row demo_env demo_dek] by simp

end
