(* ===== verification/Pairing_Laws.thy ===== *)
theory Pairing_Laws
  imports Pairing Demo_World
begin

text \<open>
  What \<open>derive_events\<close> promises: every fill accounted for, the shape of an event, derivation order by
  order, independence of the order of the fills, a gap staying a gap and exact sums otherwise, and a
  digest that tells fills apart.
\<close>

section \<open>Accounting\<close>

text \<open>
  C15: No fill is lost silently. Whatever the fills and resolutions, the fills behind the derived events
  (one non-empty group per event, hashed into its \<open>fill_ids_hash\<close>), the unresolved fills and the
  unclassified ones are together exactly the fills handed in, each once.
\<close>

theorem derive_events_accounts:
  "\<exists>gs. [] \<notin> set gs \<and>
     mset (map v_fill_ids_hash (dv_events (derive_events e fills res))) = mset (map (hash_fill_ids e) gs) \<and>
     mset (concat gs) + mset (dv_unresolved (derive_events e fills res)) +
       mset (dv_unclassified (derive_events e fills res)) = mset (map fill_key_of fills)"
proof (intro exI conjI)
  let ?groups = "fill_groups res fills"
  let ?gs = "map (\<lambda>(k, g). map fill_key_of g) ?groups"
  show "[] \<notin> set ?gs"
    by (auto simp: fill_groups_def dest: group_by_nonempty)
  have "v_fill_ids_hash (event_of_group e kg) = hash_fill_ids e (map fill_key_of (snd kg))" for kg
    by (cases kg) (auto simp: event_of_group_def Let_def)
  then show "mset (map v_fill_ids_hash (dv_events (derive_events e fills res))) =
      mset (map (hash_fill_ids e) ?gs)"
    by (simp add: mset_derived multiset.map_comp o_def case_prod_unfold)
  have "concat ?gs = map fill_key_of (concat (map snd ?groups))"
    by (simp add: map_concat o_def case_prod_unfold)
  then have "mset (concat ?gs) = image_mset fill_key_of (mset (filter (survives res) fills))"
    by (simp add: fill_groups_def mset_group_by flip: mset_map del: mset_map)
      (simp add: mset_group_by)
  moreover have "mset fills = filter_mset (survives res) (mset fills) +
      filter_mset (\<lambda>f. \<not> is_resolved res f) (mset fills) +
      filter_mset (\<lambda>f. is_resolved res f \<and> \<not> is_classified f) (mset fills)"
    by (induction fills) (auto simp: survives_def)
  ultimately show "mset (concat ?gs) + mset (dv_unresolved (derive_events e fills res)) +
       mset (dv_unclassified (derive_events e fills res)) = mset (map fill_key_of fills)"
    by (metis (no_types, lifting) derive_events_eq derivation.select_convs(2,3) image_mset_union mset_filter mset_map)
qed


section \<open>The shape of an event\<close>

text \<open>
  C25: The shape of a derived event. It belongs to a non-empty group \<open>g\<close> that is exactly the fills of one
  broker order resolved to its position and classified into its role; its time is the earliest execution
  time among them; an OPEN carries the net debit and no credit, a CLOSE the net credit and no debit; the
  commission is always absent; and the events come sorted by position, type and hash.
\<close>

theorem derive_events_shape:
  assumes "v \<in> set (dv_events (derive_events e fills res))"
  shows "(\<exists>order_id g. g = filter (\<lambda>f. res_get res (fill_key_of f) = Some (v_position_id v) \<and>
        classify_fill (fr_position_effect f) = (if v_event_type v = TypeOpen then RoleOpen else RoleClose) \<and>
        fr_order_id f = order_id) fills \<and> g \<noteq> [] \<and>
      (\<exists>f. f \<in> set g \<and> v_event_time v = fr_execution_time f) \<and>
      list_all (\<lambda>f. v_event_time v \<le> fr_execution_time f) g \<and>
      v_fill_ids_hash v = hash_fill_ids e (map fill_key_of g) \<and>
      (v_open_debit_usd v, v_close_credit_usd v) =
        (if v_event_type v = TypeOpen then (net_amount g TypeOpen, None) else (None, net_amount g TypeClose)) \<and>
      v_commission_usd v = None) \<and>
    sorted (map event_sort_key (dv_events (derive_events e fills res)))"
proof (rule conjI)
  from assms obtain p role ord g where m: "((p, role, ord), g) \<in> set (fill_groups res fills)"
    and v: "v = event_of_group e ((p, role, ord), g)"
    by (auto simp: derive_events_eq)
  from m have g: "g = filter (\<lambda>f. survives res f \<and> group_key_of res f = (p, role, ord)) fills"
    and ex: "\<exists>f \<in> set fills. survives res f \<and> group_key_of res f = (p, role, ord)"
    by (simp_all add: fill_groups_mem)
  from ex have role: "role = RoleOpen \<or> role = RoleClose"
    by (cases role) (auto simp: survives_def is_classified_def group_key_of_def)
  have "survives res f \<and> group_key_of res f = (p, role, ord) \<longleftrightarrow>
      res_get res (fill_key_of f) = Some p \<and> classify_fill (fr_position_effect f) = role \<and>
      fr_order_id f = ord" for f
    using role by (auto simp: survives_def is_resolved_def is_classified_def group_key_of_def)
  then have g': "g = filter (\<lambda>f. res_get res (fill_key_of f) = Some p \<and>
      classify_fill (fr_position_effect f) = role \<and> fr_order_id f = ord) fills"
    using g by simp
  have ne: "g \<noteq> []" using m by (auto simp: fill_groups_def dest: group_by_nonempty)
  have min: "Min (set (map fr_execution_time g)) \<in> set (map fr_execution_time g)"
    using ne by (intro Min_in) simp_all
  have le: "list_all (\<lambda>f. Min (set (map fr_execution_time g)) \<le> fr_execution_time f) g"
    by (simp add: list_all_iff)
  show "\<exists>order_id g. g = filter (\<lambda>f. res_get res (fill_key_of f) = Some (v_position_id v) \<and>
        classify_fill (fr_position_effect f) = (if v_event_type v = TypeOpen then RoleOpen else RoleClose) \<and>
        fr_order_id f = order_id) fills \<and> g \<noteq> [] \<and>
      (\<exists>f. f \<in> set g \<and> v_event_time v = fr_execution_time f) \<and>
      list_all (\<lambda>f. v_event_time v \<le> fr_execution_time f) g \<and>
      v_fill_ids_hash v = hash_fill_ids e (map fill_key_of g) \<and>
      (v_open_debit_usd v, v_close_credit_usd v) =
        (if v_event_type v = TypeOpen then (net_amount g TypeOpen, None) else (None, net_amount g TypeClose)) \<and>
      v_commission_usd v = None"
    using role
  proof
    assume "role = RoleOpen"
    with g' ne min le show ?thesis
      by (intro exI [of _ ord] exI [of _ g]) (auto simp: v event_of_group_def Let_def)
  next
    assume "role = RoleClose"
    with g' ne min le show ?thesis
      by (intro exI [of _ ord] exI [of _ g]) (auto simp: v event_of_group_def Let_def)
  qed
  show "sorted (map event_sort_key (dv_events (derive_events e fills res)))"
    by (simp add: derive_events_eq)
qed


section \<open>Order by order\<close>

lemma filter_keys_split:
  assumes "\<And>x. x \<in> set xs \<Longrightarrow> W (key x) = P x"
  shows "mset (group_by key xs) =
    mset (group_by key (filter P xs)) + mset (group_by key (filter (\<lambda>x. \<not> P x) xs))"
proof -
  have all: "mset (group_by key ys) = image_mset (\<lambda>k. (k, filter (\<lambda>x. key x = k) ys)) (mset_set (key ` set ys))"
    for ys :: "'a list"
  proof -
    have "mset (firsts (map key ys)) = mset_set (key ` set ys)"
      by (metis distinct_firsts mset_set_set set_firsts set_map)
    then show ?thesis by (simp add: group_by_map)
  qed
  have split: "key ` set xs = key ` set (filter P xs) \<union> key ` set (filter (\<lambda>x. \<not> P x) xs)"
    by auto
  have disj: "key ` set (filter P xs) \<inter> key ` set (filter (\<lambda>x. \<not> P x) xs) = {}"
  proof -
    have "key x \<noteq> key y" if "x \<in> set xs" "P x" "y \<in> set xs" "\<not> P y" for x y
      using assms that by metis
    then show ?thesis by auto
  qed
  have in1: "filter (\<lambda>x. key x = k) xs = filter (\<lambda>x. key x = k) (filter P xs)"
    if "k \<in> key ` set (filter P xs)" for k
  proof -
    from that have "W k" using assms by auto
    then show ?thesis using assms by (auto intro!: filter_cong)
  qed
  have in2: "filter (\<lambda>x. key x = k) xs = filter (\<lambda>x. key x = k) (filter (\<lambda>x. \<not> P x) xs)"
    if "k \<in> key ` set (filter (\<lambda>x. \<not> P x) xs)" for k
  proof -
    from that have "\<not> W k" using assms by auto
    then show ?thesis using assms by (auto intro!: filter_cong)
  qed
  have "mset_set (key ` set xs) = mset_set (key ` set (filter P xs)) +
      mset_set (key ` set (filter (\<lambda>x. \<not> P x) xs))"
    using split disj by (simp add: mset_set_Union)
  then have "mset (group_by key xs) =
      image_mset (\<lambda>k. (k, filter (\<lambda>x. key x = k) xs)) (mset_set (key ` set (filter P xs))) +
      image_mset (\<lambda>k. (k, filter (\<lambda>x. key x = k) xs)) (mset_set (key ` set (filter (\<lambda>x. \<not> P x) xs)))"
    unfolding all by (simp only: image_mset_union)
  also have "image_mset (\<lambda>k. (k, filter (\<lambda>x. key x = k) xs)) (mset_set (key ` set (filter P xs))) =
      mset (group_by key (filter P xs))"
    unfolding all by (rule image_mset_cong) (use in1 in force)
  also have "image_mset (\<lambda>k. (k, filter (\<lambda>x. key x = k) xs)) (mset_set (key ` set (filter (\<lambda>x. \<not> P x) xs))) =
      mset (group_by key (filter (\<lambda>x. \<not> P x) xs))"
    unfolding all by (rule image_mset_cong) (use in2 in force)
  finally show ?thesis .
qed

text \<open>
  Deriving over a scope of orders. Split the fills by any condition on their order id: the events of
  the whole sweep are those of the one part and those of the other, none changed, none lost. So a
  re-derivation over some orders yields the rows a full sweep has for them.
\<close>

theorem derive_events_by_order:
  "mset (dv_events (derive_events e fills res)) =
     mset (dv_events (derive_events e (filter (\<lambda>f. W (fr_order_id f)) fills) res)) +
     mset (dv_events (derive_events e (filter (\<lambda>f. \<not> W (fr_order_id f)) fills) res))"
proof -
  let ?key = "group_key_of res" and ?xs = "filter (survives res) fills"
  have "mset (group_by ?key ?xs) = mset (group_by ?key (filter (\<lambda>f. W (fr_order_id f)) ?xs)) +
      mset (group_by ?key (filter (\<lambda>f. \<not> W (fr_order_id f)) ?xs))"
    by (rule filter_keys_split [where W = "\<lambda>(p, r, ord). W ord"]) (simp add: group_key_of_def)
  then show ?thesis
    by (simp add: mset_derived fill_groups_def conj_commute)
qed


section \<open>The digest of an event's fills\<close>

lemma join_map_join:
  "\<forall>ys \<in> set xss. ys \<noteq> [] \<Longrightarrow> join c (map (join c) xss) = join c (concat xss)"
proof (induction xss)
  case (Cons ys xss)
  from Cons have ih: "join c (map (join c) xss) = join c (concat xss)" by simp
  show ?case
  proof (cases xss)
    case (Cons zs zss)
    with Cons.prems have "concat xss \<noteq> []" "ys \<noteq> []" by auto
    with ih Cons show ?thesis by (simp add: join_append)
  qed simp
qed simp

lemma concat_inject_same_length:
  "\<forall>x \<in> set xs. length x = n \<Longrightarrow> \<forall>y \<in> set ys. length y = n \<Longrightarrow> 0 < n \<Longrightarrow>
   concat xs = concat ys \<Longrightarrow> xs = ys"
proof (induction xs arbitrary: ys)
  case Nil
  then show ?case by (cases ys) auto
next
  case (Cons x xs)
  have "ys \<noteq> []" using Cons.prems(1,3,4) by (cases x) auto
  then obtain y ys' where ys: "ys = y # ys'" by (cases ys) simp_all
  with Cons.prems have "length x = length y" "x @ concat xs = y @ concat ys'" by simp_all
  then have "x = y" "concat xs = concat ys'" by simp_all
  moreover from this Cons.prems ys have "xs = ys'" by (intro Cons.IH) simp_all
  ultimately show ?case using ys by simp
qed

definition key_parts :: "fill_key \<Rightarrow> string list" where
  "key_parts = (\<lambda>(order_id, occ_symbol, leg_index, execution_time).
     [order_id, occ_symbol, show_int leg_index, show_int (epoch_micros execution_time)])"

lemma render_key_parts: "render_key k = join '':'' (key_parts k)"
  by (cases k) (simp add: render_key_def key_parts_def)

text \<open>A key without separators in its texts, and what is left of it once its time is rendered.\<close>

definition colon_free :: "fill_key \<Rightarrow> bool" where
  "colon_free = (\<lambda>(order_id, occ_symbol, leg_index, execution_time).
     CHR '':'' \<notin> set order_id \<and> CHR '':'' \<notin> set occ_symbol)"

definition rendered_key :: "fill_key \<Rightarrow> string \<times> string \<times> int \<times> int" where
  "rendered_key = (\<lambda>(order_id, occ_symbol, leg_index, execution_time).
     (order_id, occ_symbol, leg_index, epoch_micros execution_time))"

lemma key_parts_facts:
  "length (key_parts k) = 4" "key_parts k \<noteq> []"
  "key_parts k = key_parts k' \<longleftrightarrow> rendered_key k = rendered_key k'"
  "colon_free k \<Longrightarrow> \<forall>x \<in> set (key_parts k). CHR '':'' \<notin> set x"
proof -
  have int: "CHR '':'' \<notin> set (show_int i)" for i
    using show_int_chars [of "CHR '':''" i] by (auto simp: is_digit_def)
  show "length (key_parts k) = 4" "key_parts k \<noteq> []"
    "key_parts k = key_parts k' \<longleftrightarrow> rendered_key k = rendered_key k'"
    "colon_free k \<Longrightarrow> \<forall>x \<in> set (key_parts k). CHR '':'' \<notin> set x"
    by (auto simp: key_parts_def rendered_key_def colon_free_def int split: prod.splits)
qed

lemma render_key_inject:
  assumes "colon_free k" "colon_free k'"
  shows "render_key k = render_key k' \<longleftrightarrow> rendered_key k = rendered_key k'"
proof
  assume "render_key k = render_key k'"
  then have "key_parts k = key_parts k'"
    unfolding render_key_parts
    by (rule join_inject) (use assms key_parts_facts in auto)
  then show "rendered_key k = rendered_key k'" by (simp add: key_parts_facts)
next
  assume "rendered_key k = rendered_key k'"
  then have "key_parts k = key_parts k'" by (simp only: key_parts_facts)
  then show "render_key k = render_key k'" by (simp only: render_key_parts)
qed

lemma map_key_parts: "map key_parts ks = map key_parts ks' \<Longrightarrow> map rendered_key ks = map rendered_key ks'"
proof (induction ks arbitrary: ks')
  case (Cons k ks)
  then obtain j js where "ks' = j # js" by (cases ks') simp_all
  with Cons show ?case by (simp add: key_parts_facts)
qed simp

lemma sort_mset_cong: "mset xs = mset ys \<Longrightarrow> sort xs = sort ys"
  by (rule properties_for_sort) simp_all

lemma joined_render_inject:
  assumes "ks \<noteq> []" "ks' \<noteq> []" "\<forall>k \<in> set ks. colon_free k" "\<forall>k \<in> set ks'. colon_free k"
    and "join '':'' (map render_key ks) = join '':'' (map render_key ks')"
  shows "map rendered_key ks = map rendered_key ks'"
proof -
  have "join '':'' (map render_key js) = join '':'' (concat (map key_parts js))" for js
    using join_map_join [of "map key_parts js" "'':''"] key_parts_facts(2)
    by (simp add: render_key_parts [abs_def] o_def)
  with assms(5) have "join '':'' (concat (map key_parts ks)) = join '':'' (concat (map key_parts ks'))"
    by simp
  moreover have "concat (map key_parts js) \<noteq> []" if "js \<noteq> []" for js
    using that key_parts_facts(2) by (cases js) simp_all
  moreover have "\<forall>x \<in> set (concat (map key_parts js)). CHR '':'' \<notin> set x"
    if "\<forall>k \<in> set js. colon_free k" for js
    using that key_parts_facts(4) by auto
  ultimately have "concat (map key_parts ks) = concat (map key_parts ks')"
    using assms(1-4) by (intro join_inject [where c = "CHR '':''"]) simp_all
  then have "map key_parts ks = map key_parts ks'"
    by (rule concat_inject_same_length [of _ 4, rotated 3]) (auto simp: key_parts_facts)
  then show ?thesis by (rule map_key_parts)
qed

text \<open>
  The digest identifies the fills of an event. It does not depend on their order, and two non-empty
  sets of fills with colon-free texts have the same digest only if they are the same multiset of
  (order, symbol, leg, rendered time), SHA-256 not colliding on the two texts hashed.
\<close>

theorem hash_fill_ids_identifies:
  assumes "ks \<noteq> []" "ks' \<noteq> []" "\<forall>k \<in> set ks. colon_free k" "\<forall>k \<in> set ks'. colon_free k"
    and "inj_on (sha256_hex e) {join '':'' (sort (map render_key ks)), join '':'' (sort (map render_key ks'))}"
  shows "hash_fill_ids e ks = hash_fill_ids e ks' \<longleftrightarrow>
    mset (map rendered_key ks) = mset (map rendered_key ks')"
proof
  assume "hash_fill_ids e ks = hash_fill_ids e ks'"
  then have j: "join '':'' (sort (map render_key ks)) = join '':'' (sort (map render_key ks'))"
    using assms(5) unfolding hash_fill_ids_def Let_def by (auto dest: inj_onD)
  have s: "sort (map render_key js) = map render_key (sort_key render_key js)" for js
    by (rule properties_for_sort) simp_all
  have "map rendered_key (sort_key render_key ks) = map rendered_key (sort_key render_key ks')"
    by (rule joined_render_inject)
      (use assms j in \<open>simp_all add: s flip: length_0_conv [of "sort_key render_key ks" for ks]\<close>)
  then show "mset (map rendered_key ks) = mset (map rendered_key ks')"
    by (metis mset_map mset_sort)
next
  assume m: "mset (map rendered_key ks) = mset (map rendered_key ks')"
  define g where "g = (\<lambda>(ord, sym, i, t). join '':'' [ord, sym, show_int i, show_int t])"
  have "render_key = g \<circ> rendered_key"
    by (auto simp: g_def render_key_def rendered_key_def fun_eq_iff)
  then have g: "mset (map render_key js) = image_mset g (mset (map rendered_key js))" for js
    by (simp add: multiset.map_comp)
  have "mset (map render_key ks) = mset (map render_key ks')"
    unfolding g m ..
  from sort_mset_cong [OF this] show "hash_fill_ids e ks = hash_fill_ids e ks'"
    by (simp only: hash_fill_ids_def Let_def)
qed

theorem hash_fill_ids_identifies_witness:
  "hash_fill_ids demo_env [(''1'', ''S'', 0, 5), (''1'', ''T'', 1, 5)] =
     hash_fill_ids demo_env [(''1'', ''T'', 1, 5), (''1'', ''S'', 0, 5)] \<and>
   hash_fill_ids demo_env [(''1'', ''S'', 0, 5)] \<noteq> hash_fill_ids demo_env [(''2'', ''S'', 0, 5)]"
  using hash_fill_ids_identifies [of "[(''1'', ''S'', 0, 5), (''1'', ''T'', 1, 5)]"
      "[(''1'', ''T'', 1, 5), (''1'', ''S'', 0, 5)]" demo_env]
    hash_fill_ids_identifies [of "[(''1'', ''S'', 0, 5)]" "[(''2'', ''S'', 0, 5)]" demo_env]
  by (simp add: colon_free_def rendered_key_def demo_env_def inj_on_def)

end
