(* ===== verification/Net_Amounts.thy ===== *)
theory Net_Amounts
  imports Pairing_Laws
begin

text \<open>
  The money side of \<open>derive_events\<close>: a gap in one leg is a gap in the event, an amount without a gap
  is the exact signed sum, and neither depends on the order in which fills were read.
\<close>

lemma signed_leg_amount_None:
  "signed_leg_amount f t = None \<longleftrightarrow>
     fr_quantity f = None \<or> fr_price_usd f = None \<or> fr_side f \<notin> {''BUY'', ''SELL''}"
  by (auto simp: signed_leg_amount_def Let_def split: option.splits)

lemma net_amount_from_sum:
  "net_amount_from x fs t =
     (if list_ex (\<lambda>f. signed_leg_amount f t = None) fs then None
      else Some (foldl dec_add x (map (\<lambda>f. the (signed_leg_amount f t)) fs)))"
  by (induction x fs t rule: net_amount_from.induct) (auto split: option.split)

lemma net_amount_sum:
  "net_amount fs t =
     (if list_ex (\<lambda>f. signed_leg_amount f t = None) fs then None
      else Some (dec_sum (map (\<lambda>f. the (signed_leg_amount f t)) fs)))"
  by (simp add: net_amount_def net_amount_from_sum dec_sum_def)

text \<open>
  A gap stays a gap. An event has a net amount exactly when every fill of it has a quantity, a price
  and a side BUY or SELL; with one of them missing the amount is absent, never partly computed.
\<close>

theorem net_amount_gap:
  "net_amount fs t \<noteq> None \<longleftrightarrow>
     list_all (\<lambda>f. fr_quantity f \<noteq> None \<and> fr_price_usd f \<noteq> None \<and> fr_side f \<in> {''BUY'', ''SELL''}) fs"
  by (auto simp: net_amount_sum list_ex_iff list_all_iff signed_leg_amount_None)

text \<open>The signed amount as a rational number.\<close>

definition leg_value :: "event_type \<Rightarrow> fill_record \<Rightarrow> rat" where
  "leg_value t f = (let v = dec_val (the (fr_price_usd f)) * dec_val (the (fr_quantity f))
     in if fr_side f = (if t = TypeOpen then ''BUY'' else ''SELL'') then v else - v)"

text \<open>The context's 28 digits suffice: each product, and the absolute sum at \<open>k\<close> decimals.\<close>

definition amounts_fit :: "nat \<Rightarrow> event_type \<Rightarrow> fill_record list \<Rightarrow> bool" where
  "amounts_fit k t fs \<longleftrightarrow>
     list_all (\<lambda>f. dcoeff (the (fr_price_usd f)) * dcoeff (the (fr_quantity f)) < 10 ^ dec_prec) fs \<and>
     sum_fits k (map (\<lambda>f. the (signed_leg_amount f t)) fs)"

lemma signed_leg_amount_val:
  assumes "signed_leg_amount f t \<noteq> None"
    and "dcoeff (the (fr_price_usd f)) * dcoeff (the (fr_quantity f)) < 10 ^ dec_prec"
  shows "dec_val (the (signed_leg_amount f t)) = leg_value t f"
proof -
  obtain q p where q: "fr_quantity f = Some q" and p: "fr_price_usd f = Some p"
    and side: "fr_side f = ''BUY'' \<or> fr_side f = ''SELL''"
    using assms(1) by (auto simp: signed_leg_amount_None)
  have small: "dcoeff (dec_mul p q) < 10 ^ dec_prec"
    using assms(2) q p by (simp add: dec_mul_def dec_fix_id)
  have m: "dec_val (dec_mul p q) = dec_val p * dec_val q" "dec_val (dec_neg (dec_mul p q)) = - (dec_val p * dec_val q)"
    using assms(2) q p small by (simp_all add: dec_mul_exact dec_neg_exact)
  from side show ?thesis
    by (auto simp: signed_leg_amount_def leg_value_def q p m Let_def)
qed

text \<open>
  An amount without a gap is exact. When every leg has its quantity, price and side and the digits
  fit the context, the net amount is the exact signed sum of price times quantity: buys minus sells for
  an OPEN, sells minus buys for a CLOSE.
\<close>

theorem net_amount_exact:
  assumes "list_all (\<lambda>f. signed_leg_amount f t \<noteq> None) fs" and "amounts_fit k t fs"
  shows "\<exists>x. net_amount fs t = Some x \<and> dec_val x = (\<Sum>f \<leftarrow> fs. leg_value t f)"
proof -
  let ?ds = "map (\<lambda>f. the (signed_leg_amount f t)) fs"
  have "net_amount fs t = Some (dec_sum ?ds)"
    using assms(1) by (auto simp: net_amount_sum list_all_iff list_ex_iff)
  moreover have "dec_val (dec_sum ?ds) = (\<Sum>d \<leftarrow> ?ds. dec_val d)"
    using assms(2) unfolding amounts_fit_def by (metis dec_sum_total dec_total_val)
  moreover have "(\<Sum>d \<leftarrow> ?ds. dec_val d) = (\<Sum>f \<leftarrow> fs. leg_value t f)"
    using assms by (induction fs)
      (auto simp: amounts_fit_def signed_leg_amount_val sum_fits_def)
  ultimately show ?thesis by simp
qed

text \<open>Two legs of a calendar: buy 3 at 12.50, sell 3 at 8.25.\<close>

definition demo_leg :: "string \<Rightarrow> pydec \<Rightarrow> fill_record" where
  "demo_leg side price = \<lparr>fr_user_id = demo_user, fr_order_id = ''1006'', fr_occ_symbol = side,
     fr_leg_index = 0, fr_execution_time = 5, fr_position_effect = ''OPENING'', fr_side = side,
     fr_quantity = Some (Dec False 3 0), fr_price_usd = Some price, fr_key_version = 1\<rparr>"

definition demo_legs :: "fill_record list" where
  "demo_legs = [demo_leg ''BUY'' (Dec False 1250 (-2)), demo_leg ''SELL'' (Dec False 825 (-2))]"

lemma demo_amounts: "map (\<lambda>f. the (signed_leg_amount f TypeOpen)) demo_legs =
    [Dec False 3750 (-2), Dec True 2475 (-2)]"
  by (simp add: demo_legs_def demo_leg_def signed_leg_amount_def Let_def dec_mul_def dec_neg_def
      dec_fix_id dec_prec_def)

lemma demo_legs_fit: "amounts_fit 2 TypeOpen demo_legs"
  unfolding amounts_fit_def demo_amounts
  by (simp add: sum_fits_def dec_scaled_def dec_prec_def demo_legs_def demo_leg_def)

lemma demo_legs_amounts: "list_all (\<lambda>f. signed_leg_amount f TypeOpen \<noteq> None) demo_legs"
  by (simp add: demo_legs_def demo_leg_def signed_leg_amount_None)

theorem net_amount_exact_witness:
  "\<exists>x. net_amount demo_legs TypeOpen = Some x \<and> dec_val x = 1275 / 100"
proof -
  have "(\<Sum>f \<leftarrow> demo_legs. leg_value TypeOpen f) = 1275 / 100"
    by (simp add: demo_legs_def demo_leg_def leg_value_def dec_val_def power_int_minus)
  with net_amount_exact [OF demo_legs_amounts demo_legs_fit] show ?thesis by auto
qed


section \<open>Independence of the order of the fills\<close>

lemma net_amount_mset:
  assumes "mset fs = mset gs" "amounts_fit k t fs \<or> list_ex (\<lambda>f. signed_leg_amount f t = None) fs"
  shows "net_amount fs t = net_amount gs t"
proof (cases "list_ex (\<lambda>f. signed_leg_amount f t = None) fs")
  case True
  with mset_eq_setD [OF assms(1)] show ?thesis by (simp add: net_amount_sum list_ex_iff)
next
  case False
  let ?a = "map (\<lambda>f. the (signed_leg_amount f t))"
  have m: "mset (?a fs) = mset (?a gs)" using assms(1) by simp
  from False assms(2) have f: "sum_fits k (?a fs)" by (simp add: amounts_fit_def)
  then have g: "sum_fits k (?a gs)" by (simp only: sum_fits_mset [OF m])
  from f g have "dec_sum (?a fs) = dec_sum (?a gs)"
    by (simp only: dec_sum_total dec_total_mset [OF m])
  moreover from False have "\<not> list_ex (\<lambda>f. signed_leg_amount f t = None) gs"
    using mset_eq_setD [OF assms(1)] by (simp add: list_ex_iff)
  ultimately show ?thesis using False by (simp add: net_amount_sum)
qed

definition group_fits :: "nat \<Rightarrow> group_key \<times> fill_record list \<Rightarrow> bool" where
  "group_fits k = (\<lambda>((p, role, ord), g).
     let t = (if role = RoleOpen then TypeOpen else TypeClose)
     in amounts_fit k t g \<or> list_ex (\<lambda>f. signed_leg_amount f t = None) g)"

lemma event_of_group_mset:
  assumes "mset g = mset g'" "group_fits k (key, g)"
  shows "event_of_group e (key, g) = event_of_group e (key, g')"
proof -
  obtain p role ord where key: "key = (p, role, ord)" by (cases key)
  let ?t = "if role = RoleOpen then TypeOpen else TypeClose"
  have "net_amount g ?t = net_amount g' ?t"
    using assms by (intro net_amount_mset) (simp_all add: group_fits_def key Let_def)
  moreover have "hash_fill_ids e (map fill_key_of g) = hash_fill_ids e (map fill_key_of g')"
  proof -
    have "mset (map render_key (map fill_key_of g)) = mset (map render_key (map fill_key_of g'))"
      using assms(1) by simp
    from sort_mset_cong [OF this] show ?thesis by (simp only: hash_fill_ids_def Let_def)
  qed
  moreover have "set g = set g'" using assms(1) by (rule mset_eq_setD)
  ultimately show ?thesis by (cases "role = RoleOpen") (simp_all add: event_of_group_def key Let_def)
qed

lemma fill_groups_keys: "mset (fill_groups res fs) =
    image_mset (\<lambda>k. (k, filter (\<lambda>f. survives res f \<and> group_key_of res f = k) fs))
      (mset_set (group_key_of res ` set (filter (survives res) fs)))"
proof -
  let ?xs = "filter (survives res) fs"
  have "mset (firsts (map (group_key_of res) ?xs)) = mset_set (group_key_of res ` set ?xs)"
    by (metis distinct_firsts mset_set_set set_firsts set_map)
  then show ?thesis by (simp add: fill_groups_def group_by_map conj_commute)
qed

text \<open>
  C26: The derivation does not depend on the order in which fills are read. Permuting the fills gives the
  same events (amounts down to their digits, for groups within the context's precision), the same
  unresolved and the same unclassified fills.
\<close>

theorem derive_events_permute:
  assumes "mset fs = mset gs" and "\<forall>g \<in> set (fill_groups res fs). group_fits k g"
  shows "mset (dv_events (derive_events e fs res)) = mset (dv_events (derive_events e gs res)) \<and>
    mset (dv_unresolved (derive_events e fs res)) = mset (dv_unresolved (derive_events e gs res)) \<and>
    mset (dv_unclassified (derive_events e fs res)) = mset (dv_unclassified (derive_events e gs res))"
proof -
  let ?P = "\<lambda>key f. survives res f \<and> group_key_of res f = key"
  have keys: "group_key_of res ` set (filter (survives res) fs) =
      group_key_of res ` set (filter (survives res) gs)"
    using mset_eq_setD [OF assms(1)] by auto
  have ev: "event_of_group e (key, filter (?P key) fs) = event_of_group e (key, filter (?P key) gs)"
    if "key \<in> group_key_of res ` set (filter (survives res) fs)" for key
  proof (rule event_of_group_mset)
    show "mset (filter (?P key) fs) = mset (filter (?P key) gs)"
      using assms(1) by simp
    have "(key, filter (?P key) fs) \<in> set (fill_groups res fs)"
      using that by (auto simp: fill_groups_mem)
    with assms(2) show "group_fits k (key, filter (?P key) fs)" by blast
  qed
  have "mset (dv_events (derive_events e fs res)) = mset (dv_events (derive_events e gs res))"
    unfolding mset_derived fill_groups_keys multiset.map_comp keys [symmetric]
    by (rule image_mset_cong) (use ev in force)
  moreover have "mset (dv_unresolved (derive_events e fs res)) = mset (dv_unresolved (derive_events e gs res))"
    "mset (dv_unclassified (derive_events e fs res)) = mset (dv_unclassified (derive_events e gs res))"
    using assms(1) by (simp_all add: derive_events_eq)
  ultimately show ?thesis by simp
qed

definition demo_res :: resolutions where
  "demo_res = (\<lambda>k. Some (Some 9))"

lemma demo_groups: "fill_groups demo_res demo_legs = [((9, RoleOpen, ''1006''), demo_legs)]"
  by (simp add: fill_groups_def demo_legs_def demo_leg_def survives_def is_resolved_def res_get_def
      demo_res_def is_classified_def classify_fill_def group_by_def group_key_of_def)

theorem derive_events_permute_witness:
  "mset (dv_events (derive_events demo_env demo_legs demo_res)) =
     mset (dv_events (derive_events demo_env (rev demo_legs) demo_res)) \<and>
   size (mset (dv_events (derive_events demo_env demo_legs demo_res))) = 1"
proof -
  have fits: "\<forall>g \<in> set (fill_groups demo_res demo_legs). group_fits 2 g"
    using demo_legs_fit by (simp add: demo_groups group_fits_def)
  have m: "mset demo_legs = mset (rev demo_legs)" by simp
  have "size (mset (dv_events (derive_events demo_env demo_legs demo_res))) = 1"
    by (simp add: mset_derived demo_groups)
  with derive_events_permute [OF m fits, of demo_env] show ?thesis by blast
qed

text \<open>The demonstration's one order gives one OPEN event.\<close>

definition demo_opened :: derived_event where
  "demo_opened = event_of_group demo_env ((9, RoleOpen, ''1006''), demo_legs)"

theorem derive_events_shape_witness:
  "\<exists>order_id g. g = filter (\<lambda>f. res_get demo_res (fill_key_of f) = Some (v_position_id demo_opened) \<and>
      classify_fill (fr_position_effect f) = RoleOpen \<and> fr_order_id f = order_id) demo_legs \<and> g \<noteq> [] \<and>
    v_open_debit_usd demo_opened = net_amount g TypeOpen"
proof -
  have "demo_opened \<in> set (dv_events (derive_events demo_env demo_legs demo_res))"
    by (simp add: derive_events_eq demo_groups demo_opened_def)
  moreover have "v_event_type demo_opened = TypeOpen"
    by (simp add: demo_opened_def event_of_group_def Let_def)
  ultimately show ?thesis
    using derive_events_shape [of demo_opened demo_env demo_legs demo_res] by auto
qed

end
