(* ===== verification/Resolve.thy ===== *)
theory Resolve
  imports Pairing Demo_World
begin

text \<open>
  \<open>RESOLVE_FILL_POSITIONS_SQL\<close> and \<open>resolve_fill_positions\<close> of \<open>ledger/pairing.py\<close>, one definition
  per common table expression, and the declarative meaning of the query: a fill resolves to a position
  exactly when, among the positions holding its contract, exactly one is anchored by its order.
\<close>

section \<open>The query\<close>

text \<open>A row of \<open>fill_candidates\<close>: user, order, symbol, leg index, time, position.\<close>

type_synonym candidate = "uuid \<times> string \<times> string \<times> int \<times> datetime \<times> uuid"

definition fill_candidates :: "leg_row list \<Rightarrow> fill_row list \<Rightarrow> candidate list" where
  "fill_candidates position_legs fills =
     concat (map (\<lambda>f. map (\<lambda>pl. (f_user_id f, f_order_id f, f_occ_symbol f, f_leg_index f,
                             f_execution_time f, l_position_id pl))
       (filter (\<lambda>pl. l_user_id pl = f_user_id f \<and> l_occ_symbol pl = f_occ_symbol f) position_legs)) fills)"

definition cd_order :: "candidate \<Rightarrow> uuid \<times> string \<times> string" where
  "cd_order = (\<lambda>(u, ord, oc, i, t, p). (u, ord, oc))"

definition cd_fill :: "candidate \<Rightarrow> uuid \<times> string \<times> string \<times> int \<times> datetime" where
  "cd_fill = (\<lambda>(u, ord, oc, i, t, p). (u, ord, oc, i, t))"

definition cd_position :: "candidate \<Rightarrow> uuid" where
  "cd_position = (\<lambda>(u, ord, oc, i, t, p). p)"

text \<open>\<open>MIN(position_id::text)::uuid\<close> of a non-empty group.\<close>

definition pg_min_uuid :: "uuid list \<Rightarrow> uuid" where
  "pg_min_uuid ps = the (uuid_of_text (Min (set (map uuid_str ps))))"

definition anchors :: "candidate list \<Rightarrow> (uuid \<times> string \<times> string \<times> uuid) list" where
  "anchors cs =
     map (\<lambda>((u, ord, oc), g). (u, ord, oc, pg_min_uuid (map cd_position g)))
       (filter (\<lambda>(k, g). length (remdups (map cd_position g)) = 1) (group_by cd_order cs))"

definition order_anchors :: "candidate list \<Rightarrow> (uuid \<times> string \<times> uuid) list" where
  "order_anchors cs = remdups (map (\<lambda>(u, ord, oc, p). (u, ord, p)) (anchors cs))"

text \<open>The scalar subquery: one surviving anchor, or NULL.\<close>

definition resolved_position_id ::
    "candidate list \<Rightarrow> uuid \<times> string \<times> string \<times> int \<times> datetime \<Rightarrow> uuid option" where
  "resolved_position_id cs fc =
     (let holders = map cd_position (filter (\<lambda>c. cd_fill c = fc) cs);
          oa = filter (\<lambda>(u, ord, p). u = fst fc \<and> ord = fst (snd fc) \<and> p \<in> set holders) (order_anchors cs)
      in if length oa = 1 then Some (pg_min_uuid (map (\<lambda>(u, ord, p). p) oa)) else None)"

definition resolution_rows :: "leg_row list \<Rightarrow> fill_row list \<Rightarrow> (fill_key \<times> uuid option) list" where
  "resolution_rows position_legs fills =
     (let cs = fill_candidates position_legs fills
      in map (\<lambda>fc. (snd fc, resolved_position_id cs fc)) (firsts (map cd_fill cs)))"

text \<open>\<open>resolutions[key] = ...\<close>, row by row.\<close>

definition resolutions_of :: "(fill_key \<times> uuid option) list \<Rightarrow> resolutions" where
  "resolutions_of rows = fold (\<lambda>(key, p) m. m(key \<mapsto> p)) rows (\<lambda>_. None)"

definition resolve_fill_positions :: "uuid \<Rightarrow> resolutions op" where
  "resolve_fill_positions user_id =
     op_bind (sel legs_table (\<lambda>l. l_user_id l = user_id)) (\<lambda>position_legs.
     op_bind (sel fills_table (\<lambda>f. f_user_id f = user_id)) (\<lambda>fills.
     ret (resolutions_of (resolution_rows position_legs fills))))"


section \<open>What the query means\<close>

text \<open>The positions holding a contract, and those an order anchors: some fill of it has no other.\<close>

definition holding :: "leg_row list \<Rightarrow> string \<Rightarrow> uuid set" where
  "holding legs oc = {l_position_id l | l. l \<in> set legs \<and> l_occ_symbol l = oc}"

definition anchored :: "leg_row list \<Rightarrow> fill_row list \<Rightarrow> string \<Rightarrow> uuid set" where
  "anchored legs fills ord = {p. \<exists>f \<in> set fills. f_order_id f = ord \<and> holding legs (f_occ_symbol f) = {p}}"

definition row_fill_key :: "fill_row \<Rightarrow> fill_key" where
  "row_fill_key f = (f_order_id f, f_occ_symbol f, f_leg_index f, f_execution_time f)"

lemma pg_min_uuid_const: "set ps = {p} \<Longrightarrow> pg_min_uuid ps = p"
  by (simp add: pg_min_uuid_def)

lemma length_remdups_1: "length (remdups xs) = 1 \<longleftrightarrow> (\<exists>x. set xs = {x})"
  by (simp add: length_remdups_card_conv card_1_singleton_iff)

text \<open>Legs and fills of one user: what the two \<open>WHERE user_id = :user_id\<close> leave.\<close>

definition of_user :: "uuid \<Rightarrow> leg_row list \<Rightarrow> fill_row list \<Rightarrow> bool" where
  "of_user u legs fills \<longleftrightarrow> (\<forall>l \<in> set legs. l_user_id l = u) \<and> (\<forall>f \<in> set fills. f_user_id f = u)"

lemma candidate_mem: "of_user u legs fills \<Longrightarrow> (v, ord, oc, i, t, p) \<in> set (fill_candidates legs fills) \<longleftrightarrow>
    v = u \<and> (\<exists>f \<in> set fills. row_fill_key f = (ord, oc, i, t)) \<and> p \<in> holding legs oc"
proof -
  assume a: "of_user u legs fills"
  have "(v, ord, oc, i, t, p) \<in> set (fill_candidates legs fills) \<longleftrightarrow>
      (\<exists>f \<in> set fills. \<exists>l \<in> set legs. l_user_id l = f_user_id f \<and> l_occ_symbol l = f_occ_symbol f \<and>
         f_user_id f = v \<and> row_fill_key f = (ord, oc, i, t) \<and> l_position_id l = p)"
    by (auto simp: fill_candidates_def row_fill_key_def)
  also have "\<dots> \<longleftrightarrow> v = u \<and> (\<exists>f \<in> set fills. row_fill_key f = (ord, oc, i, t)) \<and>
      (\<exists>l \<in> set legs. l_occ_symbol l = oc \<and> l_position_id l = p)"
    using a unfolding of_user_def row_fill_key_def by (metis fst_conv snd_conv)
  also have "\<dots> \<longleftrightarrow> v = u \<and> (\<exists>f \<in> set fills. row_fill_key f = (ord, oc, i, t)) \<and> p \<in> holding legs oc"
    by (auto simp: holding_def)
  finally show ?thesis .
qed

lemma cd_fill_image: "(v, ord, oc, i, t) \<in> cd_fill ` S \<longleftrightarrow> (\<exists>p. (v, ord, oc, i, t, p) \<in> S)"
  by (force simp: cd_fill_def)

lemma cd_position_image: "p \<in> cd_position ` {c \<in> S. cd_fill c = (v, ord, oc, i, t)} \<longleftrightarrow>
    (v, ord, oc, i, t, p) \<in> S"
  by (force simp: cd_fill_def cd_position_def)

lemma anchor_group:
  assumes "of_user u legs fills"
  shows "cd_position ` {c \<in> set (fill_candidates legs fills). cd_order c = (v, ord, oc)} =
    (if v = u \<and> (\<exists>f \<in> set fills. f_order_id f = ord \<and> f_occ_symbol f = oc) then holding legs oc else {})"
  (is "?L = ?R")
proof (intro set_eqI iffI)
  fix p assume "p \<in> ?L"
  then show "p \<in> ?R"
    by (auto simp: cd_position_def cd_order_def candidate_mem [OF assms] row_fill_key_def split: if_splits)
next
  fix p assume "p \<in> ?R"
  then obtain f where f: "f \<in> set fills" "f_order_id f = ord" "f_occ_symbol f = oc" "v = u"
    and p: "p \<in> holding legs oc" by (auto split: if_splits)
  then have "(u, ord, oc, f_leg_index f, f_execution_time f, p) \<in> set (fill_candidates legs fills)"
    unfolding candidate_mem [OF assms] by (auto simp: row_fill_key_def)
  then show "p \<in> ?L" using f by (force simp: cd_position_def cd_order_def)
qed

lemma anchors_mem:
  assumes "of_user u legs fills"
  shows "(v, ord, oc, p) \<in> set (anchors (fill_candidates legs fills)) \<longleftrightarrow>
    v = u \<and> (\<exists>f \<in> set fills. f_order_id f = ord \<and> f_occ_symbol f = oc) \<and> holding legs oc = {p}"
proof -
  let ?cs = "fill_candidates legs fills"
  let ?g = "filter (\<lambda>c. cd_order c = (v, ord, oc)) ?cs"
  have "(v, ord, oc, p) \<in> set (anchors ?cs) \<longleftrightarrow>
      (v, ord, oc) \<in> cd_order ` set ?cs \<and> (\<exists>q. cd_position ` set ?g = {q}) \<and> p = pg_min_uuid (map cd_position ?g)"
    unfolding anchors_def
    by (auto simp: group_by_mem length_remdups_1 [unfolded One_nat_def] image_iff)
  also have "\<dots> \<longleftrightarrow> cd_position ` set ?g = {p}"
  proof
    assume "(v, ord, oc) \<in> cd_order ` set ?cs \<and> (\<exists>q. cd_position ` set ?g = {q}) \<and>
      p = pg_min_uuid (map cd_position ?g)"
    then show "cd_position ` set ?g = {p}" using pg_min_uuid_const [of "map cd_position ?g"] by auto
  next
    assume g: "cd_position ` set ?g = {p}"
    then obtain c where "c \<in> set ?g" by fastforce
    then have "c \<in> set ?cs" "cd_order c = (v, ord, oc)" by simp_all
    then have "(v, ord, oc) \<in> cd_order ` set ?cs" by (metis image_eqI)
    with g show "(v, ord, oc) \<in> cd_order ` set ?cs \<and> (\<exists>q. cd_position ` set ?g = {q}) \<and>
      p = pg_min_uuid (map cd_position ?g)"
      using pg_min_uuid_const [of "map cd_position ?g" p] by simp
  qed
  also have "cd_position ` set ?g =
      (if v = u \<and> (\<exists>f \<in> set fills. f_order_id f = ord \<and> f_occ_symbol f = oc) then holding legs oc else {})"
    using anchor_group [OF assms, of v ord oc] by simp
  finally show ?thesis by auto
qed

lemma order_anchors_mem:
  assumes "of_user u legs fills"
  shows "(v, ord, p) \<in> set (order_anchors (fill_candidates legs fills)) \<longleftrightarrow>
    v = u \<and> p \<in> anchored legs fills ord"
proof -
  have "(v, ord, p) \<in> set (order_anchors (fill_candidates legs fills)) \<longleftrightarrow>
      (\<exists>oc. (v, ord, oc, p) \<in> set (anchors (fill_candidates legs fills)))"
    by (force simp: order_anchors_def)
  then show ?thesis by (auto simp: anchors_mem [OF assms] anchored_def)
qed

lemma resolved_position_iff:
  assumes "of_user u legs fills" and "\<exists>f \<in> set fills. row_fill_key f = (ord, oc, i, t)"
  shows "resolved_position_id (fill_candidates legs fills) (u, ord, oc, i, t) = Some p \<longleftrightarrow>
    holding legs oc \<inter> anchored legs fills ord = {p}"
proof -
  let ?cs = "fill_candidates legs fills"
  let ?h = "map cd_position (filter (\<lambda>c. cd_fill c = (u, ord, oc, i, t)) ?cs)"
  let ?oa = "filter (\<lambda>(v, o', q). v = u \<and> o' = ord \<and> q \<in> set ?h) (order_anchors ?cs)"
  have h: "set ?h = holding legs oc"
    unfolding set_map set_filter
    by (rule set_eqI) (simp only: cd_position_image candidate_mem [OF assms(1)] assms(2) simp_thms)
  have oa: "set ?oa = (\<lambda>q. (u, ord, q)) ` (holding legs oc \<inter> anchored legs fills ord)"
    unfolding set_filter h by (auto simp: order_anchors_mem [OF assms(1)])
  have "distinct ?oa" by (simp add: order_anchors_def)
  then have "length ?oa = card (set ?oa)" by (rule distinct_card [symmetric])
  also have "\<dots> = card (holding legs oc \<inter> anchored legs fills ord)"
    unfolding oa by (rule card_image) (simp add: inj_on_def)
  finally have len: "length ?oa = 1 \<longleftrightarrow> (\<exists>q. holding legs oc \<inter> anchored legs fills ord = {q})"
    by (simp add: card_1_singleton_iff)
  have "pg_min_uuid (map (\<lambda>(v, o', q). q) ?oa) = q"
    if "holding legs oc \<inter> anchored legs fills ord = {q}" for q
  proof (rule pg_min_uuid_const)
    have "set (map (\<lambda>(v, o', q). q) ?oa) = (\<lambda>(v, o', q). q) ` set ?oa" by (rule set_map)
    also have "\<dots> = {q}" unfolding oa that by simp
    finally show "set (map (\<lambda>(v, o', q). q) ?oa) = {q}" .
  qed
  then show ?thesis
    using len unfolding resolved_position_id_def Let_def by auto
qed

lemma resolutions_of_get:
  assumes "distinct (map fst rows)"
  shows "resolutions_of rows k = map_of rows k"
proof -
  have "fold (\<lambda>(key, p) m. m(key \<mapsto> p)) rows m k = (case map_of rows k of None \<Rightarrow> m k | Some p \<Rightarrow> Some p)" for m
    using assms
    by (induction rows arbitrary: m) (auto split: option.splits simp: map_of_eq_None_iff image_iff)
  then show ?thesis by (simp add: resolutions_of_def split: option.split)
qed

lemma resolve_law:
  assumes "of_user u legs fills"
  shows "res_get (resolutions_of (resolution_rows legs fills)) (ord, oc, i, t) = Some p \<longleftrightarrow>
    (\<exists>f \<in> set fills. row_fill_key f = (ord, oc, i, t)) \<and> holding legs oc \<inter> anchored legs fills ord = {p}"
proof -
  let ?cs = "fill_candidates legs fills"
  note mem = candidate_mem [OF assms]
  have user: "fst c = u" if "c \<in> set (map cd_fill ?cs)" for c
  proof -
    obtain v ord oc i t where c: "c = (v, ord, oc, i, t)" by (cases c)
    with that have "\<exists>p. (v, ord, oc, i, t, p) \<in> set ?cs" by (simp add: cd_fill_image)
    then show ?thesis by (auto simp: c mem)
  qed
  have rows: "resolution_rows legs fills = map (\<lambda>fc. (snd fc, resolved_position_id ?cs fc)) (firsts (map cd_fill ?cs))"
    by (simp add: resolution_rows_def Let_def)
  have "inj_on snd (set (firsts (map cd_fill ?cs)))"
  proof (rule inj_onI)
    fix a b assume "a \<in> set (firsts (map cd_fill ?cs))" "b \<in> set (firsts (map cd_fill ?cs))" "snd a = snd b"
    then have "fst a = u" "fst b = u" "snd a = snd b" using user by (simp_all only: set_firsts)
    then show "a = b" by (simp add: prod_eq_iff)
  qed
  then have "distinct (map fst (resolution_rows legs fills))"
    by (simp add: rows o_def distinct_map)
  then have get: "resolutions_of (resolution_rows legs fills) (ord, oc, i, t) =
      map_of (resolution_rows legs fills) (ord, oc, i, t)"
    and some: "map_of (resolution_rows legs fills) (ord, oc, i, t) = Some x \<longleftrightarrow>
      ((ord, oc, i, t), x) \<in> set (resolution_rows legs fills)" for x
    by (simp_all add: resolutions_of_get)
  have "((ord, oc, i, t), x) \<in> set (resolution_rows legs fills) \<longleftrightarrow>
      (u, ord, oc, i, t) \<in> cd_fill ` set ?cs \<and> x = resolved_position_id ?cs (u, ord, oc, i, t)" for x
  proof
    assume "((ord, oc, i, t), x) \<in> set (resolution_rows legs fills)"
    then obtain fc where "fc \<in> set (firsts (map cd_fill ?cs))" "snd fc = (ord, oc, i, t)"
      "x = resolved_position_id ?cs fc"
      unfolding rows set_map image_iff by (metis prod.inject)
    then have "fc \<in> cd_fill ` set ?cs" "snd fc = (ord, oc, i, t)" "x = resolved_position_id ?cs fc"
      by (simp_all only: set_firsts set_map)
    moreover from this have "fst fc = u" by (intro user) (simp only: set_map)
    then have "fc = (u, ord, oc, i, t)" using \<open>snd fc = (ord, oc, i, t)\<close> by (simp add: prod_eq_iff)
    ultimately show "(u, ord, oc, i, t) \<in> cd_fill ` set ?cs \<and> x = resolved_position_id ?cs (u, ord, oc, i, t)"
      by simp
  next
    assume "(u, ord, oc, i, t) \<in> cd_fill ` set ?cs \<and> x = resolved_position_id ?cs (u, ord, oc, i, t)"
    then show "((ord, oc, i, t), x) \<in> set (resolution_rows legs fills)"
      unfolding rows by (simp add: image_iff) (metis snd_conv)
  qed
  then have "res_get (resolutions_of (resolution_rows legs fills)) (ord, oc, i, t) = Some p \<longleftrightarrow>
      (u, ord, oc, i, t) \<in> cd_fill ` set ?cs \<and>
      resolved_position_id ?cs (u, ord, oc, i, t) = Some p"
    using some by (auto simp: res_get_def get split: option.split)
  also have "(u, ord, oc, i, t) \<in> cd_fill ` set ?cs \<longleftrightarrow>
      (\<exists>f \<in> set fills. row_fill_key f = (ord, oc, i, t)) \<and> holding legs oc \<noteq> {}"
    by (auto simp: cd_fill_image mem)
  finally show ?thesis using resolved_position_iff [OF assms, of ord oc i t p] by auto
qed

text \<open>
  C18: The order-anchor query never guesses. For the legs and fills of one user, a stored fill resolves to
  position \<open>p\<close> exactly when \<open>p\<close> is the only position that both holds the fill's contract and is anchored
  by the fill's order (some fill of the order is in a contract only \<open>p\<close> holds); with none or several
  such positions, or without such a fill, it stays unresolved.
\<close>

theorem resolve_exact:
  assumes "of_user u legs fills"
  shows "res_get (resolutions_of (resolution_rows legs fills)) (ord, oc, i, t) = Some p \<longleftrightarrow>
    (\<exists>f \<in> set fills. row_fill_key f = (ord, oc, i, t)) \<and> holding legs oc \<inter> anchored legs fills ord = {p}"
  using assms by (rule resolve_law)

text \<open>Two calendars sharing a back leg \<open>X\<close>; an order that also trades the first one's own leg \<open>Y\<close>.\<close>

definition demo_leg_row :: "uuid \<Rightarrow> string \<Rightarrow> leg_row" where
  "demo_leg_row p y = \<lparr>l_id = 100 + p, l_position_id = p, l_user_id = demo_user, l_leg_role = y,
     l_occ_symbol = y, l_root = ''SPX''\<rparr>"

definition demo_fill_row :: "string \<Rightarrow> string \<Rightarrow> fill_row" where
  "demo_fill_row ord y = \<lparr>f_user_id = demo_user, f_order_id = ord, f_occ_symbol = y, f_leg_index = 0,
     f_execution_time = 5, f_position_effect = ''OPENING'', f_side = ''BUY'',
     f_quantity_ciphertext = None, f_quantity_nonce = None, f_price_usd_ciphertext = None,
     f_price_usd_nonce = None, f_key_version = 1\<rparr>"

definition demo_calendar_legs :: "leg_row list" where
  "demo_calendar_legs = [demo_leg_row 1 ''X'', demo_leg_row 1 ''Y'', demo_leg_row 2 ''X'', demo_leg_row 2 ''Z'']"

definition demo_order_fills :: "fill_row list" where
  "demo_order_fills = [demo_fill_row ''a'' ''X'', demo_fill_row ''a'' ''Y'',
     demo_fill_row ''b'' ''X'', demo_fill_row ''b'' ''Y'', demo_fill_row ''b'' ''Z'',
     demo_fill_row ''c'' ''X'']"

lemma holding_code: "holding legs oc = set (map l_position_id (filter (\<lambda>l. l_occ_symbol l = oc) legs))"
  by (auto simp: holding_def)

theorem resolve_exact_witness:
  "let res = resolutions_of (resolution_rows demo_calendar_legs demo_order_fills)
   in res_get res (''a'', ''X'', 0, 5) = Some 1 \<and> res_get res (''b'', ''X'', 0, 5) = None \<and>
      res_get res (''c'', ''X'', 0, 5) = None"
proof -
  have u: "of_user demo_user demo_calendar_legs demo_order_fills"
    by (simp add: of_user_def demo_calendar_legs_def demo_order_fills_def demo_leg_row_def demo_fill_row_def)
  have h: "holding demo_calendar_legs ''X'' = {1, 2}" "holding demo_calendar_legs ''Y'' = {1}"
    "holding demo_calendar_legs ''Z'' = {2}"
    by (simp_all add: holding_code demo_calendar_legs_def demo_leg_row_def insert_commute)
  have a: "anchored demo_calendar_legs demo_order_fills ''a'' = {1}"
    "anchored demo_calendar_legs demo_order_fills ''b'' = {1, 2}"
    "anchored demo_calendar_legs demo_order_fills ''c'' = {}"
    by (auto simp: anchored_def demo_order_fills_def demo_fill_row_def h)
  note r = resolve_exact [OF u]
  have "res_get (resolutions_of (resolution_rows demo_calendar_legs demo_order_fills)) (''a'', ''X'', 0, 5) = Some 1"
    unfolding r by (simp add: h a) (simp add: demo_order_fills_def demo_fill_row_def row_fill_key_def)
  moreover have "res_get (resolutions_of (resolution_rows demo_calendar_legs demo_order_fills)) (k, ''X'', 0, 5) \<noteq> Some p"
    if "k = ''b'' \<or> k = ''c''" for k p
    using that unfolding r by (auto simp: h a)
  then have "res_get (resolutions_of (resolution_rows demo_calendar_legs demo_order_fills)) (k, ''X'', 0, 5) = None"
    if "k = ''b'' \<or> k = ''c''" for k
    using that by (metis option.exhaust)
  ultimately show ?thesis by (simp add: Let_def)
qed

lemma resolve_fill_positions_as:
  assumes "as_user u s"
  shows "resolve_fill_positions u s =
    (Inr (resolutions_of (resolution_rows (filter (\<lambda>l. l_user_id l = u) (t_legs (s_db s)))
       (filter (\<lambda>f. f_user_id f = u) (t_fills (s_db s))))), s)"
  using legs_tb.sel_as [OF assms, of "\<lambda>l. l_user_id l = u"] fills_tb.sel_as [OF assms, of "\<lambda>f. f_user_id f = u"]
  by (simp add: resolve_fill_positions_def op_run legs_table_def fills_table_def)

end
