(* ===== verification/Batch_Store.thy ===== *)
theory Batch_Store
  imports Envelope Conflict_Store
begin

text \<open>
  The shape the two ingest write paths share (\<open>insert_fills\<close>, \<open>insert_broker_transactions\<close>): seal every
  row of a chunk with fresh nonces, offer the chunk with \<open>ON CONFLICT DO NOTHING\<close>, count what landed,
  chunk after chunk under one data key. The interface states what a path has to do per row and per
  chunk; its lemmas say what a whole batch does, whatever the chunk size.
\<close>

text \<open>The draw each row of a batch starts at.\<close>

fun numbered :: "('a \<Rightarrow> nat) \<Rightarrow> nat \<Rightarrow> 'a list \<Rightarrow> (nat \<times> 'a) list" where
  "numbered cost n [] = []"
| "numbered cost n (x # xs) = (n, x) # numbered cost (n + cost x) xs"

lemma snd_numbered [simp]: "map snd (numbered cost n xs) = xs"
  by (induction cost n xs rule: numbered.induct) simp_all

lemma numbered_append:
  "numbered cost n (xs @ ys) = numbered cost n xs @ numbered cost (n + sum_list (map cost xs)) ys"
  by (induction cost n xs rule: numbered.induct) (simp_all add: add.assoc)

lemma numbered_snd_mem: "(i, x) \<in> set (numbered cost n xs) \<Longrightarrow> x \<in> set xs"
  by (metis in_set_zipE snd_numbered zip_map_fst_snd)

definition sealed_batch :: "(nat \<Rightarrow> 'w \<Rightarrow> 'r) \<Rightarrow> ('w \<Rightarrow> nat) \<Rightarrow> nat \<Rightarrow> 'w list \<Rightarrow> 'r list" where
  "sealed_batch seal cost n ws = map (\<lambda>(i, w). seal i w) (numbered cost n ws)"

text \<open>What a batch appends to the table, and the session after it.\<close>

definition landed_batch ::
    "'r table \<Rightarrow> ('r \<Rightarrow> 'k) \<Rightarrow> (nat \<Rightarrow> 'w \<Rightarrow> 'r) \<Rightarrow> ('w \<Rightarrow> nat) \<Rightarrow> sess \<Rightarrow> 'w list \<Rightarrow> 'r list" where
  "landed_batch tb key seal cost s ws =
     fresh key (taken tb key (s_db s)) (sealed_batch seal cost (s_draws s) ws)"

definition after_batch ::
    "'r table \<Rightarrow> ('r \<Rightarrow> 'k) \<Rightarrow> (nat \<Rightarrow> 'w \<Rightarrow> 'r) \<Rightarrow> ('w \<Rightarrow> nat) \<Rightarrow> sess \<Rightarrow> 'w list \<Rightarrow> sess" where
  "after_batch tb key seal cost s ws =
     s\<lparr>s_db := tb_put tb (tb_rows tb (s_db s) @ landed_batch tb key seal cost s ws) (s_db s),
       s_draws := s_draws s + sum_list (map cost ws)\<rparr>"

lemma as_user_simps [simp]:
  "as_user u (s\<lparr>s_draws := n\<rparr>) = as_user u s"
  "as_user u (s\<lparr>s_db := d\<rparr>) = as_user u s"
  by (simp_all add: as_user_def)

text \<open>A whole batch: nothing for the empty one, else one key lookup and the chunks.\<close>

definition write_batch ::
    "(bytes \<Rightarrow> int \<Rightarrow> uuid \<Rightarrow> 'w list \<Rightarrow> nat op) \<Rightarrow> nat \<Rightarrow> env \<Rightarrow> uuid \<Rightarrow> 'w list \<Rightarrow> nat op" where
  "write_batch chunk k e u ws =
     (if ws = [] then ret 0
      else op_bind (current_dek e u) (\<lambda>(dek, kv).
           op_bind (op_map (chunk dek kv u) (chunks k ws)) (\<lambda>landed. ret (sum_list landed))))"

locale batch_store = conflict_store tb key
  for tb :: "'r table" and key :: "'r \<Rightarrow> 'k" +
  fixes vals :: "bytes \<Rightarrow> int \<Rightarrow> uuid \<Rightarrow> 'w \<Rightarrow> 'r op"
    and seal :: "bytes \<Rightarrow> int \<Rightarrow> uuid \<Rightarrow> nat \<Rightarrow> 'w \<Rightarrow> 'r"
    and cost :: "'w \<Rightarrow> nat"
    and chunk :: "bytes \<Rightarrow> int \<Rightarrow> uuid \<Rightarrow> 'w list \<Rightarrow> nat op"
    and fits :: "'w \<Rightarrow> bool"
  assumes vals_run: "vals dek kv u w s =
      (Inr (seal dek kv u (s_draws s) w), s\<lparr>s_draws := s_draws s + cost w\<rparr>)"
    and chunk_run: "chunk dek kv u ws s = op_bind (op_map (vals dek kv u) ws)
      (\<lambda>rows. op_bind (ins_on_conflict_do_nothing tb rows) (\<lambda>ls. ret (length ls))) s"
    and seal_owner: "tb_owner tb (seal dek kv u i w) = u"
    and seal_check: "fits w \<Longrightarrow> int2 kv \<Longrightarrow> tb_check tb (seal dek kv u i w) = None"
    and parents_user: "tb_parents tb d r \<longleftrightarrow> has_user d (tb_owner tb r)"
    and put_keys: "t_user_data_keys (tb_put tb xs d) = t_user_data_keys d"
begin

lemma vals_map_run: "op_map (vals dek kv u) ws s =
    (Inr (sealed_batch (seal dek kv u) cost (s_draws s) ws),
     s\<lparr>s_draws := s_draws s + sum_list (map cost ws)\<rparr>)"
  by (induction ws arbitrary: s) (simp_all add: op_run sealed_batch_def vals_run add.assoc)

lemma chunk_result:
  assumes "as_user u s" "chunk dek kv u ws s = (Inr n, s')"
  shows "n = length (landed_batch tb key (seal dek kv u) cost s ws) \<and>
    s' = after_batch tb key (seal dek kv u) cost s ws"
proof -
  let ?t = "s\<lparr>s_draws := s_draws s + sum_list (map cost ws)\<rparr>"
  let ?rows = "sealed_batch (seal dek kv u) cost (s_draws s) ws"
  from assms(2) obtain ls where
    o: "ins_on_conflict_do_nothing tb ?rows ?t = (Inr ls, s')" and n: "n = length ls"
    by (auto simp: chunk_run op_run vals_map_run split: prod.splits sum.splits)
  have "as_user u ?t" using assms(1) by simp
  from offer_result [OF this o] n show ?thesis
    by (simp add: landed_batch_def after_batch_def)
qed

lemma chunk_ok:
  assumes "as_user u s" "has_user (s_db s) u" "int2 kv" "\<forall>w \<in> set ws. fits w"
  shows "chunk dek kv u ws s = (Inr (length (landed_batch tb key (seal dek kv u) cost s ws)),
    after_batch tb key (seal dek kv u) cost s ws)"
proof -
  let ?t = "s\<lparr>s_draws := s_draws s + sum_list (map cost ws)\<rparr>"
  let ?rows = "sealed_batch (seal dek kv u) cost (s_draws s) ws"
  have r: "\<forall>r \<in> set ?rows. tb_owner tb r = u \<and> tb_check tb r = None \<and> tb_parents tb (s_db ?t) r"
    using assms by (auto simp: sealed_batch_def seal_owner seal_check parents_user dest: numbered_snd_mem)
  have "as_user u ?t" using assms(1) by simp
  from offer_run [OF this r] show ?thesis
    by (simp add: chunk_run op_run vals_map_run landed_batch_def after_batch_def)
qed

lemma sealed_batch_append: "sealed_batch f cost n (xs @ ys) =
    sealed_batch f cost n xs @ sealed_batch f cost (n + sum_list (map cost xs)) ys"
  by (simp add: sealed_batch_def numbered_append)

lemma after_batch_append:
  "after_batch tb key f cost s (xs @ ys) = after_batch tb key f cost (after_batch tb key f cost s xs) ys"
  "landed_batch tb key f cost s (xs @ ys) =
     landed_batch tb key f cost s xs @ landed_batch tb key f cost (after_batch tb key f cost s xs) ys"
proof -
  have t: "taken tb key (s_db (after_batch tb key f cost s xs)) =
      taken tb key (s_db s) \<union> key ` set (sealed_batch f cost (s_draws s) xs)"
    using fresh_keys [of key "taken tb key (s_db s)" "sealed_batch f cost (s_draws s) xs"]
    by (auto simp: taken_def after_batch_def landed_batch_def)
  have d: "s_draws (after_batch tb key f cost s xs) = s_draws s + sum_list (map cost xs)"
    by (simp add: after_batch_def)
  show l: "landed_batch tb key f cost s (xs @ ys) =
     landed_batch tb key f cost s xs @ landed_batch tb key f cost (after_batch tb key f cost s xs) ys"
    by (simp add: landed_batch_def t d sealed_batch_append fresh_append)
  show "after_batch tb key f cost s (xs @ ys) =
      after_batch tb key f cost (after_batch tb key f cost s xs) ys"
    by (subst (1 2) after_batch_def) (simp add: l, simp add: after_batch_def add.assoc)
qed

lemma has_user_put: "has_user (tb_put tb xs d) u = has_user d u"
proof -
  obtain r :: 'r where "tb_owner tb r = u" using seal_owner by metis
  with parents_put parents_user show ?thesis by metis
qed

lemma after_batch_simps:
  "as_user v (after_batch tb key f cost s ws) = as_user v s"
  "has_user (s_db (after_batch tb key f cost s ws)) v = has_user (s_db s) v"
  "t_user_data_keys (s_db (after_batch tb key f cost s ws)) = t_user_data_keys (s_db s)"
  by (simp_all add: after_batch_def has_user_put put_keys)

lemma chunks_result:
  assumes "as_user u s" "op_map (chunk dek kv u) cs s = (Inr ns, s')"
  shows "sum_list ns = length (landed_batch tb key (seal dek kv u) cost s (concat cs)) \<and>
    s' = after_batch tb key (seal dek kv u) cost s (concat cs)"
  using assms
proof (induction cs arbitrary: s ns)
  case Nil
  then show ?case by (simp add: op_run landed_batch_def after_batch_def sealed_batch_def)
next
  case (Cons c cs)
  from Cons.prems(2) obtain n t where c: "chunk dek kv u c s = (Inr n, t)"
    by (auto simp: op_run split: prod.splits sum.splits)
  from chunk_result [OF Cons.prems(1) this]
  have n: "n = length (landed_batch tb key (seal dek kv u) cost s c)"
    and t: "t = after_batch tb key (seal dek kv u) cost s c" by simp_all
  obtain ms where r: "op_map (chunk dek kv u) cs t = (Inr ms, s')" and ns: "ns = n # ms"
    using Cons.prems(2) c by (auto simp: op_run split: prod.splits sum.splits)
  have "as_user u t" using Cons.prems(1) by (simp add: t after_batch_simps)
  from Cons.IH [OF this r] show ?case by (simp add: ns n t after_batch_append)
qed

lemma chunks_ok:
  assumes "as_user u s" "has_user (s_db s) u" "int2 kv" "\<forall>c \<in> set cs. \<forall>w \<in> set c. fits w"
  shows "\<exists>ns. op_map (chunk dek kv u) cs s =
      (Inr ns, after_batch tb key (seal dek kv u) cost s (concat cs)) \<and>
    sum_list ns = length (landed_batch tb key (seal dek kv u) cost s (concat cs))"
  using assms
proof (induction cs arbitrary: s)
  case Nil
  then show ?case by (simp add: op_run landed_batch_def after_batch_def sealed_batch_def)
next
  case (Cons c cs)
  let ?t = "after_batch tb key (seal dek kv u) cost s c"
  have "chunk dek kv u c s = (Inr (length (landed_batch tb key (seal dek kv u) cost s c)), ?t)"
    using Cons.prems by (intro chunk_ok) simp_all
  moreover from Cons.prems have "\<exists>ns. op_map (chunk dek kv u) cs ?t =
      (Inr ns, after_batch tb key (seal dek kv u) cost ?t (concat cs)) \<and>
    sum_list ns = length (landed_batch tb key (seal dek kv u) cost ?t (concat cs))"
    by (intro Cons.IH) (simp_all add: after_batch_simps)
  ultimately show ?case by (auto simp: op_run after_batch_append)
qed

text \<open>The whole write: if it returns, and that it does.\<close>

lemma write_result:
  assumes "0 < k" "as_user u s" "keys_distinct (s_db s)" "ws \<noteq> []"
    "write_batch chunk k e u ws s = (Inr n, s')"
  shows "\<exists>dek kv. dek_in e (s_db s) u kv = Some dek \<and>
    n = length (landed_batch tb key (seal dek kv u) cost s ws) \<and>
    s' = after_batch tb key (seal dek kv u) cost s ws"
proof -
  from assms(4,5) obtain dek kv t ns where
    c: "current_dek e u s = (Inr (dek, kv), t)" and
    m: "op_map (chunk dek kv u) (chunks k ws) t = (Inr ns, s')" and n: "n = sum_list ns"
    by (auto simp: write_batch_def op_run split: prod.splits sum.splits)
  from current_dek_as [OF assms(2,3) c] have t: "t = s" and d: "dek_in e (s_db s) u kv = Some dek" by simp_all
  from chunks_result [OF assms(2) m [unfolded t]] assms(1) d n show ?thesis by auto
qed

lemma write_ok:
  assumes "0 < k" "as_user u s" "current_dek e u s = (Inr (dek, kv), s)" "has_user (s_db s) u" "int2 kv"
    "\<forall>w \<in> set ws. fits w"
  shows "write_batch chunk k e u ws s = (Inr (length (landed_batch tb key (seal dek kv u) cost s ws)),
    after_batch tb key (seal dek kv u) cost s ws)"
proof (cases "ws = []")
  case True
  then show ?thesis
    by (simp add: write_batch_def op_run landed_batch_def sealed_batch_def after_batch_def)
next
  case False
  have "set (concat (chunks k ws)) = set ws" using assms(1) by simp
  then have "\<forall>c \<in> set (chunks k ws). \<forall>w \<in> set c. fits w"
    using assms(6) by (metis UN_I set_concat)
  from chunks_ok [OF assms(2,4,5) this, of dek] assms(1,3) False show ?thesis
    by (auto simp: write_batch_def op_run)
qed

lemma write_frame:
  assumes "0 < k" "as_user u s" "keys_distinct (s_db s)" "write_batch chunk k e u ws s = (Inr n, s')"
  shows "as_user u s' \<and> t_user_data_keys (s_db s') = t_user_data_keys (s_db s) \<and>
    keys_distinct (s_db s')"
proof (cases "ws = []")
  case True
  with assms show ?thesis by (simp add: write_batch_def op_run)
next
  case False
  from write_result [OF assms(1-3) False assms(4)] obtain dek kv
    where "s' = after_batch tb key (seal dek kv u) cost s ws" by blast
  with assms(2,3) show ?thesis by (simp add: after_batch_simps keys_distinct_def)
qed

end

end
