(* ===== verification/Fill_Laws.thy ===== *)
theory Fill_Laws
  imports Fills Batch_Store
begin

text \<open>
  What the fill table's two paths promise: the rows a batch produces, the records a table reads back as,
  and from those the write/read round trip, first-write-wins, the irrelevance of chunking, the row
  binding and the crypto-shred.
\<close>

section \<open>The write path as a function\<close>

definition sealed_amount ::
    "env \<Rightarrow> bytes \<Rightarrow> bytes \<Rightarrow> nat \<Rightarrow> pydec option \<Rightarrow> bytes option \<times> bytes option" where
  "sealed_amount e dek ad n amount = (case amount of
     None \<Rightarrow> (None, None)
   | Some v \<Rightarrow> (Some (aes_enc e dek (urandom e n 12) (encode_decimal v) (Some ad)),
                Some (urandom e n 12)))"

definition amount_draws :: "pydec option \<Rightarrow> nat" where
  "amount_draws amount = (case amount of None \<Rightarrow> 0 | Some v \<Rightarrow> 1)"

lemma encrypt_amount_run:
  "encrypt_amount e dek ad amount s =
    (Inr (sealed_amount e dek ad (s_draws s) amount),
     s\<lparr>s_draws := s_draws s + amount_draws amount\<rparr>)"
  by (auto simp: encrypt_amount_def sealed_amount_def amount_draws_def encrypt_field_def draw_def
      op_run split: option.split)

definition fill_ad :: "string \<Rightarrow> uuid \<Rightarrow> fill_write \<Rightarrow> bytes" where
  "fill_ad column u fw = fill_associated_data column u (fw_order_id fw) (fw_occ_symbol fw)
     (fw_leg_index fw) (fw_execution_time fw)"

definition sealed_fill :: "env \<Rightarrow> bytes \<Rightarrow> int \<Rightarrow> uuid \<Rightarrow> nat \<Rightarrow> fill_write \<Rightarrow> fill_row" where
  "sealed_fill e dek kv u n fw =
     (let q = sealed_amount e dek (fill_ad ''quantity'' u fw) n (fw_quantity fw);
          p = sealed_amount e dek (fill_ad ''price_usd'' u fw)
                (n + amount_draws (fw_quantity fw)) (fw_price_usd fw)
      in \<lparr>f_user_id = u, f_order_id = fw_order_id fw, f_occ_symbol = fw_occ_symbol fw,
          f_leg_index = fw_leg_index fw, f_execution_time = fw_execution_time fw,
          f_position_effect = fw_position_effect fw, f_side = fw_side fw,
          f_quantity_ciphertext = fst q, f_quantity_nonce = snd q,
          f_price_usd_ciphertext = fst p, f_price_usd_nonce = snd p, f_key_version = kv\<rparr>)"

definition fill_draws :: "fill_write \<Rightarrow> nat" where
  "fill_draws fw = amount_draws (fw_quantity fw) + amount_draws (fw_price_usd fw)"

lemma fill_values_run:
  "fill_values e dek kv u fw s =
    (Inr (sealed_fill e dek kv u (s_draws s) fw), s\<lparr>s_draws := s_draws s + fill_draws fw\<rparr>)"
  by (simp add: fill_values_def op_run encrypt_amount_run sealed_fill_def fill_draws_def fill_ad_def
      Let_def case_prod_unfold)

definition sealed_fills :: "env \<Rightarrow> bytes \<Rightarrow> int \<Rightarrow> uuid \<Rightarrow> nat \<Rightarrow> fill_write list \<Rightarrow> fill_row list" where
  "sealed_fills e dek kv u n fws =
     map (\<lambda>(i, fw). sealed_fill e dek kv u i fw) (numbered fill_draws n fws)"

text \<open>A fill's key within one user.\<close>

definition write_key :: "fill_write \<Rightarrow> string \<times> string \<times> int \<times> datetime" where
  "write_key fw = (fw_order_id fw, fw_occ_symbol fw, fw_leg_index fw, fw_execution_time fw)"

definition record_key :: "fill_record \<Rightarrow> string \<times> string \<times> int \<times> datetime" where
  "record_key r = (fr_order_id r, fr_occ_symbol r, fr_leg_index r, fr_execution_time r)"

lemma sealed_fill_key: "fill_row_key (sealed_fill e dek kv u i fw) = (u, write_key fw)"
  by (simp add: fill_row_key_def sealed_fill_def write_key_def Let_def)

lemma sealed_fill_fields [simp]:
  "f_user_id (sealed_fill e dek kv u i fw) = u"
  "f_key_version (sealed_fill e dek kv u i fw) = kv"
  "f_leg_index (sealed_fill e dek kv u i fw) = fw_leg_index fw"
  "f_order_id (sealed_fill e dek kv u i fw) = fw_order_id fw"
  "f_occ_symbol (sealed_fill e dek kv u i fw) = fw_occ_symbol fw"
  "f_execution_time (sealed_fill e dek kv u i fw) = fw_execution_time fw"
  "f_position_effect (sealed_fill e dek kv u i fw) = fw_position_effect fw"
  "f_side (sealed_fill e dek kv u i fw) = fw_side fw"
  by (simp_all add: sealed_fill_def Let_def)

text \<open>What a batch appends to the table.\<close>

definition landed_fills :: "env \<Rightarrow> bytes \<Rightarrow> int \<Rightarrow> uuid \<Rightarrow> sess \<Rightarrow> fill_write list \<Rightarrow> fill_row list" where
  "landed_fills e dek kv u s fws =
     fresh fill_row_key (taken fills_table fill_row_key (s_db s))
       (sealed_fills e dek kv u (s_draws s) fws)"

definition after_fills :: "env \<Rightarrow> bytes \<Rightarrow> int \<Rightarrow> uuid \<Rightarrow> sess \<Rightarrow> fill_write list \<Rightarrow> sess" where
  "after_fills e dek kv u s fws =
     s\<lparr>s_db := t_fills_update (\<lambda>_. t_fills (s_db s) @ landed_fills e dek kv u s fws) (s_db s),
       s_draws := s_draws s + sum_list (map fill_draws fws)\<rparr>"

lemma fills_table_simps [simp]:
  "tb_rows fills_table = t_fills" "tb_put fills_table xs d = t_fills_update (\<lambda>_. xs) d"
  "tb_owner fills_table = f_user_id" "tb_grants fills_table = [SELECT, INSERT, DELETE]"
  "tb_parents fills_table d r = has_user d (f_user_id r)"
  "tb_check fills_table r = typed (int2 (f_leg_index r) \<and> int2 (f_key_version r))"
  by (simp_all add: fills_table_def)

interpretation fills_bs: batch_store fills_table fill_row_key "fill_values e" "sealed_fill e"
    fill_draws "insert_fill_chunk e" "\<lambda>fw. int2 (fw_leg_index fw)" for e
  by unfold_locales
    (simp_all add: fill_values_run insert_fill_chunk_def op_run fill_init_def typed_def
      split: prod.split sum.split)

lemma landed_fills_batch:
  "sealed_fills e dek kv u n fws = sealed_batch (sealed_fill e dek kv u) fill_draws n fws"
  "landed_fills e dek kv u s fws =
     landed_batch fills_table fill_row_key (sealed_fill e dek kv u) fill_draws s fws"
  "after_fills e dek kv u s fws =
     after_batch fills_table fill_row_key (sealed_fill e dek kv u) fill_draws s fws"
  "insert_fills_chunked k e u fws = write_batch (insert_fill_chunk e) k e u fws"
  by (simp_all add: sealed_fills_def sealed_batch_def landed_fills_def landed_batch_def
      after_fills_def after_batch_def insert_fills_chunked_def write_batch_def)

lemma after_fills_append:
  "after_fills e dek kv u s (xs @ ys) = after_fills e dek kv u (after_fills e dek kv u s xs) ys"
  "landed_fills e dek kv u s (xs @ ys) =
     landed_fills e dek kv u s xs @ landed_fills e dek kv u (after_fills e dek kv u s xs) ys"
  unfolding landed_fills_batch by (rule fills_bs.after_batch_append)+

lemma after_fills_simps [simp]:
  "as_user u (after_fills e dek kv v s fws) = as_user u s"
  "has_user (s_db (after_fills e dek kv v s fws)) = has_user (s_db s)"
  "t_user_data_keys (s_db (after_fills e dek kv v s fws)) = t_user_data_keys (s_db s)"
  by (auto simp: after_fills_def has_user_def)

text \<open>The whole write, whatever the chunk size.\<close>

lemma insert_fills_chunked_result:
  assumes "0 < k" "as_user u s" "keys_distinct (s_db s)" "fws \<noteq> []"
    "insert_fills_chunked k e u fws s = (Inr n, s')"
  shows "\<exists>dek kv. dek_in e (s_db s) u kv = Some dek \<and>
    n = length (landed_fills e dek kv u s fws) \<and> s' = after_fills e dek kv u s fws"
  using fills_bs.write_result [OF assms(1-4)] assms(5) by (simp add: landed_fills_batch)

lemma insert_fills_chunked_run:
  assumes "0 < k" "as_user u s" "current_dek e u s = (Inr (dek, kv), s)" "has_user (s_db s) u" "int2 kv"
    "\<forall>fw \<in> set fws. int2 (fw_leg_index fw)"
  shows "insert_fills_chunked k e u fws s =
    (Inr (length (landed_fills e dek kv u s fws)), after_fills e dek kv u s fws)"
  using fills_bs.write_ok [OF assms] by (simp add: landed_fills_batch)

lemma insert_fills_frame:
  assumes "as_user u s" "keys_distinct (s_db s)" "insert_fills e u fws s = (Inr n, s')"
  shows "as_user u s'" "t_user_data_keys (s_db s') = t_user_data_keys (s_db s)"
    "keys_distinct (s_db s')"
  using fills_bs.write_frame [OF _ assms(1,2), of fill_chunk_size e e fws n s'] assms(3)
  by (simp_all add: insert_fills_def landed_fills_batch fill_chunk_size_def)

end
