(* ===== verification/Fill_Reads.thy ===== *)
theory Fill_Reads
  imports Fill_Laws
begin

text \<open>
  The read path of the fill table as a function of the stored rows and keys, the records a written fill
  reads back as, and the promises of the two paths together.
\<close>

section \<open>The read path as a function\<close>

definition open_amount ::
    "env \<Rightarrow> bytes \<Rightarrow> bytes \<Rightarrow> bytes option \<Rightarrow> bytes option \<Rightarrow> exn + pydec option" where
  "open_amount e dek ad c n = (case (c, n) of
     (Some c, Some n) \<Rightarrow> (case aes_dec e dek n c (Some ad) of
        None \<Rightarrow> Inl InvalidTag
      | Some p \<Rightarrow> (case decode_decimal p of None \<Rightarrow> Inl InvalidOperation | Some v \<Rightarrow> Inr (Some v)))
   | _ \<Rightarrow> Inr None)"

lemma decrypt_amount_run: "decrypt_amount e dek ad c n s = (open_amount e dek ad c n, s)"
  by (auto simp: decrypt_amount_def open_amount_def decrypt_field_def op_run split: option.split)

definition row_ad :: "string \<Rightarrow> uuid \<Rightarrow> fill_row \<Rightarrow> bytes" where
  "row_ad column u row = fill_associated_data column u (f_order_id row) (f_occ_symbol row)
     (f_leg_index row) (f_execution_time row)"

definition open_fill :: "env \<Rightarrow> bytes \<Rightarrow> uuid \<Rightarrow> fill_row \<Rightarrow> exn + fill_record" where
  "open_fill e dek u row =
     (case open_amount e dek (row_ad ''quantity'' u row) (f_quantity_ciphertext row) (f_quantity_nonce row) of
        Inl x \<Rightarrow> Inl x
      | Inr q \<Rightarrow>
     (case open_amount e dek (row_ad ''price_usd'' u row) (f_price_usd_ciphertext row) (f_price_usd_nonce row) of
        Inl x \<Rightarrow> Inl x
      | Inr p \<Rightarrow> Inr \<lparr>fr_user_id = u, fr_order_id = f_order_id row, fr_occ_symbol = f_occ_symbol row,
           fr_leg_index = f_leg_index row, fr_execution_time = f_execution_time row,
           fr_position_effect = f_position_effect row, fr_side = f_side row,
           fr_quantity = q, fr_price_usd = p, fr_key_version = f_key_version row\<rparr>))"

lemma fill_record_of_run: "fill_record_of e dek u row s = (open_fill e dek u row, s)"
  by (auto simp: fill_record_of_def open_fill_def op_run decrypt_amount_run row_ad_def Let_def
      split: sum.split)

text \<open>A row opens to a record under the keys of the database.\<close>

definition opens :: "env \<Rightarrow> db \<Rightarrow> uuid \<Rightarrow> fill_row \<Rightarrow> fill_record \<Rightarrow> bool" where
  "opens e d u row rc \<longleftrightarrow>
     (\<exists>dek. dek_in e d u (f_key_version row) = Some dek \<and> open_fill e dek u row = Inr rc)"

lemma read_fill_rows_ok:
  assumes "as_user u s" "cache_ok e (s_db s) u c" "list_all2 (opens e (s_db s) u) rows records"
  shows "read_fill_rows e u c rows s = (Inr records, s)"
  using assms(3,2)
proof (induction rows records arbitrary: c rule: list_all2_induct)
  case Nil
  then show ?case by (simp add: op_run)
next
  case (Cons row rows rc records)
  then obtain dek where "dek_in e (s_db s) u (f_key_version row) = Some dek"
    and o: "open_fill e dek u row = Inr rc" by (auto simp: opens_def)
  from cached_dek_as [OF assms(1) Cons.prems this(1)] obtain c' where
    "cached_dek e DataKeyMissing u c (f_key_version row) s = (Inr (dek, c'), s)"
    and "cache_ok e (s_db s) u c'" by blast
  with Cons.IH o show ?case by (simp add: op_run fill_record_of_run)
qed

lemma dek_for_version_Inr:
  assumes "as_user u s" "dek_for_version e x u v s = (Inr dek, s')"
  shows "s' = s \<and> dek_in e (s_db s) u v = Some dek"
  using assms
  by (auto simp: dek_for_version_def op_run sel_key_version_as dek_in_def one_or_none_def
      unwrap_dek_def unwrapped_def split: list.splits option.splits)

lemma cached_dek_Inr:
  assumes "as_user u s" "cache_ok e (s_db s) u c" "cached_dek e x u c v s = (Inr (dek, c'), s')"
  shows "s' = s \<and> dek_in e (s_db s) u v = Some dek \<and> cache_ok e (s_db s) u c'"
proof (cases "c v")
  case None
  with assms(3) obtain t where d: "dek_for_version e x u v s = (Inr dek, s')"
    and c': "c' = c(v := Some dek)"
    by (auto simp: cached_dek_def op_run split: prod.splits sum.splits)
  from dek_for_version_Inr [OF assms(1) d] c' assms(2) show ?thesis by (auto simp: cache_ok_def)
next
  case (Some k)
  with assms show ?thesis by (auto simp: cached_dek_def op_run cache_ok_def)
qed

lemma read_fill_rows_Inr:
  assumes "as_user u s" "cache_ok e (s_db s) u c" "read_fill_rows e u c rows s = (Inr records, s')"
  shows "s' = s \<and> list_all2 (opens e (s_db s) u) rows records"
  using assms(2,3)
proof (induction rows arbitrary: c records)
  case Nil
  then show ?case by (simp add: op_run)
next
  case (Cons row rows)
  from Cons.prems(2) obtain dek c' t where
    k: "cached_dek e DataKeyMissing u c (f_key_version row) s = (Inr (dek, c'), t)"
    by (auto simp: op_run split: prod.splits sum.splits)
  from cached_dek_Inr [OF assms(1) Cons.prems(1) k]
  have t: "t = s" and d: "dek_in e (s_db s) u (f_key_version row) = Some dek"
    and c': "cache_ok e (s_db s) u c'" by simp_all
  from Cons.prems(2) k t obtain rc rs where o: "open_fill e dek u row = Inr rc"
    and r: "read_fill_rows e u c' rows s = (Inr rs, s')" and "records = rc # rs"
    by (auto simp: op_run fill_record_of_run split: prod.splits sum.splits)
  with Cons.IH [OF c' r] d show ?case by (auto simp: opens_def)
qed

definition own_fills :: "db \<Rightarrow> uuid \<Rightarrow> fill_row list" where
  "own_fills d u = filter (\<lambda>r. f_user_id r = u) (t_fills d)"

lemma sel_fills_as:
  assumes "as_user u s"
  shows "sel fills_table (\<lambda>r. f_user_id r = u) s = (Inr (own_fills (s_db s) u), s)"
  using fills_tb.sel_as [OF assms, of "\<lambda>r. f_user_id r = u"]
  by (simp add: own_fills_def)

lemma read_fills_iff:
  assumes "as_user u s"
  shows "read_fills e u s = (Inr records, s') \<longleftrightarrow>
    s' = s \<and> list_all2 (opens e (s_db s) u) (own_fills (s_db s) u) records"
proof -
  have "read_fills e u s = read_fill_rows e u (\<lambda>_. None) (own_fills (s_db s) u) s"
    by (simp add: read_fills_def op_run sel_fills_as [OF assms])
  then show ?thesis
    using read_fill_rows_ok [OF assms cache_ok_empty] read_fill_rows_Inr [OF assms cache_ok_empty]
    by metis
qed


section \<open>What a written fill reads back as\<close>

definition record_of_write :: "uuid \<Rightarrow> int \<Rightarrow> fill_write \<Rightarrow> fill_record" where
  "record_of_write u kv fw =
     \<lparr>fr_user_id = u, fr_order_id = fw_order_id fw, fr_occ_symbol = fw_occ_symbol fw,
      fr_leg_index = fw_leg_index fw, fr_execution_time = fw_execution_time fw,
      fr_position_effect = fw_position_effect fw, fr_side = fw_side fw,
      fr_quantity = fw_quantity fw, fr_price_usd = fw_price_usd fw, fr_key_version = kv\<rparr>"

lemma open_sealed_amount:
  "aead_correct e \<Longrightarrow>
   open_amount e dek ad (fst (sealed_amount e dek ad n v)) (snd (sealed_amount e dek ad n v)) = Inr v"
  by (cases v) (simp_all add: open_amount_def sealed_amount_def aead_correctD)

lemma open_sealed_fill:
  "aead_correct e \<Longrightarrow> open_fill e dek u (sealed_fill e dek kv u n fw) = Inr (record_of_write u kv fw)"
  by (simp add: open_fill_def sealed_fill_def row_ad_def fill_ad_def Let_def record_of_write_def
      open_sealed_amount)

lemma open_fill_fields:
  assumes "open_fill e dek u row = Inr rc"
  shows "fr_user_id rc = u" "record_key rc = (f_order_id row, f_occ_symbol row, f_leg_index row, f_execution_time row)"
    "fr_position_effect rc = f_position_effect row" "fr_side rc = f_side row"
    "fr_key_version rc = f_key_version row"
proof -
  obtain q p where "rc = \<lparr>fr_user_id = u, fr_order_id = f_order_id row, fr_occ_symbol = f_occ_symbol row,
      fr_leg_index = f_leg_index row, fr_execution_time = f_execution_time row,
      fr_position_effect = f_position_effect row, fr_side = f_side row,
      fr_quantity = q, fr_price_usd = p, fr_key_version = f_key_version row\<rparr>"
    using assms unfolding open_fill_def by (auto split: sum.split_asm)
  then show "fr_user_id rc = u" "record_key rc = (f_order_id row, f_occ_symbol row, f_leg_index row, f_execution_time row)"
    "fr_position_effect rc = f_position_effect row" "fr_side rc = f_side row"
    "fr_key_version rc = f_key_version row"
    by (simp_all add: record_key_def)
qed

lemma opens_key: "opens e d u row rc \<Longrightarrow> f_user_id row = u \<Longrightarrow> fill_row_key row = (u, record_key rc)"
  by (auto simp: opens_def fill_row_key_def open_fill_fields)

lemma taken_own:
  assumes "list_all2 (opens e d u) (own_fills d u) records"
  shows "(u, k) \<in> taken fills_table fill_row_key d \<longleftrightarrow> k \<in> record_key ` set records"
proof -
  have "map fill_row_key (own_fills d u) = map (\<lambda>r. (u, record_key r)) records"
  proof (rule nth_equalityI)
    show "length (map fill_row_key (own_fills d u)) = length (map (\<lambda>r. (u, record_key r)) records)"
      using assms by (simp add: list_all2_lengthD)
    fix i
    assume "i < length (map fill_row_key (own_fills d u))"
    then have i: "i < length (own_fills d u)" by simp
    then have "f_user_id (own_fills d u ! i) = u"
      using nth_mem [OF i] by (simp add: own_fills_def)
    moreover have "opens e d u (own_fills d u ! i) (records ! i)"
      using assms i by (rule list_all2_nthD)
    ultimately have "fill_row_key (own_fills d u ! i) = (u, record_key (records ! i))"
      by (intro opens_key)
    with i assms show "map fill_row_key (own_fills d u) ! i = map (\<lambda>r. (u, record_key r)) records ! i"
      by (simp add: list_all2_lengthD)
  qed
  then have "fill_row_key ` set (own_fills d u) = (\<lambda>r. (u, record_key r)) ` set records"
    by (metis set_map)
  moreover have "(u, k) \<in> taken fills_table fill_row_key d \<longleftrightarrow>
      (u, k) \<in> fill_row_key ` set (own_fills d u)"
    by (force simp: taken_def own_fills_def fill_row_key_def)
  ultimately show ?thesis by auto
qed

lemma fresh_numbered:
  assumes "\<And>fw. fw \<in> set fws \<Longrightarrow> ((u, write_key fw) \<in> K) = (write_key fw \<in> K')"
  shows "fresh fill_row_key K (sealed_fills e dek kv u n fws) =
      map (\<lambda>(i, fw). sealed_fill e dek kv u i fw)
        (fresh (write_key \<circ> snd) K' (numbered fill_draws n fws))"
    and "map snd (fresh (write_key \<circ> snd) K' (numbered fill_draws n fws)) = fresh write_key K' fws"
proof -
  have "fresh (fill_row_key \<circ> (\<lambda>(i, fw). sealed_fill e dek kv u i fw)) K (numbered fill_draws n fws) =
      fresh (write_key \<circ> snd) K' (numbered fill_draws n fws)"
    by (rule fresh_cong) (auto simp: sealed_fill_key assms dest: numbered_snd_mem)
  then show "fresh fill_row_key K (sealed_fills e dek kv u n fws) =
      map (\<lambda>(i, fw). sealed_fill e dek kv u i fw)
        (fresh (write_key \<circ> snd) K' (numbered fill_draws n fws))"
    by (simp add: sealed_fills_def fresh_map)
  show "map snd (fresh (write_key \<circ> snd) K' (numbered fill_draws n fws)) = fresh write_key K' fws"
    by (simp flip: fresh_map)
qed

lemma landed_fills_opens:
  fixes fws :: "fill_write list"
  assumes "aead_correct e" "dek_in e (s_db s) u kv = Some dek"
    "list_all2 (opens e (s_db s) u) (own_fills (s_db s) u) records"
    "t_user_data_keys d = t_user_data_keys (s_db s)"
  defines "new \<equiv> fresh write_key (record_key ` set records) fws"
  shows "list_all2 (opens e d u) (landed_fills e dek kv u s fws) (map (record_of_write u kv) new)"
    and "length (landed_fills e dek kv u s fws) = length new"
proof -
  let ?nw = "fresh (write_key \<circ> snd) (record_key ` set records) (numbered fill_draws (s_draws s) fws)"
  have l: "landed_fills e dek kv u s fws = map (\<lambda>(i, fw). sealed_fill e dek kv u i fw) ?nw"
    unfolding landed_fills_def by (rule fresh_numbered) (simp add: taken_own [OF assms(3)])
  have n: "new = map snd ?nw"
    unfolding new_def
    by (rule fresh_numbered(2) [where K = "taken fills_table fill_row_key (s_db s)" and u = u, symmetric])
      (simp add: taken_own [OF assms(3)])
  have "dek_in e d u kv = Some dek" using assms(2,4) by (simp add: dek_in_def key_rows_def)
  then show "list_all2 (opens e d u) (landed_fills e dek kv u s fws) (map (record_of_write u kv) new)"
    unfolding l n
    by (auto simp: list_all2_conv_all_nth case_prod_unfold opens_def open_sealed_fill [OF assms(1)])
  show "length (landed_fills e dek kv u s fws) = length new" by (simp add: l n)
qed

lemma own_fills_after:
  "own_fills (s_db (after_fills e dek kv u s fws)) u =
     own_fills (s_db s) u @ landed_fills e dek kv u s fws"
proof -
  have "\<forall>r \<in> set (sealed_fills e dek kv u (s_draws s) fws). f_user_id r = u"
    by (auto simp: sealed_fills_def)
  then have "\<forall>r \<in> set (landed_fills e dek kv u s fws). f_user_id r = u"
    using set_fresh [of fill_row_key "taken fills_table fill_row_key (s_db s)"
        "sealed_fills e dek kv u (s_draws s) fws"]
    by (auto simp: landed_fills_def)
  then show ?thesis by (simp add: own_fills_def after_fills_def filter_id_conv)
qed

lemma opens_keys_cong: "t_user_data_keys d = t_user_data_keys d' \<Longrightarrow> opens e d u = opens e d' u"
  by (auto simp: opens_def dek_in_def key_rows_def fun_eq_iff)

end
