(* ===== verification/Events.thy ===== *)
theory Events
  imports Fill_Reads
begin

text \<open>
  \<open>ledger/events.py\<close>: the write path and the read path of the events table. \<open>session.add\<close> writes to
  the session's own view at once: nothing reads that view between an \<open>add\<close> and the \<open>flush\<close> of its chunk.
\<close>

record event_write =
  ew_position_id :: uuid
  ew_event_type :: string
  ew_event_time :: datetime
  ew_fill_ids_hash :: "string option"
  ew_open_debit_usd :: "pydec option"
  ew_close_credit_usd :: "pydec option"

record event_record =
  er_id :: uuid
  er_user_id :: uuid
  er_position_id :: uuid
  er_event_type :: string
  er_event_time :: datetime
  er_fill_ids_hash :: "string option"
  er_open_debit_usd :: "pydec option"
  er_close_credit_usd :: "pydec option"
  er_key_version :: int

definition event_chunk_size :: nat where
  "event_chunk_size = 2000"

definition event_associated_data :: "string \<Rightarrow> uuid \<Rightarrow> bytes" where
  "event_associated_data column event_id = join '':'' [''events'', column, uuid_str event_id]"

text \<open>This module's own copy of the data-key lookup.\<close>

definition events_current_dek :: "env \<Rightarrow> uuid \<Rightarrow> (bytes \<times> int) op" where
  "events_current_dek e user_id =
     op_bind (sel user_data_keys_table (\<lambda>r. dk_user_id r = user_id)) (\<lambda>rows.
     op_bind (one (latest_version rows)) (\<lambda>row.
     op_bind (unwrap_dek e (dk_wrapped_dek row) (dk_wrap_nonce row) (master_key_bytes e)) (\<lambda>dek.
     ret (dek, dk_key_version row))))"

definition insert_event :: "env \<Rightarrow> bytes \<Rightarrow> int \<Rightarrow> uuid \<Rightarrow> event_write \<Rightarrow> unit op" where
  "insert_event e dek key_version user_id event =
     (if ew_event_type event = ''ROLL'' \<and>
         (ew_open_debit_usd event = None \<or> ew_close_credit_usd event = None)
      then raise ValueError
      else op_bind (draw_uuid e) (\<lambda>event_id.
           op_bind (encrypt_amount e dek (event_associated_data ''open_debit_usd'' event_id)
                      (ew_open_debit_usd event)) (\<lambda>(dc, dn).
           op_bind (encrypt_amount e dek (event_associated_data ''close_credit_usd'' event_id)
                      (ew_close_credit_usd event)) (\<lambda>(cc, cn).
           ins events_table \<lparr>e_id = event_id, e_user_id = user_id,
             e_position_id = ew_position_id event, e_event_type = ew_event_type event,
             e_event_time = ew_event_time event, e_fill_ids_hash = ew_fill_ids_hash event,
             e_open_debit_usd_ciphertext = dc, e_open_debit_usd_nonce = dn,
             e_close_credit_usd_ciphertext = cc, e_close_credit_usd_nonce = cn,
             e_key_version = key_version\<rparr>))))"

definition insert_events :: "env \<Rightarrow> uuid \<Rightarrow> event_write list \<Rightarrow> unit op" where
  "insert_events e user_id events =
     op_bind (events_current_dek e user_id) (\<lambda>(dek, key_version).
     op_bind (op_map (\<lambda>chunk. op_map (insert_event e dek key_version user_id) chunk)
                (chunks event_chunk_size events)) (\<lambda>_.
     ret ()))"

definition event_record_of :: "env \<Rightarrow> bytes \<Rightarrow> uuid \<Rightarrow> event_row \<Rightarrow> event_record op" where
  "event_record_of e dek user_id row =
     op_bind (decrypt_amount e dek (event_associated_data ''open_debit_usd'' (e_id row))
                (e_open_debit_usd_ciphertext row) (e_open_debit_usd_nonce row)) (\<lambda>open_debit_usd.
     op_bind (decrypt_amount e dek (event_associated_data ''close_credit_usd'' (e_id row))
                (e_close_credit_usd_ciphertext row) (e_close_credit_usd_nonce row)) (\<lambda>close_credit_usd.
     ret \<lparr>er_id = e_id row, er_user_id = user_id, er_position_id = e_position_id row,
       er_event_type = e_event_type row, er_event_time = e_event_time row,
       er_fill_ids_hash = e_fill_ids_hash row, er_open_debit_usd = open_debit_usd,
       er_close_credit_usd = close_credit_usd, er_key_version = e_key_version row\<rparr>))"

fun read_event_rows ::
    "env \<Rightarrow> uuid \<Rightarrow> (int \<Rightarrow> bytes option) \<Rightarrow> event_row list \<Rightarrow> event_record list op" where
  "read_event_rows e user_id dek_cache [] = ret []"
| "read_event_rows e user_id dek_cache (row # rows) =
     op_bind (cached_dek e DataKeyMissing user_id dek_cache (e_key_version row)) (\<lambda>(dek, dek_cache').
     op_bind (event_record_of e dek user_id row) (\<lambda>rc.
     op_bind (read_event_rows e user_id dek_cache' rows) (\<lambda>records.
     ret (rc # records))))"

definition read_events :: "env \<Rightarrow> uuid \<Rightarrow> event_record list op" where
  "read_events e user_id =
     op_bind (sel events_table (\<lambda>r. e_user_id r = user_id)) (\<lambda>rows.
     read_event_rows e user_id (\<lambda>_. None) rows)"


section \<open>The write path as a function\<close>

lemma events_current_dek_eq: "events_current_dek = current_dek"
  by (simp add: fun_eq_iff events_current_dek_def current_dek_def)

definition event_draws :: "event_write \<Rightarrow> nat" where
  "event_draws w = 1 + amount_draws (ew_open_debit_usd w) + amount_draws (ew_close_credit_usd w)"

definition sealed_event :: "env \<Rightarrow> bytes \<Rightarrow> int \<Rightarrow> uuid \<Rightarrow> nat \<Rightarrow> event_write \<Rightarrow> event_row" where
  "sealed_event e dek kv u n w =
     (let id = gen_uuid e n;
          d = sealed_amount e dek (event_associated_data ''open_debit_usd'' id) (n + 1) (ew_open_debit_usd w);
          c = sealed_amount e dek (event_associated_data ''close_credit_usd'' id)
                (n + 1 + amount_draws (ew_open_debit_usd w)) (ew_close_credit_usd w)
      in \<lparr>e_id = id, e_user_id = u, e_position_id = ew_position_id w, e_event_type = ew_event_type w,
          e_event_time = ew_event_time w, e_fill_ids_hash = ew_fill_ids_hash w,
          e_open_debit_usd_ciphertext = fst d, e_open_debit_usd_nonce = snd d,
          e_close_credit_usd_ciphertext = fst c, e_close_credit_usd_nonce = snd c,
          e_key_version = kv\<rparr>)"

definition roll_incomplete :: "event_write \<Rightarrow> bool" where
  "roll_incomplete w \<longleftrightarrow> ew_event_type w = ''ROLL'' \<and>
     (ew_open_debit_usd w = None \<or> ew_close_credit_usd w = None)"

lemma insert_event_run:
  "insert_event e dek kv u w s =
     (if roll_incomplete w then (Inl ValueError, s)
      else ins events_table (sealed_event e dek kv u (s_draws s) w)
             (s\<lparr>s_draws := s_draws s + event_draws w\<rparr>))"
  by (cases "roll_incomplete w")
    (auto simp: insert_event_def roll_incomplete_def op_run draw_uuid_def encrypt_amount_run
      sealed_event_def event_draws_def Let_def case_prod_unfold add.assoc)

lemma events_table_simps [simp]:
  "tb_rows events_table = t_events" "tb_put events_table xs d = t_events_update (\<lambda>_. xs) d"
  "tb_owner events_table = e_user_id" "tb_grants events_table = [SELECT, INSERT, DELETE]"
  "tb_parents events_table d r = (has_user d (e_user_id r) \<and> has_position d (e_position_id r))"
  "tb_check events_table = event_row_check" "tb_clash events_table q r = (e_id q = e_id r)"
  by (simp_all add: events_table_def)

lemma ins_events_Inr:
  assumes "as_user u s" "ins events_table r s = (Inr x, s')"
  shows "s' = s\<lparr>s_db := t_events_update (\<lambda>_. t_events (s_db s) @ [r]) (s_db s)\<rparr>"
proof -
  have "INSERT \<in> set (tb_grants events_table)" by simp
  note st = events_tb.stmt_as [OF assms(1) this]
  from assms(2) show ?thesis
    by (auto simp: ins_def st insert_row_def split: sum.splits prod.splits option.splits if_splits)
qed

text \<open>The session after a list of events went in.\<close>

definition sealed_events :: "env \<Rightarrow> bytes \<Rightarrow> int \<Rightarrow> uuid \<Rightarrow> nat \<Rightarrow> event_write list \<Rightarrow> event_row list" where
  "sealed_events e dek kv u n ws = map (\<lambda>(i, w). sealed_event e dek kv u i w) (numbered event_draws n ws)"

definition after_events :: "env \<Rightarrow> bytes \<Rightarrow> int \<Rightarrow> uuid \<Rightarrow> sess \<Rightarrow> event_write list \<Rightarrow> sess" where
  "after_events e dek kv u s ws =
     s\<lparr>s_db := t_events_update (\<lambda>_. t_events (s_db s) @ sealed_events e dek kv u (s_draws s) ws) (s_db s),
       s_draws := s_draws s + sum_list (map event_draws ws)\<rparr>"

lemma after_events_append:
  "after_events e dek kv u s (xs @ ys) = after_events e dek kv u (after_events e dek kv u s xs) ys"
  by (simp add: after_events_def sealed_events_def numbered_append add.assoc)

lemma after_events_simps [simp]:
  "as_user u (after_events e dek kv v s ws) = as_user u s"
  "t_user_data_keys (s_db (after_events e dek kv v s ws)) = t_user_data_keys (s_db s)"
  "t_fills (s_db (after_events e dek kv v s ws)) = t_fills (s_db s)"
  "t_legs (s_db (after_events e dek kv v s ws)) = t_legs (s_db s)"
  "after_events e dek kv v s [] = s"
  by (simp_all add: after_events_def sealed_events_def as_user_def)

lemma insert_event_Inr:
  assumes "as_user u s" "insert_event e dek kv u w s = (Inr x, s')"
  shows "s' = after_events e dek kv u s [w] \<and> \<not> roll_incomplete w"
proof -
  let ?t = "s\<lparr>s_draws := s_draws s + event_draws w\<rparr>"
  have t: "as_user u ?t" using assms(1) by simp
  have "\<not> roll_incomplete w" using assms(2) by (auto simp: insert_event_run)
  with assms(2) have "ins events_table (sealed_event e dek kv u (s_draws s) w) ?t = (Inr x, s')"
    by (simp add: insert_event_run)
  from ins_events_Inr [OF t this] \<open>\<not> roll_incomplete w\<close> show ?thesis
    by (simp add: after_events_def sealed_events_def)
qed

lemma insert_event_map_Inr:
  assumes "as_user u s" "op_map (insert_event e dek kv u) ws s = (Inr xs, s')"
  shows "s' = after_events e dek kv u s ws \<and> list_all (\<lambda>w. \<not> roll_incomplete w) ws"
  using assms
proof (induction ws arbitrary: s xs)
  case (Cons w ws)
  from Cons.prems(2) obtain x t ys where i: "insert_event e dek kv u w s = (Inr x, t)"
    and m: "op_map (insert_event e dek kv u) ws t = (Inr ys, s')"
    by (auto simp: op_run split: prod.splits sum.splits)
  from insert_event_Inr [OF Cons.prems(1) i] have t: "t = after_events e dek kv u s [w]"
    and w: "\<not> roll_incomplete w" by simp_all
  have "as_user u t" using Cons.prems(1) by (simp add: t)
  from Cons.IH [OF this m] w show ?case
    using after_events_append [of e dek kv u s "[w]" ws] by (simp add: t)
qed (simp add: op_run)

lemma insert_event_chunks_Inr:
  assumes "as_user u s" "op_map (op_map (insert_event e dek kv u)) cs s = (Inr xs, s')"
  shows "s' = after_events e dek kv u s (concat cs) \<and> list_all (\<lambda>w. \<not> roll_incomplete w) (concat cs)"
  using assms
proof (induction cs arbitrary: s xs)
  case (Cons c cs)
  from Cons.prems(2) obtain x t ys where i: "op_map (insert_event e dek kv u) c s = (Inr x, t)"
    and m: "op_map (op_map (insert_event e dek kv u)) cs t = (Inr ys, s')"
    by (auto simp: op_run split: prod.splits sum.splits)
  from insert_event_map_Inr [OF Cons.prems(1) i] have t: "t = after_events e dek kv u s c"
    and w: "list_all (\<lambda>w. \<not> roll_incomplete w) c" by simp_all
  have "as_user u t" using Cons.prems(1) by (simp add: t)
  from Cons.IH [OF this m] w show ?case
    using after_events_append [of e dek kv u s c "concat cs"] by (simp add: t)
qed (simp add: op_run)

lemma insert_events_Inr:
  assumes "as_user u s" "keys_distinct (s_db s)" "insert_events e u ws s = (Inr x, s')"
  shows "\<exists>dek kv. dek_in e (s_db s) u kv = Some dek \<and> s' = after_events e dek kv u s ws \<and>
    list_all (\<lambda>w. \<not> roll_incomplete w) ws"
proof -
  from assms(3) obtain dek kv t xs where c: "current_dek e u s = (Inr (dek, kv), t)"
    and m: "op_map (op_map (insert_event e dek kv u)) (chunks event_chunk_size ws) t = (Inr xs, s')"
    by (auto simp: insert_events_def op_run events_current_dek_eq split: prod.splits sum.splits)
  from current_dek_as [OF assms(1,2) c] have t: "t = s" and d: "dek_in e (s_db s) u kv = Some dek"
    by simp_all
  from insert_event_chunks_Inr [OF assms(1) m [unfolded t]] d show ?thesis
    by (auto simp: event_chunk_size_def)
qed

end
