(* ===== verification/Event_Reads.thy ===== *)
theory Event_Reads
  imports Events Demo_World
begin

text \<open>
  The read path of the events table as a function, what a written event reads back as, when a batch goes
  in, and the promises: the round trip, and that no ROLL is stored without both its amounts.
\<close>

section \<open>The read path as a function\<close>

definition open_event :: "env \<Rightarrow> bytes \<Rightarrow> uuid \<Rightarrow> event_row \<Rightarrow> exn + event_record" where
  "open_event e dek u row =
     (case open_amount e dek (event_associated_data ''open_debit_usd'' (e_id row))
             (e_open_debit_usd_ciphertext row) (e_open_debit_usd_nonce row) of
        Inl x \<Rightarrow> Inl x
      | Inr d \<Rightarrow>
     (case open_amount e dek (event_associated_data ''close_credit_usd'' (e_id row))
             (e_close_credit_usd_ciphertext row) (e_close_credit_usd_nonce row) of
        Inl x \<Rightarrow> Inl x
      | Inr c \<Rightarrow> Inr \<lparr>er_id = e_id row, er_user_id = u, er_position_id = e_position_id row,
           er_event_type = e_event_type row, er_event_time = e_event_time row,
           er_fill_ids_hash = e_fill_ids_hash row, er_open_debit_usd = d, er_close_credit_usd = c,
           er_key_version = e_key_version row\<rparr>))"

lemma event_record_of_run: "event_record_of e dek u row s = (open_event e dek u row, s)"
  by (auto simp: event_record_of_def open_event_def op_run decrypt_amount_run split: sum.split)

definition opens_event :: "env \<Rightarrow> db \<Rightarrow> uuid \<Rightarrow> event_row \<Rightarrow> event_record \<Rightarrow> bool" where
  "opens_event e d u row rc \<longleftrightarrow>
     (\<exists>dek. dek_in e d u (e_key_version row) = Some dek \<and> open_event e dek u row = Inr rc)"

lemma read_event_rows_ok:
  assumes "as_user u s" "cache_ok e (s_db s) u c" "list_all2 (opens_event e (s_db s) u) rows records"
  shows "read_event_rows e u c rows s = (Inr records, s)"
  using assms(3,2)
proof (induction rows records arbitrary: c rule: list_all2_induct)
  case Nil
  then show ?case by (simp add: op_run)
next
  case (Cons row rows rc records)
  then obtain dek where "dek_in e (s_db s) u (e_key_version row) = Some dek"
    and o: "open_event e dek u row = Inr rc" by (auto simp: opens_event_def)
  from cached_dek_as [OF assms(1) Cons.prems this(1)] obtain c' where
    "cached_dek e DataKeyMissing u c (e_key_version row) s = (Inr (dek, c'), s)"
    and "cache_ok e (s_db s) u c'" by blast
  with Cons.IH o show ?case by (simp add: op_run event_record_of_run)
qed

lemma read_event_rows_Inr:
  assumes "as_user u s" "cache_ok e (s_db s) u c" "read_event_rows e u c rows s = (Inr records, s')"
  shows "s' = s \<and> list_all2 (opens_event e (s_db s) u) rows records"
  using assms(2,3)
proof (induction rows arbitrary: c records)
  case Nil
  then show ?case by (simp add: op_run)
next
  case (Cons row rows)
  from Cons.prems(2) obtain dek c' t where
    k: "cached_dek e DataKeyMissing u c (e_key_version row) s = (Inr (dek, c'), t)"
    by (auto simp: op_run split: prod.splits sum.splits)
  from cached_dek_Inr [OF assms(1) Cons.prems(1) k]
  have t: "t = s" and d: "dek_in e (s_db s) u (e_key_version row) = Some dek"
    and c': "cache_ok e (s_db s) u c'" by simp_all
  from Cons.prems(2) k t obtain rc rs where o: "open_event e dek u row = Inr rc"
    and r: "read_event_rows e u c' rows s = (Inr rs, s')" and "records = rc # rs"
    by (auto simp: op_run event_record_of_run split: prod.splits sum.splits)
  with Cons.IH [OF c' r] d show ?case by (auto simp: opens_event_def)
qed

definition own_events :: "db \<Rightarrow> uuid \<Rightarrow> event_row list" where
  "own_events d u = filter (\<lambda>r. e_user_id r = u) (t_events d)"

lemma sel_events_as:
  assumes "as_user u s"
  shows "sel events_table (\<lambda>r. e_user_id r = u) s = (Inr (own_events (s_db s) u), s)"
  using events_tb.sel_as [OF assms, of "\<lambda>r. e_user_id r = u"] by (simp add: own_events_def)

lemma read_events_iff:
  assumes "as_user u s"
  shows "read_events e u s = (Inr records, s') \<longleftrightarrow>
    s' = s \<and> list_all2 (opens_event e (s_db s) u) (own_events (s_db s) u) records"
proof -
  have "read_events e u s = read_event_rows e u (\<lambda>_. None) (own_events (s_db s) u) s"
    by (simp add: read_events_def op_run sel_events_as [OF assms])
  then show ?thesis
    using read_event_rows_ok [OF assms cache_ok_empty] read_event_rows_Inr [OF assms cache_ok_empty]
    by metis
qed


section \<open>What a written event reads back as\<close>

definition record_of_event :: "uuid \<Rightarrow> int \<Rightarrow> uuid \<Rightarrow> event_write \<Rightarrow> event_record" where
  "record_of_event u kv i w =
     \<lparr>er_id = i, er_user_id = u, er_position_id = ew_position_id w, er_event_type = ew_event_type w,
      er_event_time = ew_event_time w, er_fill_ids_hash = ew_fill_ids_hash w,
      er_open_debit_usd = ew_open_debit_usd w, er_close_credit_usd = ew_close_credit_usd w,
      er_key_version = kv\<rparr>"

lemma open_sealed_event:
  "aead_correct e \<Longrightarrow>
   open_event e dek u (sealed_event e dek kv u n w) = Inr (record_of_event u kv (gen_uuid e n) w)"
  by (simp add: open_event_def sealed_event_def Let_def record_of_event_def open_sealed_amount)

lemma sealed_event_fields [simp]:
  "e_user_id (sealed_event e dek kv u i w) = u" "e_key_version (sealed_event e dek kv u i w) = kv"
  "e_id (sealed_event e dek kv u i w) = gen_uuid e i"
  "e_position_id (sealed_event e dek kv u i w) = ew_position_id w"
  "e_event_type (sealed_event e dek kv u i w) = ew_event_type w"
  by (simp_all add: sealed_event_def Let_def)

text \<open>The identifiers a batch draws.\<close>

definition event_ids :: "env \<Rightarrow> nat \<Rightarrow> event_write list \<Rightarrow> uuid list" where
  "event_ids e n ws = map (\<lambda>(i, w). gen_uuid e i) (numbered event_draws n ws)"

lemma length_event_ids [simp]: "length (event_ids e n ws) = length ws"
  by (metis event_ids_def length_map snd_numbered)

lemma own_events_after:
  "own_events (s_db (after_events e dek kv u s ws)) u =
     own_events (s_db s) u @ sealed_events e dek kv u (s_draws s) ws"
  by (auto simp: own_events_def after_events_def sealed_events_def filter_id_conv)

lemma insert_events_reads:
  assumes "aead_correct e" "as_user u s" "keys_distinct (s_db s)"
    and read: "read_events e u s = (Inr old, s)"
    and ins: "insert_events e u ws s = (Inr x, s')"
  shows "\<exists>kv ids. length ids = length ws \<and>
    read_events e u s' = (Inr (old @ map2 (record_of_event u kv) ids ws), s')"
proof -
  from insert_events_Inr [OF assms(2,3) ins] obtain dek kv where
    d: "dek_in e (s_db s) u kv = Some dek" and s': "s' = after_events e dek kv u s ws" by blast
  let ?new = "map2 (record_of_event u kv) (event_ids e (s_draws s) ws) ws"
  have keys: "t_user_data_keys (s_db s') = t_user_data_keys (s_db s)" by (simp add: s')
  then have same: "opens_event e (s_db s') u = opens_event e (s_db s) u"
    by (simp add: opens_event_def [abs_def] dek_in_def key_rows_def)
  have "list_all2 (opens_event e (s_db s) u) (sealed_events e dek kv u n vs)
      (map2 (record_of_event u kv) (event_ids e n vs) vs)" for n vs
    by (induction event_draws n vs rule: numbered.induct)
      (simp_all add: sealed_events_def event_ids_def opens_event_def d open_sealed_event [OF assms(1)])
  moreover have "list_all2 (opens_event e (s_db s) u) (own_events (s_db s) u) old"
    using read assms(2) by (simp add: read_events_iff)
  ultimately have "list_all2 (opens_event e (s_db s') u) (own_events (s_db s') u) (old @ ?new)"
    unfolding same by (simp add: s' own_events_after list_all2_appendI)
  moreover have "as_user u s'" using assms(2) by (simp add: s')
  ultimately have "read_events e u s' = (Inr (old @ ?new), s')" by (simp add: read_events_iff)
  moreover have "length (event_ids e (s_draws s) ws) = length ws" by simp
  ultimately show ?thesis by blast
qed

text \<open>
  Writing events and reading them back. After a successful \<open>insert_events\<close>, \<open>read_events\<close> returns
  what it returned before, then one record per event handed in, in order, each with exactly the
  position, type, time, digest and the two amounts it was written with, never netted.
\<close>

theorem insert_then_read_events:
  assumes "aead_correct e" "as_user u s" "keys_distinct (s_db s)"
    and "read_events e u s = (Inr old, s)"
    and "insert_events e u ws s = (Inr x, s')"
  shows "\<exists>kv ids. length ids = length ws \<and>
    read_events e u s' = (Inr (old @ map2 (record_of_event u kv) ids ws), s')"
  using assms by (rule insert_events_reads)


section \<open>When a batch goes in\<close>

definition event_ok :: "db \<Rightarrow> event_write \<Rightarrow> bool" where
  "event_ok d w \<longleftrightarrow> ew_event_type w \<in> {''OPEN'', ''CLOSE'', ''ROLL'', ''SETTLEMENT''} \<and>
     has_position d (ew_position_id w) \<and> \<not> roll_incomplete w"

lemma sealed_event_check:
  "int2 kv \<Longrightarrow> event_ok d w \<Longrightarrow> event_row_check (sealed_event e dek kv u n w) = None"
  by (auto simp: event_row_check_def event_ok_def roll_incomplete_def sealed_event_def Let_def
      sealed_amount_def split: option.splits)

lemma insert_event_ok:
  assumes "as_user u s" "has_user (s_db s) u" "int2 kv" "event_ok (s_db s) w"
    and "gen_uuid e (s_draws s) \<notin> e_id ` set (t_events (s_db s))"
  shows "insert_event e dek kv u w s = (Inr (), after_events e dek kv u s [w])"
proof -
  let ?t = "s\<lparr>s_draws := s_draws s + event_draws w\<rparr>"
  have t: "as_user u ?t" using assms(1) by simp
  have "\<not> list_ex (\<lambda>q. tb_clash events_table q (sealed_event e dek kv u (s_draws s) w)) (tb_rows events_table (s_db ?t))"
    using assms(5) by (auto simp: list_ex_iff image_iff)
  from events_tb.ins_as [OF t _ _ _ this] assms(2,3,4) sealed_event_check [OF assms(3,4)]
  have "ins events_table (sealed_event e dek kv u (s_draws s) w) ?t = (Inr (), after_events e dek kv u s [w])"
    by (simp add: event_ok_def after_events_def sealed_events_def)
  then show ?thesis using assms(4) by (simp add: insert_event_run event_ok_def)
qed

lemma after_events_has [simp]:
  "has_user (s_db (after_events e dek kv v s ws)) = has_user (s_db s)"
  "event_ok (s_db (after_events e dek kv v s ws)) = event_ok (s_db s)"
  by (auto simp: after_events_def has_user_def has_position_def event_ok_def fun_eq_iff)

lemma insert_event_map_ok:
  assumes "as_user u s" "has_user (s_db s) u" "int2 kv" "list_all (event_ok (s_db s)) ws"
    and "distinct (map e_id (t_events (s_db s)) @ event_ids e (s_draws s) ws)"
  shows "\<exists>xs. op_map (insert_event e dek kv u) ws s = (Inr xs, after_events e dek kv u s ws)"
  using assms
proof (induction ws arbitrary: s)
  case (Cons w ws)
  let ?t = "after_events e dek kv u s [w]"
  have "gen_uuid e (s_draws s) \<notin> e_id ` set (t_events (s_db s))"
    using Cons.prems(5) by (simp add: event_ids_def)
  then have "insert_event e dek kv u w s = (Inr (), ?t)"
    using Cons.prems by (intro insert_event_ok) simp_all
  moreover have "distinct (map e_id (t_events (s_db ?t)) @ event_ids e (s_draws ?t) ws)"
    using Cons.prems(5) by (auto simp: event_ids_def after_events_def sealed_events_def)
  then have "\<exists>xs. op_map (insert_event e dek kv u) ws ?t = (Inr xs, after_events e dek kv u ?t ws)"
    using Cons.prems by (intro Cons.IH) simp_all
  ultimately show ?case using after_events_append [of e dek kv u s "[w]" ws] by (auto simp: op_run)
qed (simp add: op_run)

lemma insert_event_chunks_ok:
  assumes "as_user u s" "has_user (s_db s) u" "int2 kv" "list_all (event_ok (s_db s)) (concat cs)"
    and "distinct (map e_id (t_events (s_db s)) @ event_ids e (s_draws s) (concat cs))"
  shows "\<exists>xs. op_map (op_map (insert_event e dek kv u)) cs s = (Inr xs, after_events e dek kv u s (concat cs))"
  using assms
proof (induction cs arbitrary: s)
  case (Cons c cs)
  let ?t = "after_events e dek kv u s c"
  have ids: "event_ids e (s_draws s) (c @ concat cs) =
      event_ids e (s_draws s) c @ event_ids e (s_draws ?t) (concat cs)"
    by (simp add: event_ids_def numbered_append after_events_def)
  have "\<exists>xs. op_map (insert_event e dek kv u) c s = (Inr xs, ?t)"
    using Cons.prems ids by (intro insert_event_map_ok) auto
  moreover have "map e_id (t_events (s_db ?t)) = map e_id (t_events (s_db s)) @ event_ids e (s_draws s) c"
    by (simp add: after_events_def sealed_events_def event_ids_def case_prod_unfold)
  then have "\<exists>xs. op_map (op_map (insert_event e dek kv u)) cs ?t = (Inr xs, after_events e dek kv u ?t (concat cs))"
    using Cons.prems ids by (intro Cons.IH) simp_all
  ultimately show ?case using after_events_append [of e dek kv u s c "concat cs"] by (auto simp: op_run)
qed (simp add: op_run)

lemma insert_events_ok:
  assumes "as_user u s" "has_user (s_db s) u" "int2 kv" "current_dek e u s = (Inr (dek, kv), s)"
    "list_all (event_ok (s_db s)) ws"
    "distinct (map e_id (t_events (s_db s)) @ event_ids e (s_draws s) ws)"
  shows "insert_events e u ws s = (Inr (), after_events e dek kv u s ws)"
proof -
  have c: "concat (chunks event_chunk_size ws) = ws" by (simp add: event_chunk_size_def)
  then have "\<exists>xs. op_map (op_map (insert_event e dek kv u)) (chunks event_chunk_size ws) s =
      (Inr xs, after_events e dek kv u s ws)"
    using insert_event_chunks_ok [OF assms(1-3), of "chunks event_chunk_size ws" e dek] assms(5,6) by simp
  then show ?thesis using assms(4) by (auto simp: insert_events_def events_current_dek_eq op_run)
qed


section \<open>ROLL events\<close>

text \<open>
  A ROLL without both its amounts is refused. A batch containing one never succeeds: \<open>insert_events\<close>
  ends in an exception, so the caller's transaction cannot go on as if it had been written.
\<close>

theorem insert_events_refuses_roll:
  assumes "as_user u s" "keys_distinct (s_db s)" "list_ex roll_incomplete ws"
  shows "\<exists>x. fst (insert_events e u ws s) = Inl x"
proof (cases "fst (insert_events e u ws s)")
  case (Inr y)
  then have "insert_events e u ws s = (Inr y, snd (insert_events e u ws s))"
    by (metis prod.collapse)
  from insert_events_Inr [OF assms(1,2) this] assms(3) show ?thesis
    by (auto simp: list_all_iff list_ex_iff)
qed simp

text \<open>The invariant of migration 0008's \<open>roll_has_both_legs\<close>, which every insert keeps.\<close>

definition rolls_whole :: "db \<Rightarrow> bool" where
  "rolls_whole d \<longleftrightarrow> list_all (\<lambda>r. e_event_type r \<noteq> ''ROLL'' \<or>
     e_open_debit_usd_ciphertext r \<noteq> None \<and> e_close_credit_usd_ciphertext r \<noteq> None) (t_events d)"

text \<open>A demonstration database with one position.\<close>

definition demo_pos_db :: db where
  "demo_pos_db = demo_db\<lparr>t_positions := [\<lparr>p_id = 9, p_user_id = demo_user, p_opened_at = None, p_closed_at = None\<rparr>]\<rparr>"

definition demo_pos_sess :: sess where
  "demo_pos_sess = demo_sess\<lparr>s_db := demo_pos_db\<rparr>"

definition demo_event :: event_write where
  "demo_event = \<lparr>ew_position_id = 9, ew_event_type = ''OPEN'', ew_event_time = 5,
     ew_fill_ids_hash = Some ''h'', ew_open_debit_usd = Some (Dec False 1275 (-2)),
     ew_close_credit_usd = None\<rparr>"

definition demo_bad_roll :: event_write where
  "demo_bad_roll = demo_event\<lparr>ew_event_type := ''ROLL''\<rparr>"

lemma demo_pos_simps [simp]:
  "as_user demo_user demo_pos_sess" "s_db demo_pos_sess = demo_pos_db" "s_draws demo_pos_sess = 0"
  "has_user demo_pos_db demo_user" "keys_distinct demo_pos_db" "t_events demo_pos_db = []"
  "t_user_data_keys demo_pos_db = t_user_data_keys demo_db" "t_fills demo_pos_db = []" "t_legs demo_pos_db = []"
  by (simp_all add: demo_pos_sess_def demo_pos_db_def has_user_def demo_db_def demo_user_row_def
      keys_distinct_def empty_db_def)

lemma demo_pos_current_dek [simp]:
  "current_dek demo_env demo_user demo_pos_sess = (Inr (demo_dek, 1), demo_pos_sess)"
proof -
  have "key_rows (s_db demo_pos_sess) demo_user = [demo_key_row]"
    using demo_key_rows by (simp add: key_rows_def)
  then show ?thesis using current_dek_single [of demo_user demo_pos_sess demo_key_row demo_env demo_dek] by simp
qed

lemma demo_event_ok: "event_ok demo_pos_db demo_event"
  by (simp add: event_ok_def demo_event_def roll_incomplete_def demo_pos_db_def has_position_def)

lemma demo_insert_event:
  "insert_events demo_env demo_user [demo_event] demo_pos_sess =
    (Inr (), after_events demo_env demo_dek 1 demo_user demo_pos_sess [demo_event])"
  by (rule insert_events_ok) (simp_all add: demo_event_ok event_ids_def)

lemma demo_read_no_events: "read_events demo_env demo_user demo_pos_sess = (Inr [], demo_pos_sess)"
  by (simp add: read_events_iff own_events_def)

theorem insert_then_read_events_witness:
  "\<exists>kv i s'. insert_events demo_env demo_user [demo_event] demo_pos_sess = (Inr (), s') \<and>
    read_events demo_env demo_user s' = (Inr [record_of_event demo_user kv i demo_event], s')"
proof -
  have d: "keys_distinct (s_db demo_pos_sess)" by simp
  from insert_then_read_events [OF demo_aead_correct demo_pos_simps(1) d demo_read_no_events demo_insert_event]
  obtain kv ids where "length ids = 1" and r: "read_events demo_env demo_user
      (after_events demo_env demo_dek 1 demo_user demo_pos_sess [demo_event]) =
      (Inr (map2 (record_of_event demo_user kv) ids [demo_event]),
       after_events demo_env demo_dek 1 demo_user demo_pos_sess [demo_event])" by auto
  then obtain i where "ids = [i]" by (auto simp: length_Suc_conv)
  with r demo_insert_event show ?thesis by auto
qed

theorem insert_events_refuses_roll_witness:
  "\<exists>x. fst (insert_events demo_env demo_user [demo_event, demo_bad_roll] demo_pos_sess) = Inl x"
  by (rule insert_events_refuses_roll)
    (simp_all add: demo_bad_roll_def demo_event_def roll_incomplete_def)

text \<open>
  The refusal comes row by row: the events in front of the incomplete ROLL are in the session by then,
  although the docstring says nothing is added before the \<open>ValueError\<close>.
\<close>

lemma incomplete_roll_after_a_row:
  "\<exists>s'. insert_events demo_env demo_user [demo_event, demo_bad_roll] demo_pos_sess = (Inl ValueError, s') \<and>
    length (t_events (s_db s')) = 1"
proof -
  have first: "insert_event demo_env demo_dek 1 demo_user demo_event demo_pos_sess =
      (Inr (), after_events demo_env demo_dek 1 demo_user demo_pos_sess [demo_event])"
    by (rule insert_event_ok) (simp_all add: demo_event_ok)
  have second: "insert_event demo_env demo_dek 1 demo_user demo_bad_roll t = (Inl ValueError, t)" for t
    by (simp add: insert_event_run roll_incomplete_def demo_bad_roll_def demo_event_def)
  have c: "chunks event_chunk_size [demo_event, demo_bad_roll] = [[demo_event, demo_bad_roll]]"
    by (rule chunks_single) (simp_all add: event_chunk_size_def)
  show ?thesis
    by (simp add: insert_events_def events_current_dek_eq op_run c first second after_events_def sealed_events_def)
qed

end
