(* ===== verification/Fill_Promises.thy ===== *)
theory Fill_Promises
  imports Fill_Reads Demo_World
begin

text \<open>
  The promises of the fill table, with a witness in the demonstration world for each.
\<close>

definition demo_fill :: fill_write where
  "demo_fill = \<lparr>fw_order_id = ''1006'', fw_occ_symbol = ''SPXW260116C07425000'', fw_leg_index = 0,
     fw_execution_time = 1700000000000000, fw_position_effect = ''OPENING'', fw_side = ''BUY'',
     fw_quantity = Some (Dec False 1 0), fw_price_usd = Some (Dec False 38025 (-2))\<rparr>"

definition demo_fills :: "fill_write list" where
  "demo_fills = [demo_fill, demo_fill\<lparr>fw_leg_index := 1, fw_side := ''SELL'', fw_price_usd := None\<rparr>]"

lemma demo_no_fills [simp]: "own_fills demo_db u = []"
  by (simp add: own_fills_def demo_db_def empty_db_def)

lemma demo_read_fills [simp]: "read_fills demo_env demo_user demo_sess = (Inr [], demo_sess)"
  by (simp add: read_fills_iff)

lemma demo_fills_int2: "\<forall>fw \<in> set demo_fills. int2 (fw_leg_index fw)"
  by (simp add: demo_fills_def demo_fill_def)

lemma demo_insert_fills:
  "insert_fills demo_env demo_user demo_fills demo_sess =
    (Inr (length (landed_fills demo_env demo_dek 1 demo_user demo_sess demo_fills)),
     after_fills demo_env demo_dek 1 demo_user demo_sess demo_fills)"
  unfolding insert_fills_def
  by (rule insert_fills_chunked_run) (simp_all add: demo_fills_int2 fill_chunk_size_def)


section \<open>Write, then read\<close>

lemma insert_fills_reads:
  assumes "aead_correct e" "as_user u s" "keys_distinct (s_db s)"
    and read: "read_fills e u s = (Inr old, s)"
    and ins: "insert_fills e u fws s = (Inr n, s')"
  shows "\<exists>kv. n = length (fresh write_key (record_key ` set old) fws) \<and>
    read_fills e u s' =
      (Inr (old @ map (record_of_write u kv) (fresh write_key (record_key ` set old) fws)), s')"
proof (cases "fws = []")
  case True
  with ins have "n = 0" "s' = s" by (simp_all add: insert_fills_def insert_fills_chunked_def op_run)
  with True read show ?thesis by simp
next
  case False
  have op: "list_all2 (opens e (s_db s) u) (own_fills (s_db s) u) old"
    using read assms(2) by (simp add: read_fills_iff)
  from insert_fills_chunked_result [OF _ assms(2,3) False ins [unfolded insert_fills_def]]
  obtain dek kv where d: "dek_in e (s_db s) u kv = Some dek"
    and n: "n = length (landed_fills e dek kv u s fws)" and s': "s' = after_fills e dek kv u s fws"
    by (auto simp: fill_chunk_size_def)
  have keys: "t_user_data_keys (s_db s') = t_user_data_keys (s_db s)" by (simp add: s')
  note landed = landed_fills_opens [OF assms(1) d op keys, of fws]
  have "as_user u s'" using assms(2) by (simp add: s')
  moreover have "list_all2 (opens e (s_db s') u) (own_fills (s_db s') u)
      (old @ map (record_of_write u kv) (fresh write_key (record_key ` set old) fws))"
    using op landed(1) opens_keys_cong [OF keys]
    by (simp add: s' own_fills_after list_all2_appendI)
  ultimately show ?thesis using n landed(2) by (auto simp: read_fills_iff)
qed

text \<open>
  C17: Writing fills and reading them back. After a successful \<open>insert_fills\<close>, \<open>read_fills\<close> returns what
  it returned before, followed by the fills of the batch whose five-column key was new, each exactly as
  handed in (quantity and price included, as decimals); the first write of a key wins, inside the batch
  and against the table. The returned count is the number of those fills.
\<close>

theorem insert_then_read_fills:
  assumes "aead_correct e" "as_user u s" "keys_distinct (s_db s)"
    and "read_fills e u s = (Inr old, s)"
    and "insert_fills e u fws s = (Inr n, s')"
  shows "\<exists>kv. n = length (fresh write_key (record_key ` set old) fws) \<and>
    read_fills e u s' =
      (Inr (old @ map (record_of_write u kv) (fresh write_key (record_key ` set old) fws)), s')"
  using assms by (rule insert_fills_reads)

theorem insert_then_read_fills_witness:
  "\<exists>kv s'. insert_fills demo_env demo_user demo_fills demo_sess = (Inr 2, s') \<and>
    read_fills demo_env demo_user s' = (Inr (map (record_of_write demo_user kv) demo_fills), s')"
proof -
  have "fresh write_key {} demo_fills = demo_fills"
    by (rule fresh_all) (simp_all add: demo_fills_def demo_fill_def write_key_def)
  with insert_then_read_fills [OF demo_aead_correct demo_as_user _ demo_read_fills demo_insert_fills]
  show ?thesis using demo_insert_fills by (auto simp: demo_fills_def)
qed

text \<open>
  Re-running over an overlapping window is a no-op. Inserting again fills that a successful insert
  has already offered lands nothing and leaves every record as it was.
\<close>

theorem insert_fills_again:
  assumes "aead_correct e" "as_user u s" "keys_distinct (s_db s)"
    and "read_fills e u s = (Inr old, s)"
    and "insert_fills e u fws s = (Inr n, s')" and "set gws \<subseteq> set fws"
    and "insert_fills e u gws s' = (Inr m, s'')"
  shows "m = 0 \<and> fst (read_fills e u s'') = fst (read_fills e u s')"
proof -
  from insert_fills_reads [OF assms(1-5)] obtain kv where r: "read_fills e u s' =
      (Inr (old @ map (record_of_write u kv) (fresh write_key (record_key ` set old) fws)), s')"
    (is "_ = (Inr ?all, _)") by blast
  have as: "as_user u s'" "keys_distinct (s_db s')"
    using insert_fills_frame [OF assms(2,3,5)] by simp_all
  have "record_key (record_of_write u kv w) = write_key w" for w
    by (simp add: record_key_def record_of_write_def write_key_def)
  then have "record_key ` set ?all = record_key ` set old \<union> write_key ` set fws"
    using fresh_keys [of write_key "record_key ` set old" fws] by (auto simp: image_Un image_image)
  then have "fresh write_key (record_key ` set ?all) gws = []"
    using assms(6) by (intro fresh_none) auto
  with insert_fills_reads [OF assms(1) as r assms(7)] r show ?thesis by auto
qed

lemma key_rows_cong: "t_user_data_keys d = t_user_data_keys d' \<Longrightarrow> key_rows d u = key_rows d' u"
  by (simp add: key_rows_def)

lemma demo_insert_again:
  fixes t defines "t \<equiv> after_fills demo_env demo_dek 1 demo_user demo_sess demo_fills"
  shows "insert_fills demo_env demo_user demo_fills t =
    (Inr (length (landed_fills demo_env demo_dek 1 demo_user t demo_fills)),
     after_fills demo_env demo_dek 1 demo_user t demo_fills)"
proof -
  have "key_rows (s_db t) demo_user = [demo_key_row]"
    using key_rows_cong [of "s_db t" demo_db demo_user] by (simp add: t_def)
  then have "current_dek demo_env demo_user t = (Inr (demo_dek, 1), t)"
    using current_dek_single [of demo_user t demo_key_row demo_env demo_dek] by (simp add: t_def)
  then show ?thesis
    unfolding insert_fills_def
    by (intro insert_fills_chunked_run) (simp_all add: t_def demo_fills_int2 fill_chunk_size_def)
qed

theorem insert_fills_again_witness:
  "\<exists>s' s''. insert_fills demo_env demo_user demo_fills demo_sess = (Inr 2, s') \<and>
    insert_fills demo_env demo_user demo_fills s' = (Inr 0, s'') \<and>
    fst (read_fills demo_env demo_user s'') = fst (read_fills demo_env demo_user s')"
proof -
  have two: "length (landed_fills demo_env demo_dek 1 demo_user demo_sess demo_fills) = 2"
  proof -
    have "fresh write_key {} demo_fills = demo_fills"
      by (rule fresh_all) (simp_all add: demo_fills_def demo_fill_def write_key_def)
    with insert_fills_reads [OF demo_aead_correct demo_as_user _ demo_read_fills demo_insert_fills]
    show ?thesis by (simp add: demo_fills_def)
  qed
  have d: "keys_distinct (s_db demo_sess)" by simp
  note again = insert_fills_again [OF demo_aead_correct demo_as_user d demo_read_fills
      demo_insert_fills order_refl demo_insert_again]
  with two demo_insert_fills demo_insert_again show ?thesis by auto
qed

text \<open>
  Chunking never shows. For every positive chunk size, on a session of the user whose data key
  unwraps, writing the fills succeeds and gives the same result and the same session: as if the whole
  batch were one statement.
\<close>

theorem insert_fills_any_chunk:
  assumes "0 < k" "as_user u s" "has_user (s_db s) u" "int2 kv"
    and "current_dek e u s = (Inr (dek, kv), s)" "\<forall>fw \<in> set fws. int2 (fw_leg_index fw)"
  shows "\<exists>n s'. insert_fills e u fws s = (Inr n, s') \<and> insert_fills_chunked k e u fws s = (Inr n, s') \<and>
    n \<le> length fws \<and> length (t_fills (s_db s')) = length (t_fills (s_db s)) + n"
proof -
  have "length (fresh key K xs) \<le> length xs" for key :: "'a \<Rightarrow> 'b" and K xs
    by (induction key K xs rule: fresh.induct) auto
  then have "length (landed_fills e dek kv u s fws) \<le> length fws"
    by (metis landed_fills_def length_map sealed_fills_def snd_numbered)
  then show ?thesis
    using insert_fills_chunked_run [OF _ assms(2,5,3,4,6)] assms(1)
    by (auto simp: insert_fills_def fill_chunk_size_def after_fills_def)
qed

theorem insert_fills_any_chunk_witness:
  "\<exists>n s'. insert_fills demo_env demo_user demo_fills demo_sess = (Inr n, s') \<and>
    insert_fills_chunked 1 demo_env demo_user demo_fills demo_sess = (Inr n, s') \<and> n \<le> 2"
  using insert_fills_any_chunk [of 1 demo_user demo_sess 1 demo_env demo_dek demo_fills]
  by (auto simp: demo_fills_int2 demo_fills_def)


section \<open>Row binding and crypto-shred\<close>

lemma fill_associated_data_inject:
  assumes "CHR '':'' \<notin> set o1" "CHR '':'' \<notin> set o2" "CHR '':'' \<notin> set y1" "CHR '':'' \<notin> set y2"
    and "CHR '':'' \<notin> set c1" "CHR '':'' \<notin> set c2"
    and "fill_associated_data c1 u1 o1 y1 i1 t1 = fill_associated_data c2 u2 o2 y2 i2 t2"
  shows "c1 = c2 \<and> u1 = u2 \<and> o1 = o2 \<and> y1 = y2 \<and> i1 = i2 \<and> epoch_micros t1 = epoch_micros t2"
proof -
  have int: "CHR '':'' \<notin> set (show_int i)" for i
    using show_int_chars [of "CHR '':''" i] by (auto simp: is_digit_def)
  have "[''fills'', c1, uuid_str u1, o1, y1, show_int i1, show_int (epoch_micros t1)] =
    [''fills'', c2, uuid_str u2, o2, y2, show_int i2, show_int (epoch_micros t2)]"
    by (rule join_inject [where c = "CHR '':''"])
      (use assms int in \<open>auto simp: fill_associated_data_def Let_def\<close>)
  then show ?thesis by simp
qed

text \<open>
  A ciphertext copied from another row is refused. If a row carries a quantity sealed for a fill of
  another user, order, contract, leg or (rendered) time, reading the row raises \<open>InvalidTag\<close>: it never
  shows the other row's number. Order ids and symbols are colon free, as the rendering needs.
\<close>

theorem moved_quantity_refused:
  assumes "aead_binding e"
    and "CHR '':'' \<notin> set (fw_order_id fw)" "CHR '':'' \<notin> set (f_order_id row)"
    and "CHR '':'' \<notin> set (fw_occ_symbol fw)" "CHR '':'' \<notin> set (f_occ_symbol row)"
    and "fw_quantity fw = Some v"
    and "f_quantity_ciphertext row = f_quantity_ciphertext (sealed_fill e dek kv u' n fw)"
    and "f_quantity_nonce row = f_quantity_nonce (sealed_fill e dek kv u' n fw)"
    and "(u', fw_order_id fw, fw_occ_symbol fw, fw_leg_index fw, epoch_micros (fw_execution_time fw)) \<noteq>
         (u, f_order_id row, f_occ_symbol row, f_leg_index row, epoch_micros (f_execution_time row))"
  shows "fill_record_of e dek u row s = (Inl InvalidTag, s)"
proof -
  have "fill_ad ''quantity'' u' fw \<noteq> row_ad ''quantity'' u row"
  proof
    assume "fill_ad ''quantity'' u' fw = row_ad ''quantity'' u row"
    from fill_associated_data_inject [OF assms(2-5) _ _ this [unfolded fill_ad_def row_ad_def]] assms(9)
    show False by simp
  qed
  then have "open_amount e dek (row_ad ''quantity'' u row) (f_quantity_ciphertext row)
      (f_quantity_nonce row) = Inl InvalidTag"
    using assms(1,6-8)
    by (simp add: open_amount_def sealed_fill_def sealed_amount_def Let_def aead_bindingD)
  then show ?thesis by (simp add: fill_record_of_run open_fill_def)
qed

theorem moved_quantity_refused_witness:
  "fill_record_of demo_env demo_dek demo_user
     (sealed_fill demo_env demo_dek 1 demo_user 0 demo_fill\<lparr>f_leg_index := 1\<rparr>) demo_sess =
   (Inl InvalidTag, demo_sess)"
  by (rule moved_quantity_refused [OF demo_aead_binding, where fw = demo_fill and n = 0 and kv = 1
        and u' = demo_user and v = "Dec False 1 0"])
    (simp_all add: demo_fill_def sealed_fill_def Let_def)

text \<open>
  A crypto-shred is told apart from an empty account. With the user's data keys gone, \<open>read_fills\<close>
  raises \<open>DataKeyMissing\<close> exactly when the user has a fill, and returns the empty list otherwise.
\<close>

theorem read_fills_after_shred:
  assumes "as_user u s" "key_rows (s_db s) u = []"
  shows "read_fills e u s = ((if own_fills (s_db s) u = [] then Inr [] else Inl DataKeyMissing), s)"
proof (cases "own_fills (s_db s) u")
  case Nil
  then show ?thesis by (simp add: read_fills_def op_run sel_fills_as [OF assms(1)])
next
  case (Cons r rs)
  then show ?thesis
    by (simp add: read_fills_def op_run sel_fills_as [OF assms(1)] cached_dek_missing [OF assms])
qed

theorem read_fills_after_shred_witness:
  "read_fills demo_env demo_user (demo_sess\<lparr>s_db := demo_db\<lparr>t_user_data_keys := [],
     t_fills := [sealed_fill demo_env demo_dek 1 demo_user 0 demo_fill]\<rparr>\<rparr>) =
   (Inl DataKeyMissing, demo_sess\<lparr>s_db := demo_db\<lparr>t_user_data_keys := [],
     t_fills := [sealed_fill demo_env demo_dek 1 demo_user 0 demo_fill]\<rparr>\<rparr>)"
  using read_fills_after_shred [of demo_user "demo_sess\<lparr>s_db := demo_db\<lparr>t_user_data_keys := [],
     t_fills := [sealed_fill demo_env demo_dek 1 demo_user 0 demo_fill]\<rparr>\<rparr>" demo_env]
  by (simp add: key_rows_def own_fills_def)

end
