(* ===== verification/Sync_Events.thy ===== *)
theory Sync_Events
  imports Net_Amounts Resolve Event_Reads Fill_Promises
begin

text \<open>
  \<open>sync_events\<close> of \<open>ledger/pairing.py\<close>: lock, resolve, read, derive, and insert the events whose
  (position, type, hash) is not stored yet. It leaves the stored events alone, adds each missing one
  once, and a second run adds nothing.
\<close>

definition triple_of_record :: "event_record \<Rightarrow> uuid \<times> string \<times> string option" where
  "triple_of_record r = (er_position_id r, er_event_type r, er_fill_ids_hash r)"

definition triple_of_event :: "derived_event \<Rightarrow> uuid \<times> string \<times> string option" where
  "triple_of_event v = (v_position_id v, event_type_value (v_event_type v), Some (v_fill_ids_hash v))"

definition draft_of :: "derived_event \<Rightarrow> event_write" where
  "draft_of v = \<lparr>ew_position_id = v_position_id v, ew_event_type = event_type_value (v_event_type v),
     ew_event_time = v_event_time v, ew_fill_ids_hash = Some (v_fill_ids_hash v),
     ew_open_debit_usd = v_open_debit_usd v, ew_close_credit_usd = v_close_credit_usd v\<rparr>"

definition drafts_of :: "event_record list \<Rightarrow> derivation \<Rightarrow> event_write list" where
  "drafts_of existing d =
     (let existing_triples = set (map triple_of_record existing)
      in map draft_of (filter (\<lambda>v. triple_of_event v \<notin> existing_triples) (dv_events d)))"

definition narrow :: "string list option \<Rightarrow> fill_record list \<Rightarrow> fill_record list" where
  "narrow order_ids fills = (case order_ids of
     None \<Rightarrow> fills | Some wanted \<Rightarrow> filter (\<lambda>f. fr_order_id f \<in> set wanted) fills)"

definition sync_events :: "env \<Rightarrow> uuid \<Rightarrow> string list option \<Rightarrow> derivation op" where
  "sync_events e user_id order_ids =
     op_seq (advisory_xact_lock (hashtext e (uuid_str user_id)))
     (op_bind (resolve_fill_positions user_id) (\<lambda>resolutions.
      op_bind (read_fills e user_id) (\<lambda>fills.
      (let d = derive_events e (narrow order_ids fills) resolutions
       in op_bind (read_events e user_id) (\<lambda>existing.
          (let drafts = drafts_of existing d
           in op_seq (if drafts \<noteq> [] then insert_events e user_id drafts else ret ())
                (ret d)))))))"


section \<open>What one run does\<close>

definition locked :: "int \<Rightarrow> sess \<Rightarrow> sess" where
  "locked k s = s\<lparr>s_locks := k # s_locks s\<rparr>"

lemma locked_simps [simp]:
  "as_user u (locked k s) = as_user u s" "s_db (locked k s) = s_db s" "s_draws (locked k s) = s_draws s"
  by (simp_all add: locked_def as_user_def)

lemma lock_as: "as_user u s \<Longrightarrow> advisory_xact_lock k s = (Inr (), locked k s)"
  by (simp add: advisory_xact_lock_def on_live_def as_user_def locked_def)

text \<open>The resolutions and the derivation a session's rows determine.\<close>

definition db_resolutions :: "db \<Rightarrow> uuid \<Rightarrow> resolutions" where
  "db_resolutions d u = resolutions_of (resolution_rows (filter (\<lambda>l. l_user_id l = u) (t_legs d))
     (filter (\<lambda>f. f_user_id f = u) (t_fills d)))"

lemma sync_events_run:
  assumes "as_user u s" and "read_fills e u s = (Inr fills, s)" and "read_events e u s = (Inr old, s)"
  shows "sync_events e u w s =
    (let d = derive_events e (narrow w fills) (db_resolutions (s_db s) u); ds = drafts_of old d;
         t = locked (hashtext e (uuid_str u)) s
     in if ds = [] then (Inr d, t)
        else (case insert_events e u ds t of (Inl x, s') \<Rightarrow> (Inl x, s') | (Inr _, s') \<Rightarrow> (Inr d, s')))"
proof -
  let ?t = "locked (hashtext e (uuid_str u)) s"
  have t: "as_user u ?t" using assms(1) by simp
  have f: "read_fills e u ?t = (Inr fills, ?t)"
    using assms(1,2) t by (simp add: read_fills_iff)
  have ev: "read_events e u ?t = (Inr old, ?t)"
    using assms(1,3) t by (simp add: read_events_iff)
  show ?thesis
    by (simp add: sync_events_def op_run lock_as [OF assms(1)] resolve_fill_positions_as [OF t] f ev
        db_resolutions_def Let_def split: prod.split sum.split)
qed

lemma triple_of_draft: "triple_of_record (record_of_event u kv i (draft_of v)) = triple_of_event v"
  by (simp add: triple_of_record_def record_of_event_def draft_of_def triple_of_event_def)

lemma sync_events_reads:
  assumes "aead_correct e" "as_user u s" "keys_distinct (s_db s)"
    and fills: "read_fills e u s = (Inr fills, s)" and old: "read_events e u s = (Inr old, s)"
    and sync: "sync_events e u w s = (Inr d, s')"
  shows "d = derive_events e (narrow w fills) (db_resolutions (s_db s) u)"
    and "\<exists>kv ids. length ids = length (drafts_of old d) \<and>
      read_events e u s' = (Inr (old @ map2 (record_of_event u kv) ids (drafts_of old d)), s')"
    and "read_fills e u s' = (Inr fills, s')" and "as_user u s'" and "keys_distinct (s_db s')"
    and "db_resolutions (s_db s') u = db_resolutions (s_db s) u"
proof -
  let ?t = "locked (hashtext e (uuid_str u)) s" and ?ds = "drafts_of old d"
  show d: "d = derive_events e (narrow w fills) (db_resolutions (s_db s) u)"
    using sync by (auto simp: sync_events_run [OF assms(2) fills old] Let_def
        split: if_splits prod.splits sum.splits)
  have t: "as_user u ?t" "keys_distinct (s_db ?t)" "read_events e u ?t = (Inr old, ?t)"
    using assms by (simp_all add: read_events_iff)
  have op: "list_all2 (opens e (s_db s) u) (own_fills (s_db s) u) fills"
    using fills assms(2) by (simp add: read_fills_iff)
  show "\<exists>kv ids. length ids = length ?ds \<and>
      read_events e u s' = (Inr (old @ map2 (record_of_event u kv) ids ?ds), s')"
    and "read_fills e u s' = (Inr fills, s')" and "as_user u s'" and "keys_distinct (s_db s')"
    and "db_resolutions (s_db s') u = db_resolutions (s_db s) u"
  proof -
    have "(\<exists>kv ids. length ids = length ?ds \<and>
        read_events e u s' = (Inr (old @ map2 (record_of_event u kv) ids ?ds), s')) \<and>
      read_fills e u s' = (Inr fills, s') \<and> as_user u s' \<and> keys_distinct (s_db s') \<and>
      db_resolutions (s_db s') u = db_resolutions (s_db s) u"
    proof (cases "?ds = []")
      case True
      with sync d have "s' = ?t" by (simp add: sync_events_run [OF assms(2) fills old] Let_def)
      with True t assms(2,3) op show ?thesis by (simp add: read_fills_iff)
    next
      case False
      with sync d obtain x where i: "insert_events e u ?ds ?t = (Inr x, s')"
        by (auto simp: sync_events_run [OF assms(2) fills old] Let_def split: prod.splits sum.splits)
      from insert_events_Inr [OF t(1,2) i] obtain dek kv where s': "s' = after_events e dek kv u ?t ?ds"
        by blast
      have "opens e (s_db s') u = opens e (s_db s) u"
        by (rule opens_keys_cong) (simp add: s')
      with op t(1) assms(2,3) insert_events_reads [OF assms(1) t(1,2,3) i]
      show ?thesis
        by (simp add: s' read_fills_iff own_fills_def keys_distinct_def db_resolutions_def)
    qed
    then show "\<exists>kv ids. length ids = length ?ds \<and>
        read_events e u s' = (Inr (old @ map2 (record_of_event u kv) ids ?ds), s')"
      "read_fills e u s' = (Inr fills, s')" "as_user u s'" "keys_distinct (s_db s')"
      "db_resolutions (s_db s') u = db_resolutions (s_db s) u" by blast+
  qed
qed

text \<open>
  C27: What a sync stores. A successful \<open>sync_events\<close> returns the derivation of the user's fills over
  the user's resolutions, narrowed to the orders asked for, and afterwards the events read back as the
  stored ones, unchanged, followed by one record for each derived event whose (position, type, hash) was
  not stored. Nothing stored is rewritten, so an event under a new hash stands beside its predecessor.
\<close>

theorem sync_events_stores:
  assumes "aead_correct e" "as_user u s" "keys_distinct (s_db s)"
    and "read_fills e u s = (Inr fills, s)" and "read_events e u s = (Inr old, s)"
    and "sync_events e u w s = (Inr d, s')"
  shows "d = derive_events e (narrow w fills) (db_resolutions (s_db s) u) \<and>
    (\<exists>kv ids. length ids = length (drafts_of old d) \<and>
      read_events e u s' = (Inr (old @ map2 (record_of_event u kv) ids (drafts_of old d)), s'))"
  using sync_events_reads [OF assms] by blast

lemma map2_triples: "length ids = length vs \<Longrightarrow>
    map triple_of_record (map2 (record_of_event u kv) ids (map draft_of vs)) = map triple_of_event vs"
  by (induction ids vs rule: list_induct2) (simp_all add: triple_of_draft)

text \<open>
  C16: Syncing twice is syncing once. A second run over the same orders returns the same derivation,
  inserts nothing and leaves the stored events as the first run left them.
\<close>

theorem sync_events_idempotent:
  assumes "aead_correct e" "as_user u s" "keys_distinct (s_db s)"
    and "read_fills e u s = (Inr fills, s)" and "read_events e u s = (Inr old, s)"
    and "sync_events e u w s = (Inr d, s')"
  shows "\<exists>s''. sync_events e u w s' = (Inr d, s'') \<and> s_db s'' = s_db s'"
proof -
  note r = sync_events_reads [OF assms]
  from r(2) obtain kv ids where l: "length ids = length (drafts_of old d)"
    and ev: "read_events e u s' = (Inr (old @ map2 (record_of_event u kv) ids (drafts_of old d)), s')"
    (is "_ = (Inr ?all, _)") by blast
  let ?new = "filter (\<lambda>v. triple_of_event v \<notin> set (map triple_of_record old)) (dv_events d)"
  have ds: "drafts_of old d = map draft_of ?new" by (simp add: drafts_of_def)
  have len: "length ids = length ?new" using l unfolding ds by simp
  have "map triple_of_record ?all = map triple_of_record old @ map triple_of_event ?new"
    unfolding ds map_append by (simp only: map2_triples [OF len])
  then have "set (map triple_of_record ?all) = set (map triple_of_record old @ map triple_of_event ?new)"
    by simp
  then have "drafts_of ?all d = []"
    unfolding drafts_of_def Let_def by (auto simp: filter_empty_conv)
  moreover have "derive_events e (narrow w fills) (db_resolutions (s_db s') u) = d"
    using r(1,6) by simp
  ultimately have "sync_events e u w s' = (Inr d, locked (hashtext e (uuid_str u)) s')"
    by (simp add: sync_events_run [OF r(4,3) ev] Let_def)
  then show ?thesis by simp
qed


section \<open>A sync that succeeds\<close>

text \<open>The foreign key of the legs: what the database keeps.\<close>

definition legs_placed :: "db \<Rightarrow> bool" where
  "legs_placed d \<longleftrightarrow> list_all (\<lambda>l. has_position d (l_position_id l)) (t_legs d)"

lemma resolved_has_position:
  assumes "legs_placed d" "res_get (db_resolutions d u) k = Some p"
  shows "has_position d p"
proof -
  obtain ord oc i t where k: "k = (ord, oc, i, t)" by (cases k)
  have u: "of_user u (filter (\<lambda>l. l_user_id l = u) (t_legs d)) (filter (\<lambda>f. f_user_id f = u) (t_fills d))"
    by (simp add: of_user_def)
  from assms(2) have "p \<in> holding (filter (\<lambda>l. l_user_id l = u) (t_legs d)) oc"
    unfolding db_resolutions_def k resolve_law [OF u] by blast
  with assms(1) show ?thesis by (auto simp: holding_def legs_placed_def list_all_iff)
qed

lemma drafts_ok:
  assumes "legs_placed d"
  shows "list_all (event_ok d) (drafts_of old (derive_events e fills (db_resolutions d u)))"
proof -
  have "event_ok d (draft_of v)" if "v \<in> set (dv_events (derive_events e fills (db_resolutions d u)))" for v
  proof -
    from that obtain p role ord g where g: "((p, role, ord), g) \<in> set (fill_groups (db_resolutions d u) fills)"
      and v: "v = event_of_group e ((p, role, ord), g)" by (auto simp: derive_events_eq)
    then obtain f where "survives (db_resolutions d u) f" "group_key_of (db_resolutions d u) f = (p, role, ord)"
      by (auto simp: fill_groups_mem)
    then have "res_get (db_resolutions d u) (fill_key_of f) = Some p"
      by (auto simp: survives_def is_resolved_def group_key_of_def)
    from resolved_has_position [OF assms this] have "has_position d (v_position_id v)"
      by (simp add: v event_of_group_def Let_def)
    then show ?thesis
      by (cases "v_event_type v")
        (simp_all add: event_ok_def draft_of_def roll_incomplete_def event_type_value_def)
  qed
  then show ?thesis by (auto simp: drafts_of_def Let_def list_all_iff)
qed

text \<open>
  C28: A sync goes through. On a live session of an existing user whose data key unwraps, whose fills and
  events are readable and whose legs have their positions, \<open>sync_events\<close> succeeds, given that \<open>uuid4\<close> has
  not repeated itself: every derived event passes the table's checks and foreign keys.
\<close>

theorem sync_events_succeeds:
  assumes "as_user u s" "has_user (s_db s) u" "legs_placed (s_db s)"
    and "current_dek e u (locked (hashtext e (uuid_str u)) s) =
      (Inr (dek, kv), locked (hashtext e (uuid_str u)) s)" "int2 kv"
    and "read_fills e u s = (Inr fills, s)" "read_events e u s = (Inr old, s)"
    and "distinct (map e_id (t_events (s_db s)) @ event_ids e (s_draws s)
      (drafts_of old (derive_events e (narrow w fills) (db_resolutions (s_db s) u))))"
  shows "\<exists>s'. sync_events e u w s =
    (Inr (derive_events e (narrow w fills) (db_resolutions (s_db s) u)), s')"
proof -
  let ?t = "locked (hashtext e (uuid_str u)) s"
  let ?ds = "drafts_of old (derive_events e (narrow w fills) (db_resolutions (s_db s) u))"
  have "insert_events e u ?ds ?t = (Inr (), after_events e dek kv u ?t ?ds)"
    using assms drafts_ok [OF assms(3)] by (intro insert_events_ok) simp_all
  then show ?thesis by (simp add: sync_events_run [OF assms(1,6,7)] Let_def)
qed

text \<open>One position with one leg, and one fill of it.\<close>

definition demo_sync_sess :: sess where
  "demo_sync_sess = demo_sess\<lparr>s_db := demo_pos_db\<lparr>t_legs := [demo_leg_row 9 ''X''],
     t_fills := [demo_fill_row ''a'' ''X'']\<rparr>\<rparr>"

definition demo_sync_record :: fill_record where
  "demo_sync_record = \<lparr>fr_user_id = demo_user, fr_order_id = ''a'', fr_occ_symbol = ''X'',
     fr_leg_index = 0, fr_execution_time = 5, fr_position_effect = ''OPENING'', fr_side = ''BUY'',
     fr_quantity = None, fr_price_usd = None, fr_key_version = 1\<rparr>"

lemma demo_sync_simps [simp]:
  "as_user demo_user demo_sync_sess" "s_draws demo_sync_sess = 0"
  "has_user (s_db demo_sync_sess) demo_user" "keys_distinct (s_db demo_sync_sess)"
  "t_events (s_db demo_sync_sess) = []" "legs_placed (s_db demo_sync_sess)"
  using demo_pos_simps
  by (simp_all add: demo_sync_sess_def has_user_def keys_distinct_def legs_placed_def demo_leg_row_def
      has_position_def demo_pos_db_def)

lemma demo_sync_keys: "t_user_data_keys (s_db demo_sync_sess) = [demo_key_row]"
  by (simp add: demo_sync_sess_def demo_db_def)

lemma demo_sync_dek: "current_dek demo_env demo_user (locked k demo_sync_sess) =
    (Inr (demo_dek, 1), locked k demo_sync_sess)"
proof -
  have "key_rows (s_db (locked k demo_sync_sess)) demo_user = [demo_key_row]"
    by (simp add: key_rows_def demo_sync_keys) (simp add: demo_key_row_def)
  then show ?thesis
    using current_dek_single [of demo_user "locked k demo_sync_sess" demo_key_row demo_env demo_dek] by simp
qed

lemma demo_sync_fills: "read_fills demo_env demo_user demo_sync_sess = (Inr [demo_sync_record], demo_sync_sess)"
proof -
  have "dek_in demo_env (s_db demo_sync_sess) demo_user 1 = Some demo_dek"
    using demo_dek_in by (simp add: dek_in_def key_rows_def demo_sync_keys demo_db_def)
  then show ?thesis
    by (simp add: read_fills_iff own_fills_def demo_sync_sess_def opens_def open_fill_def open_amount_def
        demo_fill_row_def demo_sync_record_def)
qed

lemma demo_sync_events: "read_events demo_env demo_user demo_sync_sess = (Inr [], demo_sync_sess)"
  by (simp add: read_events_iff own_events_def)

lemma length_drafts_of: "length (drafts_of old d) \<le> length (dv_events d)"
  by (simp add: drafts_of_def)

lemma demo_sync_distinct: "distinct (map e_id (t_events (s_db demo_sync_sess)) @
    event_ids demo_env (s_draws demo_sync_sess) (drafts_of [] (derive_events demo_env
      (narrow None [demo_sync_record]) (db_resolutions (s_db demo_sync_sess) demo_user))))"
proof -
  have "length (fill_groups res [r]) \<le> 1" for res r
    by (simp add: fill_groups_def group_by_def)
  then have "length (dv_events (derive_events demo_env [demo_sync_record] res)) \<le> 1" for res
    by (simp add: derive_events_eq)
  then have "length (drafts_of [] (derive_events demo_env [demo_sync_record] res)) \<le> 1" for res
    using length_drafts_of le_trans by blast
  moreover have "distinct (event_ids e n ws)" if "length ws \<le> 1" for e n ws
    using that by (cases ws) (simp_all add: event_ids_def)
  ultimately show ?thesis by (simp add: narrow_def)
qed

lemma demo_sync_ok: "\<exists>d s'. sync_events demo_env demo_user None demo_sync_sess = (Inr d, s')"
proof -
  let ?t = "locked (hashtext demo_env (uuid_str demo_user)) demo_sync_sess"
  let ?ds = "drafts_of [] (derive_events demo_env (narrow None [demo_sync_record])
    (db_resolutions (s_db demo_sync_sess) demo_user))"
  have "insert_events demo_env demo_user ?ds ?t = (Inr (), after_events demo_env demo_dek 1 demo_user ?t ?ds)"
    using drafts_ok [OF demo_sync_simps(6)] demo_sync_dek demo_sync_distinct
    by (intro insert_events_ok) simp_all
  then show ?thesis by (simp add: sync_events_run [OF _ demo_sync_fills demo_sync_events] Let_def)
qed

theorem sync_events_succeeds_witness:
  "\<exists>d s'. sync_events demo_env demo_user None demo_sync_sess = (Inr d, s')"
  using sync_events_succeeds [OF demo_sync_simps(1,3,6) demo_sync_dek int2_small(2) demo_sync_fills
      demo_sync_events demo_sync_distinct] by blast

theorem sync_events_stores_witness:
  "\<exists>d s' records. sync_events demo_env demo_user None demo_sync_sess = (Inr d, s') \<and>
    read_events demo_env demo_user s' = (Inr records, s') \<and> length records = length (drafts_of [] d)"
proof -
  obtain d s' where sy: "sync_events demo_env demo_user None demo_sync_sess = (Inr d, s')"
    using demo_sync_ok by blast
  from sync_events_stores [OF demo_aead_correct demo_sync_simps(1,4) demo_sync_fills demo_sync_events sy]
  obtain kv ids where "length ids = length (drafts_of [] d)"
    "read_events demo_env demo_user s' = (Inr (map2 (record_of_event demo_user kv) ids (drafts_of [] d)), s')"
    by auto
  with sy show ?thesis by auto
qed

theorem sync_events_idempotent_witness:
  "\<exists>d s' s''. sync_events demo_env demo_user None demo_sync_sess = (Inr d, s') \<and>
    sync_events demo_env demo_user None s' = (Inr d, s'') \<and> s_db s'' = s_db s'"
proof -
  obtain d s' where sy: "sync_events demo_env demo_user None demo_sync_sess = (Inr d, s')"
    using demo_sync_ok by blast
  from sync_events_idempotent [OF demo_aead_correct demo_sync_simps(1,4) demo_sync_fills demo_sync_events sy] sy
  show ?thesis by blast
qed

end
