(* ===== verification/Late_Fills.thy ===== *)
theory Late_Fills
  imports Sync_Events
begin

text \<open>
  A fill that arrives after its order's event was stored. The event's digest covers the fills of the group, so
  the larger group is a new event to \<open>sync_events\<close>, next to the one that is stored.
\<close>

lemma derived_events_set: "set (dv_events (derive_events e fs res)) = event_of_group e ` set (fill_groups res fs)"
  by (simp add: derive_events_eq)

lemma hash_of_group: "v_fill_ids_hash (event_of_group e (k, g)) = hash_fill_ids e (map fill_key_of g)"
  by (cases k) (simp add: event_of_group_def Let_def)

definition hashed_text :: "fill_record list \<Rightarrow> string" where
  "hashed_text g = join '':'' (sort (map render_key (map fill_key_of g)))"

lemma hash_determines_keys:
  assumes "hash_fill_ids e (map fill_key_of g) = hash_fill_ids e (map fill_key_of h)" "g \<noteq> []" "h \<noteq> []"
    and "\<forall>x \<in> set g \<union> set h. colon_free (fill_key_of x)" "inj_on (sha256_hex e) {hashed_text g, hashed_text h}"
  shows "(rendered_key \<circ> fill_key_of) ` set g = (rendered_key \<circ> fill_key_of) ` set h"
proof -
  have "mset (map rendered_key (map fill_key_of g)) = mset (map rendered_key (map fill_key_of h))"
    by (rule hash_fill_ids_identifies [THEN iffD1, OF _ _ _ _ _ assms(1)])
      (use assms(2-5) in \<open>auto simp: hashed_text_def\<close>)
  then have "set (map rendered_key (map fill_key_of g)) = set (map rendered_key (map fill_key_of h))"
    by (rule mset_eq_setD)
  then show ?thesis by (simp add: image_comp)
qed

text \<open>
  Let the events of some fills be stored, and one more fill of a known order resolve to the same position. The
  next derivation yields an event of the same position and type over the old fills and the new one, and it is
  inserted beside the stored event over the old fills: the position's fills of that order are counted twice.
\<close>

theorem late_fill_counted_twice:
  fixes fs res f
  defines "k \<equiv> group_key_of res f" and "gs \<equiv> filter (\<lambda>x. survives res x \<and> group_key_of res x = group_key_of res f) fs"
  assumes "survives res f" "gs \<noteq> []"
    and "set (map triple_of_record existing) = triple_of_event ` set (dv_events (derive_events e fs res))"
    and "\<forall>x \<in> set (f # fs). colon_free (fill_key_of x)"
    and "(rendered_key \<circ> fill_key_of) f \<notin> (rendered_key \<circ> fill_key_of) ` set fs"
    and "inj_on (sha256_hex e) (hashed_text ` (insert (gs @ [f]) (snd ` set (fill_groups res fs))))"
  shows "event_of_group e (k, gs) \<in> set (dv_events (derive_events e fs res)) \<and>
    draft_of (event_of_group e (k, gs @ [f])) \<in> set (drafts_of existing (derive_events e (fs @ [f]) res))"
proof -
  let ?w = "event_of_group e (k, gs @ [f])"
  have g: "(k, gs) \<in> set (fill_groups res fs)"
    using assms(4) by (auto simp: fill_groups_mem k_def gs_def filter_empty_conv)
  have w: "(k, gs @ [f]) \<in> set (fill_groups res (fs @ [f]))"
    using assms(3) by (auto simp: fill_groups_mem k_def gs_def)
  have "triple_of_event ?w \<notin> triple_of_event ` set (dv_events (derive_events e fs res))"
  proof
    assume "triple_of_event ?w \<in> triple_of_event ` set (dv_events (derive_events e fs res))"
    then obtain j h where h: "(j, h) \<in> set (fill_groups res fs)" "triple_of_event ?w = triple_of_event (event_of_group e (j, h))"
      unfolding derived_events_set by auto
    have sub: "set h \<subseteq> set fs" "h \<noteq> []" using h(1) by (auto simp: fill_groups_mem filter_empty_conv)
    have "hash_fill_ids e (map fill_key_of (gs @ [f])) = hash_fill_ids e (map fill_key_of h)"
      using h(2) unfolding triple_of_event_def hash_of_group by simp
    then have "(rendered_key \<circ> fill_key_of) ` set (gs @ [f]) = (rendered_key \<circ> fill_key_of) ` set h"
    proof (rule hash_determines_keys)
      show "\<forall>x \<in> set (gs @ [f]) \<union> set h. colon_free (fill_key_of x)"
        using assms(6) sub(1) by (auto simp: gs_def)
      show "inj_on (sha256_hex e) {hashed_text (gs @ [f]), hashed_text h}"
        by (rule inj_on_subset [OF assms(8)]) (use h(1) in force)
    qed (use sub(2) in simp_all)
    then have "(rendered_key \<circ> fill_key_of) f \<in> (rendered_key \<circ> fill_key_of) ` set h" by auto
    with sub(1) assms(7) show False by blast
  qed
  with assms(5) have "triple_of_event ?w \<notin> set (map triple_of_record existing)" by (simp only: simp_thms)
  moreover have "?w \<in> set (dv_events (derive_events e (fs @ [f]) res))" unfolding derived_events_set using w by blast
  ultimately have "draft_of ?w \<in> set (drafts_of existing (derive_events e (fs @ [f]) res))"
    unfolding drafts_of_def Let_def by (simp only: set_map set_filter) blast
  then show ?thesis using g unfolding derived_events_set by blast
qed


text \<open>The demonstration's calendar, its second leg arriving after the event over the first was stored.\<close>

definition first_leg :: fill_record where "first_leg = hd demo_legs"
definition second_leg :: fill_record where "second_leg = last demo_legs"

definition stored_open :: event_record where
  "stored_open = \<lparr>er_id = 1, er_user_id = demo_user, er_position_id = 9, er_event_type = ''OPEN'', er_event_time = 5,
     er_fill_ids_hash = Some (hash_fill_ids demo_env [fill_key_of first_leg]), er_open_debit_usd = None,
     er_close_credit_usd = None, er_key_version = 1\<rparr>"

lemma first_group: "fill_groups demo_res [first_leg] = [((9, RoleOpen, ''1006''), [first_leg])]"
  by (simp add: fill_groups_def first_leg_def demo_legs_def demo_leg_def survives_def is_resolved_def res_get_def
      demo_res_def is_classified_def classify_fill_def group_by_def group_key_of_def)

theorem late_fill_counted_twice_witness:
  "draft_of (event_of_group demo_env ((9, RoleOpen, ''1006''), [first_leg, second_leg]))
     \<in> set (drafts_of [stored_open] (derive_events demo_env [first_leg, second_leg] demo_res))"
proof -
  note legs = first_leg_def second_leg_def demo_legs_def demo_leg_def
  have s: "survives demo_res second_leg" "survives demo_res first_leg"
    "group_key_of demo_res second_leg = (9, RoleOpen, ''1006'')" "group_key_of demo_res first_leg = (9, RoleOpen, ''1006'')"
    by (simp_all add: legs survives_def is_resolved_def res_get_def demo_res_def is_classified_def classify_fill_def
        group_key_of_def)
  have "set (map triple_of_record [stored_open]) = triple_of_event ` set (dv_events (derive_events demo_env [first_leg] demo_res))"
    unfolding derived_events_set first_group
    by (simp add: stored_open_def triple_of_record_def triple_of_event_def event_of_group_def event_type_value_def)
  from late_fill_counted_twice [OF s(1) _ this] s show ?thesis
    by (simp add: first_group legs colon_free_def fill_key_of_def rendered_key_def demo_env_def inj_on_def)
qed

end
