(* ===== verification/Open_Tables.thy ===== *)
theory Open_Tables
  imports Table_Laws
begin

text \<open>
  The tables that carry no policy (\<open>sessions\<close>, \<open>setup_tokens\<close>): possession of a token is the
  authorisation, so a session reads and writes them whole. open_table is their interface, with the
  laws of the statements as equations; the \<open>users\<close> table and the superuser's view of the isolated
  tables follow.
\<close>

definition live :: "sess \<Rightarrow> bool" where
  "live s \<longleftrightarrow> s_role s = App \<and> \<not> s_aborted s"

lemma as_user_live: "as_user u s \<Longrightarrow> live s"
  by (simp add: as_user_def live_def)

lemma live_new_session [simp]: "live (new_session App d n)"
  by (simp add: live_def new_session_def)

lemma live_simps [simp]:
  "live (s_db_update f s) = live s" "live (s_draws_update g s) = live s"
  "live (s_user_guc_update h s) = live s" "live (s_admin_guc_update h s) = live s"
  "live (s_locks_update l s) = live s"
  by (simp_all add: live_def)

text \<open>The commit of a live session.\<close>

definition committed :: "sess \<Rightarrow> sess" where
  "committed s = end_tx (s\<lparr>s_committed := s_db s\<rparr>)"

lemma commit_live: "live s \<Longrightarrow> commit s = (Inr (), committed s)"
  by (simp add: commit_def live_def committed_def)

lemma committed_simps [simp]:
  "s_db (committed s) = s_db s" "s_committed (committed s) = s_db s" "s_draws (committed s) = s_draws s"
  "s_role (committed s) = s_role s" "\<not> s_aborted (committed s)" "live (committed s) \<longleftrightarrow> s_role s = App"
  by (simp_all add: committed_def end_tx_def live_def)

lemma set_current_user_live:
  "live s \<Longrightarrow> set_current_user t s = (Inr (), s_user_guc_update (\<lambda>_. Some t) s)"
  by (simp add: set_current_user_def on_live_def live_def)

lemma as_user_set: "live s \<Longrightarrow> as_user u (s_user_guc_update (\<lambda>_. Some (uuid_str u)) s)"
  by (simp add: as_user_def live_def)

locale open_table =
  fixes tb :: "'r table"
  assumes rows_put [simp]: "tb_rows tb (tb_put tb xs d) = xs"
    and put_put [simp]: "tb_put tb xs (tb_put tb ys d) = tb_put tb xs d"
    and put_rows [simp]: "tb_put tb (tb_rows tb d) d = d"
    and no_policy [simp]: "tb_policy tb = NoPolicy"
    and granted [simp]: "tb_grants tb = [SELECT, INSERT, UPDATE, DELETE]"
    and unreferenced [simp]: "\<not> tb_referenced tb d r"
    and no_check [simp]: "tb_check tb r = None"
begin

lemma stmt_live:
  assumes "live s"
  shows "stmt v tb body s = (case body s None (s_db s) of
     Inl e \<Rightarrow> (Inl e, s\<lparr>s_aborted := True\<rparr>) | Inr (x, d) \<Rightarrow> (Inr x, s\<lparr>s_db := d\<rparr>))"
  using assms by (cases v) (auto simp: stmt_def live_def policy_user_def db_fail_def split: sum.split)

lemma visible_any [simp]: "row_visible tb s cu r" "row_writable tb s cu r"
  by (simp_all add: row_visible_def row_writable_def)

lemma sel_live: "live s \<Longrightarrow> sel tb P s = (Inr (filter P (tb_rows tb (s_db s))), s)"
  by (simp add: sel_def stmt_live)

lemma ins_live:
  "live s \<Longrightarrow> ins tb r s =
    (if list_ex (\<lambda>q. tb_clash tb q r) (tb_rows tb (s_db s)) \<or> \<not> tb_parents tb (s_db s) r
     then (Inl IntegrityError, s\<lparr>s_aborted := True\<rparr>)
     else (Inr (), s\<lparr>s_db := tb_put tb (tb_rows tb (s_db s) @ [r]) (s_db s)\<rparr>))"
  by (simp add: ins_def stmt_live insert_row_def)

lemma del_live:
  "live s \<Longrightarrow> del tb P s = (Inr (length (filter P (tb_rows tb (s_db s)))),
    s\<lparr>s_db := tb_put tb (filter (\<lambda>r. \<not> P r) (tb_rows tb (s_db s))) (s_db s)\<rparr>)"
  by (simp add: del_def stmt_live Let_def list_ex_iff)

lemma del_returning_live:
  "live s \<Longrightarrow> del_returning tb P s = (Inr (filter P (tb_rows tb (s_db s))),
    s\<lparr>s_db := tb_put tb (filter (\<lambda>r. \<not> P r) (tb_rows tb (s_db s))) (s_db s)\<rparr>)"
  by (simp add: del_returning_def stmt_live Let_def list_ex_iff)

end

interpretation sessions_tb: open_table sessions_table
  by unfold_locales (simp_all add: sessions_table_def)

interpretation tokens_tb: open_table setup_tokens_table
  by unfold_locales (simp_all add: setup_tokens_table_def)


section \<open>The users table\<close>

text \<open>A user sees and writes the own row; a session with the admin setting sees every row.\<close>

lemma sel_users_as:
  assumes "as_user u s"
  shows "sel users_table P s = (Inr (filter (\<lambda>r. (u_id r = u \<or> s_admin_guc s = Some ''true'') \<and> P r)
    (t_users (s_db s))), s)"
  using assms
  by (simp add: sel_def stmt_def users_table_def as_user_def policy_user_def row_visible_def
      eq_commute [of u] cong: filter_cong)

lemma upd_user_as:
  assumes "as_user u s" "\<And>r. u_id (f r) = u_id r"
  shows "upd users_table (\<lambda>r. u_id r = u) f s =
    (Inr (length (filter (\<lambda>r. u_id r = u) (t_users (s_db s)))),
     s\<lparr>s_db := t_users_update (\<lambda>_. map (\<lambda>r. if u_id r = u then f r else r) (t_users (s_db s))) (s_db s)\<rparr>)"
proof -
  have "row_visible users_table s (Some u) r \<and> u_id r = u \<longleftrightarrow> u_id r = u" for r
    by (auto simp: row_visible_def users_table_def)
  moreover have "policy_user users_table s = Inr (Some u)" "UPDATE \<in> set (tb_grants users_table)"
    using assms(1) by (simp_all add: policy_user_def users_table_def as_user_def)
  moreover have "row_writable users_table s (Some u) (f r)" if "u_id r = u" for r
    using assms(2) that by (simp add: row_writable_def row_visible_def users_table_def)
  moreover have "tb_rows users_table = t_users" "tb_put users_table = (\<lambda>xs. t_users_update (\<lambda>_. xs))"
    by (simp_all add: users_table_def)
  ultimately show ?thesis
    using assms(1) by (simp add: upd_def stmt_def as_user_def Let_def list_all_iff)
qed


section \<open>The superuser's view\<close>

definition super :: "sess \<Rightarrow> bool" where
  "super s \<longleftrightarrow> s_role s = Superuser \<and> \<not> s_aborted s"

lemma super_simps [simp]:
  "super (s_db_update f s) = super s" "super (s_draws_update g s) = super s"
  by (simp_all add: super_def)

lemma stmt_super:
  assumes "super s"
  shows "stmt v tb body s = (case body s None (s_db s) of
     Inl e \<Rightarrow> (Inl e, s\<lparr>s_aborted := True\<rparr>) | Inr (x, d) \<Rightarrow> (Inr x, s\<lparr>s_db := d\<rparr>))"
  using assms by (auto simp: stmt_def super_def policy_user_def db_fail_def split: sum.split)

lemma sel_super: "super s \<Longrightarrow> sel tb P s = (Inr (filter P (tb_rows tb (s_db s))), s)"
  by (simp add: sel_def stmt_super) (simp add: row_visible_def super_def)

lemma upd_super:
  assumes "super s"
  shows "upd tb P f s = (Inr (length (filter P (tb_rows tb (s_db s)))),
    s\<lparr>s_db := tb_put tb (map (\<lambda>r. if P r then f r else r) (tb_rows tb (s_db s))) (s_db s)\<rparr>)"
  using assms
  by (simp add: upd_def stmt_super Let_def list_all_iff) (simp add: row_writable_def row_visible_def super_def)

end
