(* ===== verification/Server.thy ===== *)
theory Server
  imports Open_Tables
begin

text \<open>
  The database server as its clients share it: what is committed, and the entropy used so far. A job of
  the worker, a request of the web process and an operator's script each run in sessions opened on it.
\<close>

record server =
  sv_db :: db
  sv_draws :: nat

text \<open>\<open>async with session_maker() as session\<close>: a session on what is committed, closed without a commit.\<close>

definition with_session :: "role \<Rightarrow> 'a op \<Rightarrow> server \<Rightarrow> (exn + 'a) \<times> server" where
  "with_session r m sv =
     (let (x, s) = m (new_session r (sv_db sv) (sv_draws sv))
      in (x, \<lparr>sv_db = s_committed s, sv_draws = s_draws s\<rparr>))"

text \<open>A second session opened inside a session that has been rolled back.\<close>

definition fresh_session :: "role \<Rightarrow> 'a op \<Rightarrow> 'a op" where
  "fresh_session r m = (\<lambda>s.
     let (x, t) = m (new_session r (s_committed s) (s_draws s))
     in (x, s\<lparr>s_committed := s_committed t, s_db := s_committed t, s_draws := s_draws t\<rparr>))"

lemma with_session_commit:
  assumes "m (new_session r (sv_db sv) (sv_draws sv)) = (x, s)"
  shows "with_session r m sv = (x, \<lparr>sv_db = s_committed s, sv_draws = s_draws s\<rparr>)"
  using assms by (simp add: with_session_def)

text \<open>An operation that never commits leaves the server's data as it was.\<close>

lemma with_session_uncommitted:
  assumes "keeps same_tx m"
  shows "sv_db (snd (with_session r m sv)) = sv_db sv"
proof -
  have "same_tx (new_session r (sv_db sv) (sv_draws sv)) (snd (m (new_session r (sv_db sv) (sv_draws sv))))"
    using assms by (simp add: keeps_def)
  then show ?thesis by (simp add: with_session_def same_tx_def new_session_def Let_def split_beta)
qed

end
