(* ===== verification/Stored_Tables.thy ===== *)
theory Stored_Tables
  imports Server
begin

text \<open>
  The schema as an invariant of the database: in every table no two rows clash, every row meets its
  column types and checks, and every foreign key names a stored row. stored_table is the interface of a
  table inside such a database; it is interpreted on every table of the migrations, and its laws are the
  three ways a statement changes one.
\<close>

definition unclashed :: "'r table \<Rightarrow> 'r list \<Rightarrow> bool" where
  "unclashed tb xs = sorted_wrt (\<lambda>q r. \<not> tb_clash tb q r) xs"

definition fit :: "'r table \<Rightarrow> db \<Rightarrow> 'r list \<Rightarrow> bool" where
  "fit tb d = list_all (\<lambda>r. tb_check tb r = None \<and> tb_parents tb d r)"

definition table_ok :: "'r table \<Rightarrow> db \<Rightarrow> bool" where
  "table_ok tb d \<longleftrightarrow> unclashed tb (tb_rows tb d) \<and> fit tb d (tb_rows tb d)"

definition db_ok :: "db \<Rightarrow> bool" where
  "db_ok d \<longleftrightarrow> table_ok users_table d \<and> table_ok sessions_table d \<and> table_ok setup_tokens_table d \<and>
     table_ok audit_log_table d \<and> table_ok user_data_keys_table d \<and> table_ok fills_table d \<and>
     table_ok positions_table d \<and> table_ok legs_table d \<and> table_ok events_table d \<and>
     table_ok schwab_connections_table d \<and> table_ok broker_transactions_table d \<and> table_ok sync_runs_table d"

lemma db_okD:
  assumes "db_ok d"
  shows "table_ok users_table d" "table_ok sessions_table d" "table_ok setup_tokens_table d"
    "table_ok audit_log_table d" "table_ok user_data_keys_table d" "table_ok fills_table d"
    "table_ok positions_table d" "table_ok legs_table d" "table_ok events_table d"
    "table_ok schwab_connections_table d" "table_ok broker_transactions_table d" "table_ok sync_runs_table d"
  using assms by (simp_all add: db_ok_def)

lemma unclashed_append [simp]:
  "unclashed tb (xs @ [r]) \<longleftrightarrow> unclashed tb xs \<and> \<not> list_ex (\<lambda>q. tb_clash tb q r) xs"
  by (auto simp: unclashed_def sorted_wrt_append list_ex_iff)

lemma unclashed_filter: "unclashed tb xs \<Longrightarrow> unclashed tb (filter P xs)"
  by (simp add: unclashed_def sorted_wrt_filter)

lemma unclashed_map:
  assumes "unclashed tb xs" "\<And>q r. tb_clash tb (f q) (f r) = tb_clash tb q r"
  shows "unclashed tb (map f xs)"
  using assms by (simp add: unclashed_def sorted_wrt_map)

lemma unclashed_key:
  assumes "\<And>q r. tb_clash tb q r \<longleftrightarrow> key q = key r"
  shows "unclashed tb xs \<longleftrightarrow> distinct (map key xs)"
  by (induction xs) (auto simp: unclashed_def assms image_iff)

lemma unclashed_distinct:
  assumes "unclashed tb xs" "\<And>q r. key q = key r \<Longrightarrow> tb_clash tb q r"
  shows "distinct (map key xs)"
  using assms(1) by (induction xs) (auto simp: unclashed_def dest: assms(2))

locale stored_table =
  fixes tb :: "'r table" and ident :: "'r \<Rightarrow> 'k"
  assumes rows_put [simp]: "tb_rows tb (tb_put tb xs d) = xs"
    and ok: "db_ok d \<Longrightarrow> table_ok tb d"
    and put_ok: "db_ok d \<Longrightarrow> unclashed tb xs \<Longrightarrow> fit tb d xs \<Longrightarrow>
      (\<forall>r \<in> set (tb_rows tb d). tb_referenced tb d r \<longrightarrow> ident r \<in> ident ` set xs) \<Longrightarrow> db_ok (tb_put tb xs d)"
begin

lemma append_ok:
  assumes "db_ok d" "tb_check tb r = None" "\<not> list_ex (\<lambda>q. tb_clash tb q r) (tb_rows tb d)" "tb_parents tb d r"
  shows "db_ok (tb_put tb (tb_rows tb d @ [r]) d)"
  using assms ok [OF assms(1)] by (intro put_ok) (auto simp: table_ok_def fit_def)

lemma filter_ok:
  assumes "db_ok d" "\<not> list_ex (\<lambda>r. \<not> P r \<and> tb_referenced tb d r) (tb_rows tb d)"
  shows "db_ok (tb_put tb (filter P (tb_rows tb d)) d)"
  using assms ok [OF assms(1)]
  by (intro put_ok) (auto simp: table_ok_def fit_def unclashed_filter list_all_iff list_ex_iff)

lemma map_ok:
  assumes "db_ok d" "\<And>q r. tb_clash tb (f q) (f r) = tb_clash tb q r" "\<And>q. ident (f q) = ident q"
    "\<And>q. q \<in> set (tb_rows tb d) \<Longrightarrow> tb_check tb q = None \<Longrightarrow> tb_parents tb d q \<Longrightarrow>
      tb_check tb (f q) = None \<and> tb_parents tb d (f q)"
  shows "db_ok (tb_put tb (map f (tb_rows tb d)) d)"
proof (rule put_ok [OF assms(1)])
  from ok [OF assms(1)] show "unclashed tb (map f (tb_rows tb d))"
    using unclashed_map [of tb, OF _ assms(2)] by (simp add: table_ok_def)
  from ok [OF assms(1)] assms(4) show "fit tb d (map f (tb_rows tb d))"
    by (simp add: table_ok_def fit_def list_all_iff)
  show "\<forall>r \<in> set (tb_rows tb d). tb_referenced tb d r \<longrightarrow> ident r \<in> ident ` set (map f (tb_rows tb d))"
    by (auto simp: image_image assms(3))
qed

end

text \<open>A table nobody refers to: its rows only matter to itself.\<close>

lemmas table_defs = users_table_def sessions_table_def setup_tokens_table_def audit_log_table_def
  user_data_keys_table_def fills_table_def positions_table_def legs_table_def events_table_def
  schwab_connections_table_def broker_transactions_table_def sync_runs_table_def

lemma has_user_update [simp]:
  "has_user (t_sessions_update f d) u = has_user d u" "has_user (t_setup_tokens_update g d) u = has_user d u"
  "has_user (t_audit_log_update h d) u = has_user d u" "has_user (t_user_data_keys_update i d) u = has_user d u"
  "has_user (t_fills_update j d) u = has_user d u" "has_user (t_positions_update k d) u = has_user d u"
  "has_user (t_legs_update l d) u = has_user d u" "has_user (t_events_update m d) u = has_user d u"
  "has_user (t_schwab_connections_update n d) u = has_user d u"
  "has_user (t_broker_transactions_update p d) u = has_user d u"
  "has_user (t_sync_runs_update q d) u = has_user d u" "has_user (t_procrastinate_jobs_update r d) u = has_user d u"
  by (simp_all add: has_user_def)

lemma has_position_update [simp]:
  "has_position (t_users_update a d) u = has_position d u"
  "has_position (t_sessions_update f d) u = has_position d u" "has_position (t_setup_tokens_update g d) u = has_position d u"
  "has_position (t_audit_log_update h d) u = has_position d u" "has_position (t_user_data_keys_update i d) u = has_position d u"
  "has_position (t_fills_update j d) u = has_position d u"
  "has_position (t_legs_update l d) u = has_position d u" "has_position (t_events_update m d) u = has_position d u"
  "has_position (t_schwab_connections_update n d) u = has_position d u"
  "has_position (t_broker_transactions_update p d) u = has_position d u"
  "has_position (t_sync_runs_update q d) u = has_position d u" "has_position (t_procrastinate_jobs_update r d) u = has_position d u"
  by (simp_all add: has_position_def)

interpretation sessions_st: stored_table sessions_table ss_id
  by unfold_locales (simp_all add: db_ok_def table_ok_def fit_def unclashed_def table_defs)

interpretation tokens_st: stored_table setup_tokens_table st_id
  by unfold_locales (simp_all add: db_ok_def table_ok_def fit_def unclashed_def table_defs)

interpretation audit_st: stored_table audit_log_table al_id
  by unfold_locales (simp_all add: db_ok_def table_ok_def fit_def unclashed_def table_defs)

interpretation keys_st: stored_table user_data_keys_table "\<lambda>r. (dk_user_id r, dk_key_version r)"
  by unfold_locales (simp_all add: db_ok_def table_ok_def fit_def unclashed_def table_defs)

interpretation fills_st: stored_table fills_table f_order_id
  by unfold_locales (simp_all add: db_ok_def table_ok_def fit_def unclashed_def table_defs)

interpretation legs_st: stored_table legs_table l_id
  by unfold_locales (simp_all add: db_ok_def table_ok_def fit_def unclashed_def table_defs)

interpretation events_st: stored_table events_table e_id
  by unfold_locales (simp_all add: db_ok_def table_ok_def fit_def unclashed_def table_defs)

interpretation connections_st: stored_table schwab_connections_table c_user_id
  by unfold_locales (simp_all add: db_ok_def table_ok_def fit_def unclashed_def table_defs)

interpretation broker_st: stored_table broker_transactions_table b_activity_id
  by unfold_locales (simp_all add: db_ok_def table_ok_def fit_def unclashed_def table_defs)

interpretation runs_st: stored_table sync_runs_table r_id
  by unfold_locales (simp_all add: db_ok_def table_ok_def fit_def unclashed_def table_defs)

text \<open>The two tables with children: a row that is referred to stays, at least under its identifier.\<close>

lemma users_put_parents:
  assumes "\<forall>r \<in> set (t_users d). user_referenced d (u_id r) \<longrightarrow> u_id r \<in> u_id ` set xs"
    "has_user d u" "user_referenced d u"
  shows "has_user (t_users_update (\<lambda>_. xs) d) u"
  using assms by (fastforce simp: has_user_def list_ex_iff)

lemma positions_put_parents:
  assumes "\<forall>r \<in> set (t_positions d). (list_ex (\<lambda>l. l_position_id l = p_id r) (t_legs d) \<or>
      list_ex (\<lambda>e. e_position_id e = p_id r) (t_events d)) \<longrightarrow> p_id r \<in> p_id ` set xs"
    "has_position d p" "list_ex (\<lambda>l. l_position_id l = p) (t_legs d) \<or> list_ex (\<lambda>e. e_position_id e = p) (t_events d)"
  shows "has_position (t_positions_update (\<lambda>_. xs) d) p"
  using assms by (fastforce simp: has_position_def list_ex_iff)

interpretation users_st: stored_table users_table u_id
proof unfold_locales
  fix d xs
  assume ok: "db_ok d" and u: "unclashed users_table xs"
    and "\<forall>r \<in> set (tb_rows users_table d). tb_referenced users_table d r \<longrightarrow> u_id r \<in> u_id ` set xs"
  then have ref: "\<forall>r \<in> set (t_users d). user_referenced d (u_id r) \<longrightarrow> u_id r \<in> u_id ` set xs"
    by (simp add: users_table_def)
  note keep = users_put_parents [OF ref]
  from ok u show "db_ok (tb_put users_table xs d)"
    unfolding db_ok_def table_ok_def
    by (auto simp: table_defs unclashed_def fit_def list_all_iff user_referenced_def list_ex_iff intro!: keep)
qed (simp_all add: users_table_def db_ok_def)

interpretation positions_st: stored_table positions_table p_id
proof unfold_locales
  fix d xs
  assume ok: "db_ok d" and u: "unclashed positions_table xs" "fit positions_table d xs"
    and ref: "\<forall>r \<in> set (tb_rows positions_table d). tb_referenced positions_table d r \<longrightarrow> p_id r \<in> p_id ` set xs"
  note keep = positions_put_parents [of d xs]
  from ok u ref show "db_ok (tb_put positions_table xs d)"
    unfolding db_ok_def table_ok_def
    by (auto simp: table_defs unclashed_def fit_def list_all_iff list_ex_iff intro!: keep)
qed (simp_all add: positions_table_def db_ok_def)

end
