(* ===== verification/Op_Logic.thy ===== *)
theory Op_Logic
  imports Server
begin

text \<open>
  Triples for operations: from a session that satisfies the first assertion, an operation that returns
  ends in the assertion on its result, one that raises ends in the exceptional assertion. An operation
  is safe for an invariant when it keeps it on both ways out; the rules of safe follow the program text.
\<close>

named_theorems safe_intros \<open>operations that keep an invariant of the session\<close>

definition hoare :: "(sess \<Rightarrow> bool) \<Rightarrow> 'a op \<Rightarrow> ('a \<Rightarrow> sess \<Rightarrow> bool) \<Rightarrow> (sess \<Rightarrow> bool) \<Rightarrow> bool" where
  "hoare P m Q E \<longleftrightarrow> (\<forall>s. P s \<longrightarrow> (case m s of (Inl x, t) \<Rightarrow> E t | (Inr y, t) \<Rightarrow> Q y t))"

definition safe :: "(sess \<Rightarrow> bool) \<Rightarrow> 'a op \<Rightarrow> bool" where
  "safe I m \<longleftrightarrow> hoare I m (\<lambda>_. I) I"

lemma hoareI:
  "(\<And>s x t. P s \<Longrightarrow> m s = (Inl x, t) \<Longrightarrow> E t) \<Longrightarrow> (\<And>s y t. P s \<Longrightarrow> m s = (Inr y, t) \<Longrightarrow> Q y t) \<Longrightarrow>
   hoare P m Q E"
  by (auto simp: hoare_def split: prod.split sum.split)

lemma hoare_Inr: "hoare P m Q E \<Longrightarrow> P s \<Longrightarrow> m s = (Inr y, t) \<Longrightarrow> Q y t"
  unfolding hoare_def by fastforce

lemma hoare_Inl: "hoare P m Q E \<Longrightarrow> P s \<Longrightarrow> m s = (Inl x, t) \<Longrightarrow> E t"
  unfolding hoare_def by fastforce

lemma hoare_snd: "hoare P m (\<lambda>_. E) E \<Longrightarrow> P s \<Longrightarrow> E (snd (m s))"
  by (cases "m s"; cases "fst (m s)") (auto dest: hoare_Inr hoare_Inl)

lemma safeI: "(\<And>s. I s \<Longrightarrow> I (snd (m s))) \<Longrightarrow> safe I m"
  unfolding safe_def by (rule hoareI) force+

lemma safeD: "safe I m \<Longrightarrow> I s \<Longrightarrow> I (snd (m s))"
  by (cases "m s"; cases "fst (m s)") (auto simp: safe_def dest: hoare_Inr hoare_Inl)

lemma safe_step: "safe I m \<Longrightarrow> I s \<Longrightarrow> m s = (r, t) \<Longrightarrow> I t"
  by (metis safeD snd_conv)


section \<open>Rules for triples\<close>

lemma hoare_weaken:
  "hoare P' m Q' E' \<Longrightarrow> (\<And>s. P s \<Longrightarrow> P' s) \<Longrightarrow> (\<And>x s. Q' x s \<Longrightarrow> Q x s) \<Longrightarrow> (\<And>s. E' s \<Longrightarrow> E s) \<Longrightarrow>
   hoare P m Q E"
  by (rule hoareI) (blast dest: hoare_Inr hoare_Inl)+

lemma hoare_bind:
  assumes "hoare P m R E" "\<And>x. hoare (R x) (f x) Q E"
  shows "hoare P (op_bind m f) Q E"
proof (rule hoareI)
  fix s x t
  assume P: "P s" and r: "op_bind m f s = (Inl x, t)"
  show "E t"
  proof (cases "m s")
    case (Pair r' s')
    with r have "r' = Inl x \<and> s' = t \<or> (\<exists>y. r' = Inr y \<and> f y s' = (Inl x, t))"
      by (cases r') (auto simp: op_run)
    with P Pair assms show ?thesis by (blast dest: hoare_Inr hoare_Inl)
  qed
next
  fix s y t
  assume "P s" "op_bind m f s = (Inr y, t)"
  with assms show "Q y t" by (auto simp: op_bind_Inr_iff dest: hoare_Inr)
qed

lemma hoare_seq: "hoare P m (\<lambda>_. R) E \<Longrightarrow> hoare R k Q E \<Longrightarrow> hoare P (op_seq m k) Q E"
  unfolding op_seq_def by (rule hoare_bind)

lemma hoare_ret: "(\<And>s. P s \<Longrightarrow> Q x s) \<Longrightarrow> hoare P (ret x) Q E"
  by (simp add: hoare_def op_run)

lemma hoare_raise: "(\<And>s. P s \<Longrightarrow> E s) \<Longrightarrow> hoare P (raise x) Q E"
  by (simp add: hoare_def op_run)

lemma hoare_option:
  "(x = None \<Longrightarrow> hoare P m Q E) \<Longrightarrow> (\<And>a. x = Some a \<Longrightarrow> hoare P (f a) Q E) \<Longrightarrow>
   hoare P (case x of None \<Rightarrow> m | Some a \<Rightarrow> f a) Q E"
  by (cases x) simp_all

lemma hoare_if:
  "(b \<Longrightarrow> hoare P m Q E) \<Longrightarrow> (\<not> b \<Longrightarrow> hoare P k Q E) \<Longrightarrow> hoare P (if b then m else k) Q E"
  by simp

text \<open>A precondition that does not depend on the session is a premise.\<close>

lemma hoare_pure: "(C \<Longrightarrow> hoare P m Q E) \<Longrightarrow> hoare (\<lambda>s. P s \<and> C) m Q E"
  by (auto simp: hoare_def)

lemma hoare_safe: "safe I m \<Longrightarrow> hoare I m (\<lambda>_. I) I"
  by (simp add: safe_def)

lemma safe_hoare: "hoare I m (\<lambda>_. I) I \<Longrightarrow> safe I m"
  by (simp add: safe_def)

text \<open>Every element of a list, one after the other.\<close>

lemma hoare_map:
  assumes "\<And>x. x \<in> set xs \<Longrightarrow> hoare P (f x) (\<lambda>y s. P s \<and> R x y) P"
  shows "hoare P (op_map f xs) (\<lambda>ys s. P s \<and> list_all2 R xs ys) P"
  using assms
proof (induction xs)
  case Nil
  show ?case by (simp add: hoare_ret)
next
  case (Cons x xs)
  have step: "hoare (\<lambda>s. P s \<and> R x y) (op_bind (op_map f xs) (\<lambda>ys. ret (y # ys)))
      (\<lambda>zs s. P s \<and> list_all2 R (x # xs) zs) P" for y
    by (rule hoare_pure, rule hoare_bind, rule Cons.IH) (use Cons.prems in \<open>simp_all add: hoare_ret\<close>)
  have "hoare P (f x) (\<lambda>y s. P s \<and> R x y) P" using Cons.prems by simp
  from hoare_bind [OF this step] show ?case by simp
qed


section \<open>Rules for invariants\<close>

lemma safe_pure_ops [safe_intros]:
  "safe I (ret x)" "safe I (raise e)" "safe I (gets g)" "safe I (op_from r)"
  by (auto intro!: safeI simp: op_run)

lemma safe_bind [safe_intros]: "safe I m \<Longrightarrow> (\<And>x. safe I (f x)) \<Longrightarrow> safe I (op_bind m f)"
  unfolding safe_def by (rule hoare_bind)

lemma safe_seq [safe_intros]: "safe I m \<Longrightarrow> safe I k \<Longrightarrow> safe I (op_seq m k)"
  unfolding safe_def by (rule hoare_seq)

lemma safe_catch [safe_intros]:
  assumes "safe I m" "\<And>e. safe I (h e)"
  shows "safe I (op_catch m h)"
proof (rule safeI)
  fix s
  assume I: "I s"
  obtain r t where m: "m s = (r, t)" by fastforce
  with assms(1) I have "I t" by (rule safe_step)
  with m assms(2) show "I (snd (op_catch m h s))" by (cases r) (auto simp: op_run safeD)
qed

lemma safe_map [safe_intros]: "(\<And>x. x \<in> set xs \<Longrightarrow> safe I (f x)) \<Longrightarrow> safe I (op_map f xs)"
  by (induction xs) (auto intro!: safe_intros)

lemma safe_one [safe_intros]: "safe I (one xs)" "safe I (one_or_none xs)"
  by (auto simp: one_def one_or_none_def intro: safe_intros split: list.split)

lemma safe_case_prod [safe_intros]:
  "(\<And>a b. safe I (f a b)) \<Longrightarrow> safe I (case p of (a, b) \<Rightarrow> f a b)"
  by (cases p) simp

lemma safe_case_option [safe_intros]:
  "(x = None \<Longrightarrow> safe I m) \<Longrightarrow> (\<And>a. x = Some a \<Longrightarrow> safe I (f a)) \<Longrightarrow>
   safe I (case x of None \<Rightarrow> m | Some a \<Rightarrow> f a)"
  by (cases x) simp_all

lemma safe_if [safe_intros]:
  "(b \<Longrightarrow> safe I m) \<Longrightarrow> (\<not> b \<Longrightarrow> safe I k) \<Longrightarrow> safe I (if b then m else k)"
  by simp

text \<open>Two invariants at once.\<close>

lemma safe_both: "safe I m \<Longrightarrow> safe J m \<Longrightarrow> safe (\<lambda>s. I s \<and> J s) m"
  by (rule safeI) (simp add: safeD)

end
