(* ===== verification/Settings.thy ===== *)
theory Settings
  imports Db_Session
begin

text \<open>
  The fields of \<open>settings.py\<close> the modelled code reads. Pydantic only checks that the four numbers are
  integers: no lower bound is declared on any of them.
\<close>

record settings =
  database_url :: string
  morai_app_db_password :: "string option"
  posthog_api_key :: "string option"
  posthog_host :: string
  morai_master_key :: "string option"
  schwab_api_key :: "string option"
  schwab_app_secret :: "string option"
  schwab_callback_url :: "string option"
  schwab_tx_lookback_max_days :: int
  schwab_tx_max_range_days :: int
  schwab_tx_sync_overlap_days :: int
  schwab_sync_cooldown_seconds :: int

text \<open>The declared defaults; the database URL has none.\<close>

definition settings_defaults :: "string \<Rightarrow> settings" where
  "settings_defaults url = \<lparr>database_url = url, morai_app_db_password = None,
     posthog_api_key = None, posthog_host = ''https://us.i.posthog.com'', morai_master_key = None, schwab_api_key = None, schwab_app_secret = None,
     schwab_callback_url = None, schwab_tx_lookback_max_days = 365, schwab_tx_max_range_days = 60,
     schwab_tx_sync_overlap_days = 1, schwab_sync_cooldown_seconds = 60\<rparr>"

abbreviation default_settings :: settings where
  "default_settings \<equiv> settings_defaults ''postgresql://db''"

lemmas default_settings_def = settings_defaults_def

end
