(* ===== verification/Vendor_Protocol.thy ===== *)
theory Vendor_Protocol
  imports Envelope
begin

text \<open>
  \<open>vendor/protocol.py\<close> and \<open>vendor/schwab_adapter.py\<close>: the shapes vendor JSON is validated into, the
  token holder with its two closures, and the adapter over \<open>schwab-py\<close>. That library is a parameter:
  what each of its calls answers, and which tokens it hands to the write closure on the way. A call
  for transactions is told how many came before it, so that its answers may change over time.
\<close>

section \<open>Validated shapes\<close>

record exchanged_token =
  et_token :: json
  et_created_at :: datetime

record account_number_entry =
  an_account_number :: string
  an_hash_value :: string

record wrapped_token =
  wt_creation_timestamp :: int
  wt_token :: json

text \<open>A model's field: the value under the first of its names (the alias, then the field's own name).\<close>

fun field :: "string list \<Rightarrow> (string \<times> json) list \<Rightarrow> json option" where
  "field [] kvs = None"
| "field (n # ns) kvs = (case map_of kvs n of None \<Rightarrow> field ns kvs | Some v \<Rightarrow> Some v)"

definition as_str :: "json \<Rightarrow> string option" where
  "as_str j = (case j of JStr t \<Rightarrow> Some t | _ \<Rightarrow> None)"

text \<open>An optional field: absent or null is \<open>None\<close>, anything else has to validate.\<close>

definition optional :: "(json \<Rightarrow> 'a option) \<Rightarrow> json option \<Rightarrow> 'a option option" where
  "optional f v = (case v of None \<Rightarrow> Some None | Some JNull \<Rightarrow> Some None
     | Some j \<Rightarrow> map_option Some (f j))"

fun validate_all :: "('a \<Rightarrow> 'b option) \<Rightarrow> 'a list \<Rightarrow> 'b list option" where
  "validate_all f [] = Some []"
| "validate_all f (x # xs) =
     (case f x of None \<Rightarrow> None | Some y \<Rightarrow> map_option ((#) y) (validate_all f xs))"

definition as_list :: "(json \<Rightarrow> 'a option) \<Rightarrow> json \<Rightarrow> 'a list option" where
  "as_list f j = (case j of JArr xs \<Rightarrow> validate_all f xs | _ \<Rightarrow> None)"

lemma validate_all_Some:
  "validate_all f xs = Some ys \<longleftrightarrow> list_all2 (\<lambda>x y. f x = Some y) xs ys"
  by (induction xs arbitrary: ys) (auto simp: list_all2_Cons1 split: option.splits)

definition account_number_entry_of :: "json \<Rightarrow> account_number_entry option" where
  "account_number_entry_of j = (case j of
     JObj kvs \<Rightarrow>
       (case (Option.bind (field [''accountNumber'', ''account_number''] kvs) as_str,
              Option.bind (field [''hashValue'', ''hash_value''] kvs) as_str) of
          (Some a, Some h) \<Rightarrow> Some \<lparr>an_account_number = a, an_hash_value = h\<rparr>
        | _ \<Rightarrow> None)
   | _ \<Rightarrow> None)"

definition wrapped_token_of :: "env \<Rightarrow> json \<Rightarrow> wrapped_token option" where
  "wrapped_token_of e j = (case j of
     JObj kvs \<Rightarrow>
       (case (Option.bind (field [''creation_timestamp''] kvs) (parse_int e), field [''token''] kvs) of
          (Some n, Some t) \<Rightarrow> Some \<lparr>wt_creation_timestamp = n, wt_token = t\<rparr>
        | _ \<Rightarrow> None)
   | _ \<Rightarrow> None)"


section \<open>The token holder\<close>

record token_holder =
  th_token :: json
  th_wrote :: bool

definition holder_init :: "json \<Rightarrow> token_holder" where
  "holder_init token = \<lparr>th_token = token, th_wrote = False\<rparr>"

definition holder_read :: "token_holder \<Rightarrow> json" where
  "holder_read h = th_token h"

definition holder_write :: "json \<Rightarrow> token_holder \<Rightarrow> token_holder" where
  "holder_write token h = h\<lparr>th_token := token, th_wrote := True\<rparr>"

text \<open>The last token written is the one that stays.\<close>

lemma holder_writes: "fold holder_write ts h =
    (if ts = [] then h else h\<lparr>th_token := last ts, th_wrote := True\<rparr>)"
  by (induction ts arbitrary: h) (auto simp: holder_write_def)


section \<open>The adapter\<close>

record schwab_credentials =
  sc_api_key :: string
  sc_app_secret :: string
  sc_callback_url :: string

text \<open>An HTTP response: its status and its body, \<open>None\<close> when that is not JSON.\<close>

record response =
  rs_status :: nat
  rs_json :: "json option"

text \<open>\<open>schwab-py\<close>: results, and the tokens each call gave to the write closure, in order.\<close>

record schwab_lib =
  lib_auth_context :: "string \<Rightarrow> string \<Rightarrow> string \<Rightarrow> string"
  lib_received_url :: "schwab_credentials \<Rightarrow> string \<Rightarrow> string \<Rightarrow> (exn + unit) \<times> json list"
  lib_access_functions :: "schwab_credentials \<Rightarrow> json \<Rightarrow> (exn + unit) \<times> json list"
  lib_account_numbers :: "exn + response"
  lib_transactions ::
    "nat \<Rightarrow> json \<Rightarrow> string \<Rightarrow> datetime \<Rightarrow> datetime \<Rightarrow> (exn + response) \<times> json list"

record schwab_auth =
  sa_credentials :: schwab_credentials
  sa_lib :: schwab_lib

definition build_authorize_url :: "schwab_auth \<Rightarrow> string \<Rightarrow> string" where
  "build_authorize_url auth raw_state = lib_auth_context (sa_lib auth)
     (sc_api_key (sa_credentials auth)) (sc_callback_url (sa_credentials auth)) raw_state"

text \<open>\<open>_response_json\<close>: the body, whatever the status.\<close>

definition response_json :: "response \<Rightarrow> exn + json" where
  "response_json resp = (case rs_json resp of None \<Rightarrow> Inl ValueError | Some j \<Rightarrow> Inr j)"

definition get_account_numbers :: "schwab_auth \<Rightarrow> exn + account_number_entry list" where
  "get_account_numbers auth = (case lib_account_numbers (sa_lib auth) of
     Inl x \<Rightarrow> Inl x
   | Inr resp \<Rightarrow> (case response_json resp of
       Inl x \<Rightarrow> Inl x
     | Inr j \<Rightarrow> (case as_list account_number_entry_of j of None \<Rightarrow> Inl ValidationError | Some es \<Rightarrow> Inr es)))"

text \<open>\<open>get_transactions\<close> over a holder: the tokens the library wrote meanwhile are in it afterwards.\<close>

definition get_transactions ::
    "schwab_auth \<Rightarrow> nat \<Rightarrow> token_holder \<Rightarrow> string \<Rightarrow> datetime \<Rightarrow> datetime \<Rightarrow> (exn + json) \<times> token_holder" where
  "get_transactions auth n h account_hash start_date end_date =
     (let (resp, written) = lib_transactions (sa_lib auth) n (holder_read h) account_hash start_date end_date
      in (case resp of Inl x \<Rightarrow> Inl x | Inr r \<Rightarrow> response_json r, fold holder_write written h))"

definition exchange_callback :: "env \<Rightarrow> schwab_auth \<Rightarrow> string \<Rightarrow> string \<Rightarrow> exn + exchanged_token" where
  "exchange_callback e auth received_url raw_state =
     (case lib_received_url (sa_lib auth) (sa_credentials auth) raw_state received_url of
        (Inl x, captured) \<Rightarrow> Inl x
      | (Inr _, captured) \<Rightarrow>
          if captured = [] then Inl IndexError
          else (case wrapped_token_of e (last captured) of
                  None \<Rightarrow> Inl ValidationError
                | Some w \<Rightarrow> (case from_timestamp (wt_creation_timestamp w) of
                    None \<Rightarrow> Inl ValueError
                  | Some t \<Rightarrow> Inr \<lparr>et_token = wt_token w, et_created_at = t\<rparr>)))"

definition build_client :: "schwab_auth \<Rightarrow> token_holder \<Rightarrow> (exn + unit) \<times> token_holder" where
  "build_client auth h =
     (let (r, written) = lib_access_functions (sa_lib auth) (sa_credentials auth) (holder_read h)
      in (r, fold holder_write written h))"

end
