(* ===== verification/Tokens.thy ===== *)
theory Tokens
  imports Envelope
begin

text \<open>
  \<open>identity/tokens.py\<close> and \<open>identity/passwords.py\<close>: opaque tokens and password hashes.
  \<open>secrets.token_urlsafe(32)\<close> is URL-safe Base64 of 32 random bytes without its padding; SHA-256 and
  Argon2 are the environment's.
\<close>

section \<open>Base64\<close>

definition b64_char :: "nat \<Rightarrow> char" where
  "b64_char n = (if n < 26 then char_of (65 + n) else if n < 52 then char_of (71 + n)
     else if n < 62 then char_of (n - 4) else if n = 62 then CHR ''+'' else CHR ''/'')"

definition url_char :: "nat \<Rightarrow> char" where
  "url_char n = (if n = 62 then CHR ''-'' else if n = 63 then CHR ''_'' else b64_char n)"

definition b64_val :: "char \<Rightarrow> nat option" where
  "b64_val c = (let n = of_char c in
     if 65 \<le> n \<and> n \<le> 90 then Some (n - 65) else if 97 \<le> n \<and> n \<le> 122 then Some (n - 71)
     else if 48 \<le> n \<and> n \<le> 57 then Some (n + 4) else if n = 43 then Some 62
     else if n = 47 then Some 63 else None)"

text \<open>Three bytes as four values of six bits; a short last group is padded with two or one \<open>=\<close>.\<close>

fun b64_encode :: "(nat \<Rightarrow> char) \<Rightarrow> bytes \<Rightarrow> string" where
  "b64_encode alpha [] = []"
| "b64_encode alpha [a] = (let x = of_char a in
     [alpha (x div 4), alpha (x mod 4 * 16), CHR ''='', CHR ''=''])"
| "b64_encode alpha [a, b] = (let x = of_char a; y = of_char b in
     [alpha (x div 4), alpha (x mod 4 * 16 + y div 16), alpha (y mod 16 * 4), CHR ''=''])"
| "b64_encode alpha (a # b # c # r) = (let x = of_char a; y = of_char b; z = of_char c in
     alpha (x div 4) # alpha (x mod 4 * 16 + y div 16) # alpha (y mod 16 * 4 + z div 64) # alpha (z mod 64) #
     b64_encode alpha r)"

text \<open>\<open>base64.b64decode(s, validate=True)\<close>; \<open>None\<close> is its \<open>binascii.Error\<close>.\<close>

fun b64_decode :: "string \<Rightarrow> bytes option" where
  "b64_decode [] = Some []"
| "b64_decode (a # b # c # d # r) =
     (case (b64_val a, b64_val b) of
        (Some w, Some x) \<Rightarrow>
          (if c = CHR ''='' \<and> d = CHR ''='' then (if r = [] then Some [char_of (w * 4 + x div 16)] else None)
           else (case b64_val c of
              None \<Rightarrow> None
            | Some y \<Rightarrow>
                (if d = CHR ''='' then
                   (if r = [] then Some [char_of (w * 4 + x div 16), char_of (x mod 16 * 16 + y div 4)] else None)
                 else (case b64_val d of
                    None \<Rightarrow> None
                  | Some z \<Rightarrow> map_option (\<lambda>bs. char_of (w * 4 + x div 16) # char_of (x mod 16 * 16 + y div 4) #
                      char_of (y mod 4 * 64 + z) # bs) (b64_decode r)))))
      | _ \<Rightarrow> None)"
| "b64_decode _ = None"

lemma b64_val_char: "n < 64 \<Longrightarrow> b64_val (b64_char n) = Some n"
  by (auto simp: b64_val_def b64_char_def Let_def)

lemma b64_char_not_pad: "n < 64 \<Longrightarrow> b64_char n \<noteq> CHR ''=''"
  using b64_val_char [of n] by (auto simp: b64_val_def)

lemma char_parts: "of_char (c :: char) < (256 :: nat)"
  by simp

lemma b64_values: "n < 64 \<Longrightarrow> b64_val (b64_char n) = Some n \<and> b64_char n \<noteq> CHR ''=''"
  by (simp add: b64_val_char b64_char_not_pad)

text \<open>Six-bit values of two and three bytes, put together again.\<close>

lemma digit_div_mod:
  fixes a b k :: nat
  assumes "b < k"
  shows "(a * k + b) div k = a" "(a * k + b) mod k = b"
  using assms by simp_all

lemma six_bits:
  fixes x y z :: nat
  assumes "x < 256" "y < 256" "z < 256"
  shows "x div 4 < 64" "x mod 4 * 16 < 64" "x mod 4 * 16 + y div 16 < 64" "y mod 16 * 4 < 64"
    "y mod 16 * 4 + z div 64 < 64" "z mod 64 < 64"
proof -
  have "x mod 4 < 4" "y mod 16 < 16" by simp_all
  moreover have "y div 16 < 16" "z div 64 < 4" "x div 4 < 64" using assms by linarith+
  ultimately show "x div 4 < 64" "x mod 4 * 16 < 64" "x mod 4 * 16 + y div 16 < 64" "y mod 16 * 4 < 64"
    "y mod 16 * 4 + z div 64 < 64" "z mod 64 < 64" by simp_all
qed

lemma six_bits_back:
  fixes x y z :: nat
  assumes "y < 256" "z < 256"
  shows "(x mod 4 * 16 + y div 16) div 16 = x mod 4" "(x mod 4 * 16 + y div 16) mod 16 = y div 16"
    "(y mod 16 * 4 + z div 64) div 4 = y mod 16" "(y mod 16 * 4 + z div 64) mod 4 = z div 64"
proof -
  have "y div 16 < 16" "z div 64 < 4" using assms by linarith+
  then show "(x mod 4 * 16 + y div 16) div 16 = x mod 4" "(x mod 4 * 16 + y div 16) mod 16 = y div 16"
    "(y mod 16 * 4 + z div 64) div 4 = y mod 16" "(y mod 16 * 4 + z div 64) mod 4 = z div 64"
    by (simp_all only: digit_div_mod)
qed

lemma b64_decode_encode: "b64_decode (b64_encode b64_char bs) = Some bs"
proof (induction "b64_char" bs rule: b64_encode.induct)
  case 1
  show ?case by simp
next
  case (2 a)
  note six_bits [OF char_parts [of a] char_parts [of a] char_parts [of a]]
  then show ?case by (simp add: Let_def b64_values)
next
  case (3 a b)
  note six_bits [OF char_parts [of a] char_parts [of b] char_parts [of b]]
    six_bits_back [OF char_parts [of b] char_parts [of b]]
  then show ?case by (simp add: Let_def b64_values)
next
  case (4 a b c r)
  note six_bits [OF char_parts [of a] char_parts [of b] char_parts [of c]]
    six_bits_back [OF char_parts [of b] char_parts [of c]]
  with 4 show ?case by (simp add: Let_def b64_values)
qed


section \<open>Tokens\<close>

text \<open>\<open>secrets.token_urlsafe(n)\<close>: \<open>urlsafe_b64encode(token_bytes(n)).rstrip(b'=')\<close>.\<close>

definition token_urlsafe :: "bytes \<Rightarrow> string" where
  "token_urlsafe bs = rev (dropWhile (\<lambda>c. c = CHR ''='') (rev (b64_encode url_char bs)))"

definition generate_token :: "env \<Rightarrow> string op" where
  "generate_token e = op_bind (draw e 32) (\<lambda>bs. ret (token_urlsafe bs))"

definition hash_token :: "env \<Rightarrow> string \<Rightarrow> string" where
  "hash_token e token = sha256_hex e token"

lemma generate_token_run:
  "generate_token e s = (Inr (token_urlsafe (urandom e (s_draws s) 32)), s\<lparr>s_draws := Suc (s_draws s)\<rparr>)"
  by (simp add: generate_token_def draw_def op_run)


section \<open>Passwords\<close>

text \<open>
  Argon2id draws a salt; the draw count stands for it. \<open>verify_password\<close> returns False both for a
  wrong password and for a malformed stored hash, and \<open>argon2_verify\<close> is that verdict.
\<close>

definition hash_password :: "env \<Rightarrow> string \<Rightarrow> string op" where
  "hash_password e password =
     (\<lambda>s. (Inr (argon2_hash e (s_draws s) password), s\<lparr>s_draws := Suc (s_draws s)\<rparr>))"

definition verify_password :: "env \<Rightarrow> string \<Rightarrow> string \<Rightarrow> bool" where
  "verify_password e stored_hash password = argon2_verify e stored_hash password"

definition needs_rehash :: "env \<Rightarrow> string \<Rightarrow> bool" where
  "needs_rehash e stored_hash = argon2_needs_rehash e stored_hash"

text \<open>A hash verifies the password it was made of, whatever the salt.\<close>

definition argon2_correct :: "env \<Rightarrow> bool" where
  "argon2_correct e \<longleftrightarrow> (\<forall>n p. argon2_verify e (argon2_hash e n p) p)"

lemma keeps_tokens [keeps_intros]:
  "keeps same_tx (generate_token e)" "keeps (confined u) (generate_token e)"
  "keeps same_tx (hash_password e p)" "keeps (confined u) (hash_password e p)"
  by (simp_all add: keeps_def generate_token_run hash_password_def same_tx_def confined_def)

end
