(* ===== verification/Settings_Values.thy ===== *)
theory Settings_Values
  imports Settings Vendor_Protocol Tokens
begin

text \<open>
  The derived values of \<open>settings.py\<close>. Each raises \<open>RuntimeError\<close> for a missing or malformed field and
  never shows a value. \<open>make_url(...).set(...)\<close> of SQLAlchemy is the parameter \<open>set_url\<close>: the URL, the
  driver name to set, if any, the user and the password give the rendered URL.
\<close>

definition schwab_credentials_of :: "settings \<Rightarrow> exn + schwab_credentials" where
  "schwab_credentials_of st =
     (case (schwab_api_key st, schwab_app_secret st, schwab_callback_url st) of
        (Some api_key, Some app_secret, Some callback_url) \<Rightarrow>
          Inr \<lparr>sc_api_key = api_key, sc_app_secret = app_secret, sc_callback_url = callback_url\<rparr>
      | _ \<Rightarrow> Inl RuntimeError)"

text \<open>\<open>str.replace(old, new, 1)\<close>: the first occurrence, from the left.\<close>

fun replace_first :: "string \<Rightarrow> string \<Rightarrow> string \<Rightarrow> string" where
  "replace_first old new s =
     (if take (length old) s = old then new @ drop (length old) s
      else (case s of [] \<Rightarrow> [] | c # r \<Rightarrow> c # replace_first old new r))"

definition async_dsn :: "settings \<Rightarrow> string" where
  "async_dsn st = replace_first ''postgresql://'' ''postgresql+asyncpg://'' (database_url st)"

definition sync_dsn :: "settings \<Rightarrow> string" where
  "sync_dsn st = database_url st"

definition app_async_dsn ::
    "(string \<Rightarrow> string option \<Rightarrow> string \<Rightarrow> string \<Rightarrow> string) \<Rightarrow> settings \<Rightarrow> exn + string" where
  "app_async_dsn set_url st = (case morai_app_db_password st of
     None \<Rightarrow> Inl RuntimeError
   | Some password \<Rightarrow> Inr (set_url (database_url st) (Some ''postgresql+asyncpg'') ''morai_app'' password))"

definition app_sync_dsn ::
    "(string \<Rightarrow> string option \<Rightarrow> string \<Rightarrow> string \<Rightarrow> string) \<Rightarrow> settings \<Rightarrow> exn + string" where
  "app_sync_dsn set_url st = (case morai_app_db_password st of
     None \<Rightarrow> Inl RuntimeError
   | Some password \<Rightarrow> Inr (set_url (database_url st) None ''morai_app'' password))"

definition master_key_of :: "settings \<Rightarrow> exn + bytes" where
  "master_key_of st = (case morai_master_key st of
     None \<Rightarrow> Inl RuntimeError
   | Some key \<Rightarrow> (case b64_decode key of
       None \<Rightarrow> Inl RuntimeError
     | Some decoded \<Rightarrow> if length decoded \<noteq> 32 then Inl RuntimeError else Inr decoded))"

text \<open>\<open>api/routes_connections.py\<close>, \<open>get_schwab_auth\<close>: the adapter on the configured credentials.\<close>

definition get_schwab_auth :: "settings \<Rightarrow> schwab_lib \<Rightarrow> exn + schwab_auth" where
  "get_schwab_auth st lib = (case schwab_credentials_of st of Inl x \<Rightarrow> Inl x
     | Inr c \<Rightarrow> Inr \<lparr>sa_credentials = c, sa_lib = lib\<rparr>)"

text \<open>
  C37: The master key is read back exactly, and nothing else is taken for one. The Base64 text of any 32
  bytes configures those bytes; a value that is not set, is not Base64 of the strict alphabet and padding,
  or does not come to 32 bytes is refused.
\<close>

theorem master_key_roundtrip:
  "master_key_of (st\<lparr>morai_master_key := Some (b64_encode b64_char k)\<rparr>) =
     (if length k = 32 then Inr k else Inl RuntimeError) \<and>
   (case master_key_of st of Inl x \<Rightarrow> x = RuntimeError
    | Inr k \<Rightarrow> length k = 32 \<and> Option.bind (morai_master_key st) b64_decode = Some k)"
  by (auto simp: master_key_of_def b64_decode_encode split: option.splits)

end
