(* ===== verification/Setup_Tokens.thy ===== *)
theory Setup_Tokens
  imports Server Tokens Demo_World
begin

text \<open>
  \<open>identity/setup_tokens.py\<close>: the one-time tokens behind the setup link, the password reset and the
  OAuth \<open>state\<close>. Only the hash of a token is stored; using it deletes its row in one statement and
  commits. Both functions read the clock once; the instant is the argument \<open>now\<close>.
\<close>

datatype token_purpose = Setup | PasswordReset | OauthState

definition token_purpose_value :: "token_purpose \<Rightarrow> string" where
  "token_purpose_value p = (case p of Setup \<Rightarrow> ''setup'' | PasswordReset \<Rightarrow> ''password_reset''
     | OauthState \<Rightarrow> ''oauth_state'')"

lemma token_purpose_value_inject [simp]: "token_purpose_value p = token_purpose_value q \<longleftrightarrow> p = q"
  by (cases p; cases q) (simp_all add: token_purpose_value_def)

text \<open>The identifier of the row is the database's own \<open>gen_random_uuid()\<close>.\<close>

definition issue_token :: "env \<Rightarrow> uuid \<Rightarrow> token_purpose \<Rightarrow> timedelta \<Rightarrow> datetime \<Rightarrow> string op" where
  "issue_token e user_id purpose ttl now =
     op_bind (generate_token e) (\<lambda>raw.
     op_bind (draw_uuid e) (\<lambda>i.
     op_seq (ins setup_tokens_table \<lparr>st_id = i, st_token_hash = hash_token e raw, st_user_id = user_id,
       st_purpose = token_purpose_value purpose, st_expires_at = now + ttl\<rparr>)
     (ret raw)))"

definition consume_token :: "env \<Rightarrow> string \<Rightarrow> token_purpose \<Rightarrow> datetime \<Rightarrow> uuid option op" where
  "consume_token e raw_token purpose now =
     op_bind (del_returning setup_tokens_table (\<lambda>r. st_token_hash r = hash_token e raw_token \<and>
       st_purpose r = token_purpose_value purpose \<and> st_expires_at r > now)) (\<lambda>rows.
     op_bind (one_or_none (map st_user_id rows)) (\<lambda>row.
     op_seq commit (ret row)))"


section \<open>Tokens as a partial map\<close>

text \<open>
  What the table means: a usable token names one user. \<open>token_user\<close> reads that map off the rows, and
  the two operations are an insertion and a lookup that removes.
\<close>

definition tokens_distinct :: "db \<Rightarrow> bool" where
  "tokens_distinct d \<longleftrightarrow> distinct (map st_token_hash (t_setup_tokens d))"

definition usable :: "env \<Rightarrow> string \<Rightarrow> token_purpose \<Rightarrow> datetime \<Rightarrow> setup_token_row \<Rightarrow> bool" where
  "usable e raw purpose now r \<longleftrightarrow> st_token_hash r = hash_token e raw \<and>
     st_purpose r = token_purpose_value purpose \<and> st_expires_at r > now"

definition token_user :: "env \<Rightarrow> db \<Rightarrow> string \<Rightarrow> token_purpose \<Rightarrow> datetime \<Rightarrow> uuid option" where
  "token_user e d raw purpose now = map_option st_user_id (find (usable e raw purpose now) (t_setup_tokens d))"

definition without_token :: "env \<Rightarrow> string \<Rightarrow> token_purpose \<Rightarrow> datetime \<Rightarrow> db \<Rightarrow> db" where
  "without_token e raw purpose now = t_setup_tokens_update (filter (\<lambda>r. \<not> usable e raw purpose now r))"

lemma filter_usable:
  assumes "tokens_distinct d"
  shows "filter (usable e raw purpose now) (t_setup_tokens d) =
    (case find (usable e raw purpose now) (t_setup_tokens d) of None \<Rightarrow> [] | Some r \<Rightarrow> [r])"
  using assms unfolding tokens_distinct_def
proof (induction "t_setup_tokens d" arbitrary: d)
  case (Cons r rs)
  have "filter (usable e raw purpose now) rs = []" if "usable e raw purpose now r"
    using that Cons.hyps(2) [symmetric] Cons.prems by (force simp: filter_empty_conv usable_def image_iff)
  moreover have "filter (usable e raw purpose now) rs =
      (case find (usable e raw purpose now) rs of None \<Rightarrow> [] | Some r \<Rightarrow> [r])"
    using Cons.hyps(1) [of "d\<lparr>t_setup_tokens := rs\<rparr>"] Cons.hyps(2) [symmetric] Cons.prems by simp
  ultimately show ?case by (simp add: Cons.hyps(2) [symmetric])
qed simp

text \<open>Using a token is a lookup in the map, a removal and a commit.\<close>

lemma consume_token_run:
  assumes "live s" "tokens_distinct (s_db s)"
  shows "consume_token e raw purpose now s =
    (Inr (token_user e (s_db s) raw purpose now),
     committed (s\<lparr>s_db := without_token e raw purpose now (s_db s)\<rparr>))"
proof -
  let ?s = "s\<lparr>s_db := without_token e raw purpose now (s_db s)\<rparr>"
  have d: "del_returning setup_tokens_table (\<lambda>r. st_token_hash r = hash_token e raw \<and>
      st_purpose r = token_purpose_value purpose \<and> st_expires_at r > now) s =
    (Inr (filter (usable e raw purpose now) (t_setup_tokens (s_db s))), ?s)"
    using tokens_tb.del_returning_live [OF assms(1)]
    by (simp add: setup_tokens_table_def without_token_def usable_def [abs_def])
  have c: "commit ?s = (Inr (), committed ?s)" using assms(1) by (intro commit_live) simp
  show ?thesis
    by (simp add: consume_token_def op_bind_def op_seq_def d filter_usable [OF assms(2)] token_user_def
        one_or_none_def ret_def c split: option.split)
qed

lemma token_user_without:
  assumes "tokens_distinct d" "token_user e d raw purpose now \<noteq> None"
  shows "token_user e (without_token e raw purpose now d) raw purpose' now' = None"
proof -
  from assms(2) obtain r where f: "find (usable e raw purpose now) (t_setup_tokens d) = Some r"
    by (auto simp: token_user_def)
  then have r: "r \<in> set (t_setup_tokens d)" "usable e raw purpose now r"
    by (auto simp: find_Some_iff)
  have "q = r" if "q \<in> set (t_setup_tokens d)" "st_token_hash q = hash_token e raw" for q
    using assms(1) that r unfolding tokens_distinct_def usable_def
    by (metis distinct_map inj_onD)
  with r(2) show ?thesis
    by (auto simp: token_user_def without_token_def find_None_iff usable_def)
qed

text \<open>
  C23: A one-time token works once. When using a token for one purpose names a user, a row of that user
  with that hash and purpose, not yet expired, was stored; the use is committed at once, and using the
  same token again, in whatever session that starts from what is committed, at whatever time and for
  whatever purpose, names nobody.
\<close>

theorem consume_token_once:
  assumes "live s" "tokens_distinct (s_db s)" "consume_token e raw purpose now s = (Inr (Some u), s')"
    "live t" "s_db t = s_committed s'"
  shows "list_ex (\<lambda>r. usable e raw purpose now r \<and> st_user_id r = u) (t_setup_tokens (s_db s)) \<and>
    fst (consume_token e raw purpose' now' t) = Inr None"
proof -
  have r: "token_user e (s_db s) raw purpose now = Some u"
    "s_committed s' = without_token e raw purpose now (s_db s)"
    using assms(3) by (auto simp: consume_token_run [OF assms(1,2)])
  then have "list_ex (\<lambda>r. usable e raw purpose now r \<and> st_user_id r = u) (t_setup_tokens (s_db s))"
    by (auto simp: token_user_def find_Some_iff list_ex_iff)
  moreover have "tokens_distinct (s_db t)"
    using assms(2) by (simp add: assms(5) r(2) tokens_distinct_def without_token_def distinct_map_filter)
  moreover have "token_user e (s_db t) raw purpose' now' = None"
    using token_user_without [OF assms(2)] r by (simp add: assms(5))
  ultimately show ?thesis by (simp add: consume_token_run [OF assms(4)])
qed


section \<open>Issuing\<close>

definition token_row :: "env \<Rightarrow> nat \<Rightarrow> uuid \<Rightarrow> token_purpose \<Rightarrow> datetime \<Rightarrow> setup_token_row" where
  "token_row e n user_id purpose expires_at =
     \<lparr>st_id = gen_uuid e (Suc n), st_token_hash = hash_token e (token_urlsafe (urandom e n 32)),
      st_user_id = user_id, st_purpose = token_purpose_value purpose, st_expires_at = expires_at\<rparr>"

text \<open>Fresh entropy: neither the identifiers nor the hashes still to be drawn are in the table.\<close>

definition new_tokens :: "env \<Rightarrow> nat \<Rightarrow> db \<Rightarrow> bool" where
  "new_tokens e i d \<longleftrightarrow> (\<forall>n \<ge> i. \<not> list_ex (\<lambda>q. st_id q = gen_uuid e n \<or>
     st_token_hash q = hash_token e (token_urlsafe (urandom e n 32))) (t_setup_tokens d))"

lemma issue_token_run:
  assumes "live s" "has_user (s_db s) u" "new_tokens e (s_draws s) (s_db s)"
  shows "issue_token e u purpose ttl now s =
    (Inr (token_urlsafe (urandom e (s_draws s) 32)), s\<lparr>s_draws := s_draws s + 2,
      s_db := t_setup_tokens_update (\<lambda>rs. rs @ [token_row e (s_draws s) u purpose (now + ttl)]) (s_db s)\<rparr>)"
proof -
  let ?row = "token_row e (s_draws s) u purpose (now + ttl)"
  let ?s = "s\<lparr>s_draws := s_draws s + 2\<rparr>"
  have l: "live ?s" using assms(1) by simp
  have n: "st_id q \<noteq> gen_uuid e (Suc (s_draws s))" "st_token_hash q \<noteq> hash_token e (token_urlsafe (urandom e (s_draws s) 32))"
    if "q \<in> set (t_setup_tokens (s_db s))" for q
    using assms(3) that by (auto simp: new_tokens_def list_ex_iff)
  have "\<not> list_ex (\<lambda>q. tb_clash setup_tokens_table q ?row) (tb_rows setup_tokens_table (s_db s))"
    by (auto simp: setup_tokens_table_def list_ex_iff token_row_def dest: n)
  moreover have "tb_parents setup_tokens_table (s_db s) ?row"
    using assms(2) by (simp add: setup_tokens_table_def token_row_def)
  ultimately have "ins setup_tokens_table ?row ?s =
      (Inr (), ?s\<lparr>s_db := t_setup_tokens_update (\<lambda>rs. rs @ [?row]) (s_db s)\<rparr>)"
    using tokens_tb.ins_live [OF l, of ?row] by (simp add: setup_tokens_table_def)
  then show ?thesis
    by (simp add: issue_token_def op_bind_def op_seq_def generate_token_run draw_uuid_def ret_def token_row_def)
qed


section \<open>Witness\<close>

definition demo_token_row :: setup_token_row where
  "demo_token_row = \<lparr>st_id = 1, st_token_hash = ''tk'', st_user_id = demo_user, st_purpose = ''setup'',
     st_expires_at = 100\<rparr>"

definition demo_token_db :: db where
  "demo_token_db = demo_db\<lparr>t_setup_tokens := [demo_token_row]\<rparr>"

lemma demo_token_found [simp]: "token_user demo_env demo_token_db ''tk'' Setup 0 = Some demo_user"
  by (simp add: token_user_def demo_token_db_def demo_token_row_def usable_def hash_token_def demo_env_def
      token_purpose_value_def)

lemma demo_tokens_distinct [simp]: "tokens_distinct demo_token_db"
  by (simp add: tokens_distinct_def demo_token_db_def)

theorem consume_token_once_witness:
  "\<exists>s'. consume_token demo_env ''tk'' Setup 0 (new_session App demo_token_db 0) = (Inr (Some demo_user), s') \<and>
    fst (consume_token demo_env ''tk'' PasswordReset 5 (new_session App (s_committed s') 0)) = Inr None"
proof -
  let ?s = "new_session App demo_token_db 0"
  have l: "live ?s" "tokens_distinct (s_db ?s)" "s_db ?s = demo_token_db" by (simp_all add: new_session_def live_def)
  obtain s' where c: "consume_token demo_env ''tk'' Setup 0 ?s = (Inr (Some demo_user), s')"
    using consume_token_run [OF l(1,2), of demo_env "''tk''" Setup 0] l(3) by simp
  have t: "live (new_session App (s_committed s') 0)" "s_db (new_session App (s_committed s') 0) = s_committed s'"
    by (simp_all add: new_session_def live_def)
  from consume_token_once [OF l(1,2) c t] c show ?thesis by blast
qed

end
