(* ===== verification/Sessions.thy ===== *)
theory Sessions
  imports Server Tokens Demo_World
begin

text \<open>
  \<open>identity/sessions.py\<close>: who is calling. The cookie's hash is looked up in the unscoped \<open>sessions\<close>
  table; the row's user becomes the context every later statement of the request runs under.
\<close>

record authenticated_user =
  au_user_id :: uuid
  au_is_admin :: bool

definition get_current_user :: "env \<Rightarrow> string option \<Rightarrow> datetime \<Rightarrow> authenticated_user op" where
  "get_current_user e morai_session now =
     (case morai_session of
        None \<Rightarrow> raise (HTTPException 401 ''not authenticated'')
      | Some token \<Rightarrow>
          op_bind (sel sessions_table (\<lambda>r. ss_token_hash r = hash_token e token \<and> ss_expires_at r > now)) (\<lambda>rows.
          op_bind (one_or_none rows) (\<lambda>found.
          (case found of
             None \<Rightarrow> raise (HTTPException 401 ''not authenticated'')
           | Some row \<Rightarrow>
               op_seq (set_current_user (uuid_str (ss_user_id row)))
               (op_bind (sel users_table (\<lambda>r. u_id r = ss_user_id row)) (\<lambda>users.
               op_bind (one users) (\<lambda>caller.
               op_seq (if u_is_admin caller then set_is_admin ''true'' else ret ())
               (ret \<lparr>au_user_id = ss_user_id row, au_is_admin = u_is_admin caller\<rparr>))))))))"

definition get_current_admin :: "env \<Rightarrow> string option \<Rightarrow> datetime \<Rightarrow> authenticated_user op" where
  "get_current_admin e morai_session now =
     op_bind (get_current_user e morai_session now) (\<lambda>user.
     if \<not> au_is_admin user then raise (HTTPException 404 ''not found'') else ret user)"


section \<open>Sessions as a partial map\<close>

definition sessions_distinct :: "db \<Rightarrow> bool" where
  "sessions_distinct d \<longleftrightarrow> distinct (map ss_token_hash (t_sessions d))"

definition logged_in :: "env \<Rightarrow> db \<Rightarrow> string \<Rightarrow> datetime \<Rightarrow> uuid option" where
  "logged_in e d token now = map_option ss_user_id
     (find (\<lambda>r. ss_token_hash r = hash_token e token \<and> ss_expires_at r > now) (t_sessions d))"

text \<open>The row of a user, the identifiers being unique and every session's user stored.\<close>

definition user_in :: "db \<Rightarrow> uuid \<Rightarrow> user_row option" where
  "user_in d u = (case filter (\<lambda>r. u_id r = u) (t_users d) of [r] \<Rightarrow> Some r | _ \<Rightarrow> None)"

definition users_ok :: "db \<Rightarrow> bool" where
  "users_ok d \<longleftrightarrow> distinct (map u_id (t_users d)) \<and> distinct (map u_username (t_users d)) \<and>
     list_all (\<lambda>r. has_user d (ss_user_id r)) (t_sessions d)"

lemma filter_key_find:
  assumes "distinct (map f xs)" "\<And>x. P x \<Longrightarrow> f x = k"
  shows "filter P xs = (case find P xs of None \<Rightarrow> [] | Some x \<Rightarrow> [x])"
  using assms
proof (induction xs)
  case (Cons x xs)
  show ?case
  proof (cases "P x")
    case True
    have "filter P xs = []" using Cons.prems True by (auto simp: filter_empty_conv image_iff)
    with True show ?thesis by simp
  qed (use Cons in simp)
qed simp

lemma user_in_Some:
  assumes "distinct (map u_id (t_users d))"
  shows "user_in d u = Some r \<longleftrightarrow> r \<in> set (t_users d) \<and> u_id r = u"
proof -
  have f: "filter (\<lambda>r. u_id r = u) (t_users d) =
      (case find (\<lambda>r. u_id r = u) (t_users d) of None \<Rightarrow> [] | Some x \<Rightarrow> [x])"
    using assms by (rule filter_key_find) simp
  show ?thesis
  proof (cases "find (\<lambda>r. u_id r = u) (t_users d)")
    case None
    then have "filter (\<lambda>r. u_id r = u) (t_users d) = []" by (simp add: f)
    then show ?thesis by (auto simp: user_in_def filter_empty_conv)
  next
    case (Some x)
    then have "filter (\<lambda>r. u_id r = u) (t_users d) = [x]" by (simp add: f)
    then have "set (filter (\<lambda>r. u_id r = u) (t_users d)) = {x}" by simp
    then have "r \<in> set (t_users d) \<and> u_id r = u \<longleftrightarrow> r = x" by auto
    with Some show ?thesis by (auto simp: user_in_def f)
  qed
qed

lemma filter_user:
  "user_in d u = Some r \<Longrightarrow> filter (\<lambda>r. u_id r = u) (t_users d) = [r]"
  by (simp add: user_in_def split: list.splits)

lemma has_user_in:
  "distinct (map u_id (t_users d)) \<Longrightarrow> has_user d u \<Longrightarrow> \<exists>r. user_in d u = Some r"
  by (auto simp: has_user_def list_ex_iff user_in_Some)

text \<open>The own row, whether or not the session is an admin's.\<close>

lemma sel_own_user:
  assumes "as_user u s" "user_in (s_db s) u = Some r"
  shows "sel users_table (\<lambda>r. u_id r = u) s = (Inr [r], s)"
proof -
  have "filter (\<lambda>r. (u_id r = u \<or> s_admin_guc s = Some ''true'') \<and> u_id r = u) (t_users (s_db s)) =
      filter (\<lambda>r. u_id r = u) (t_users (s_db s))" by (rule filter_cong) auto
  with filter_user [OF assms(2)]
  have "filter (\<lambda>r. (u_id r = u \<or> s_admin_guc s = Some ''true'') \<and> u_id r = u) (t_users (s_db s)) = [r]"
    by simp
  then show ?thesis by (simp add: sel_users_as [OF assms(1)])
qed


section \<open>Who is calling\<close>

text \<open>The session after a successful look-up: the caller's context, and the admin flag for an admin.\<close>

definition as_caller :: "user_row \<Rightarrow> sess \<Rightarrow> sess" where
  "as_caller r s = (if u_is_admin r then s_admin_guc_update (\<lambda>_. Some ''true'') else (\<lambda>s. s))
     (s_user_guc_update (\<lambda>_. Some (uuid_str (u_id r))) s)"

lemma as_caller_simps [simp]:
  "s_db (as_caller r s) = s_db s" "s_committed (as_caller r s) = s_committed s"
  "s_draws (as_caller r s) = s_draws s" "live (as_caller r s) = live s"
  "s_admin_guc (as_caller r s) = (if u_is_admin r then Some ''true'' else s_admin_guc s)"
  by (simp_all add: as_caller_def live_def)

lemma as_caller_as_user: "live s \<Longrightarrow> as_user (u_id r) (as_caller r s)"
  by (simp add: as_user_def as_caller_def live_def)

lemma get_current_user_run:
  assumes "live s" "sessions_distinct (s_db s)" "users_ok (s_db s)"
  shows "get_current_user e cookie now s =
    (case Option.bind cookie (\<lambda>token. logged_in e (s_db s) token now) of
       None \<Rightarrow> (Inl (HTTPException 401 ''not authenticated''), s)
     | Some u \<Rightarrow> (case user_in (s_db s) u of
          Some r \<Rightarrow> (Inr \<lparr>au_user_id = u, au_is_admin = u_is_admin r\<rparr>, as_caller r s)
        | None \<Rightarrow> (Inl NoResultFound, s)))"
proof (cases cookie)
  case None
  then show ?thesis by (simp add: get_current_user_def raise_def)
next
  case (Some token)
  let ?P = "\<lambda>r. ss_token_hash r = hash_token e token \<and> ss_expires_at r > now"
  have f: "filter ?P (t_sessions (s_db s)) = (case find ?P (t_sessions (s_db s)) of None \<Rightarrow> [] | Some x \<Rightarrow> [x])"
    using assms(2) unfolding sessions_distinct_def by (rule filter_key_find) simp
  have q: "sel sessions_table ?P s = (Inr (filter ?P (t_sessions (s_db s))), s)"
    using sessions_tb.sel_live [OF assms(1)] by (simp add: sessions_table_def)
  show ?thesis
  proof (cases "find ?P (t_sessions (s_db s))")
    case None
    then show ?thesis
      by (simp add: get_current_user_def Some op_bind_def q f one_or_none_def ret_def raise_def logged_in_def)
  next
    case row: (Some row)
    then have "row \<in> set (t_sessions (s_db s))" by (auto simp: find_Some_iff)
    then have "has_user (s_db s) (ss_user_id row)" using assms(3) by (simp add: users_ok_def list_all_iff)
    with assms(3) obtain r where r: "user_in (s_db s) (ss_user_id row) = Some r"
      using has_user_in unfolding users_ok_def by blast
    then have i: "u_id r = ss_user_id row" using assms(3) by (simp add: user_in_Some users_ok_def)
    let ?s = "s_user_guc_update (\<lambda>_. Some (uuid_str (ss_user_id row))) s"
    have a: "as_user (ss_user_id row) ?s" using assms(1) by (rule as_user_set)
    have u: "sel users_table (\<lambda>r. u_id r = ss_user_id row) ?s = (Inr [r], ?s)"
      using sel_own_user [OF a] r by simp
    have g: "set_is_admin ''true'' ?s = (Inr (), s_admin_guc_update (\<lambda>_. Some ''true'') ?s)"
      using assms(1) by (simp add: set_is_admin_def on_live_def live_def)
    show ?thesis
      by (simp add: get_current_user_def Some op_bind_def op_seq_def q f row one_or_none_def ret_def one_def
          set_current_user_live [OF assms(1)] u g logged_in_def r as_caller_def i)
  qed
qed

text \<open>Being let in: the cookie names a session that has not expired, and the context is its user's.\<close>

lemma get_current_user_ok:
  assumes "live s" "sessions_distinct (s_db s)" "users_ok (s_db s)"
    "get_current_user e cookie now s = (Inr au, t)"
  obtains token r where "cookie = Some token" "logged_in e (s_db s) token now = Some (au_user_id au)"
    "user_in (s_db s) (au_user_id au) = Some r" "u_id r = au_user_id au" "au_is_admin au = u_is_admin r"
    "t = as_caller r s" "as_user (au_user_id au) t"
proof -
  from assms(4) obtain u where u: "Option.bind cookie (\<lambda>token. logged_in e (s_db s) token now) = Some u"
    by (cases "Option.bind cookie (\<lambda>token. logged_in e (s_db s) token now)")
      (auto simp: get_current_user_run [OF assms(1-3)])
  with assms(4) obtain r where r: "user_in (s_db s) u = Some r" "t = as_caller r s" "au_user_id au = u"
    "au_is_admin au = u_is_admin r"
    by (cases "user_in (s_db s) u") (auto simp: get_current_user_run [OF assms(1-3)])
  have i: "u_id r = u" using r(1) assms(3) by (simp add: user_in_Some users_ok_def)
  from u obtain token where "cookie = Some token" "logged_in e (s_db s) token now = Some u"
    by (auto simp: bind_eq_Some_conv)
  with r i as_caller_as_user [OF assms(1), of r] that show ?thesis by simp
qed

end
