(* ===== verification/Audited_Read.thy ===== *)
theory Audited_Read
  imports Server Envelope
begin

text \<open>
  \<open>identity/audit.py\<close>: the one privileged read across users. The capability that unlocks it and the
  audit row come out of the same call; a capability built by hand carries the wrong sentinel and raises.
\<close>

datatype sentinel = FactorySentinel | OtherObject

record audited_read =
  ar_reader_id :: uuid
  ar_subject_id :: uuid
  ar_token :: sentinel

definition make_audited_read :: "uuid \<Rightarrow> uuid \<Rightarrow> sentinel \<Rightarrow> exn + audited_read" where
  "make_audited_read reader_id subject_id token =
     (if token \<noteq> FactorySentinel then Inl RuntimeError
      else Inr \<lparr>ar_reader_id = reader_id, ar_subject_id = subject_id, ar_token = token\<rparr>)"

definition open_audited_read :: "env \<Rightarrow> uuid \<Rightarrow> uuid \<Rightarrow> audited_read op" where
  "open_audited_read e reader_id subject_id =
     op_bind (draw_uuid e) (\<lambda>i.
     op_seq (ins audit_log_table \<lparr>al_id = i, al_reader_id = reader_id, al_subject_id = subject_id\<rparr>)
     (op_from (make_audited_read reader_id subject_id FactorySentinel)))"

definition get_user_for_management :: "audited_read \<Rightarrow> user_row option op" where
  "get_user_for_management proof' =
     op_bind (sel users_table (\<lambda>r. u_id r = ar_subject_id proof')) one_or_none"

definition audit_row_of :: "uuid \<Rightarrow> uuid \<Rightarrow> uuid \<Rightarrow> audit_row" where
  "audit_row_of i reader_id subject_id = \<lparr>al_id = i, al_reader_id = reader_id, al_subject_id = subject_id\<rparr>"

definition new_audit_ids :: "env \<Rightarrow> nat \<Rightarrow> db \<Rightarrow> bool" where
  "new_audit_ids e i d \<longleftrightarrow> (\<forall>n \<ge> i. \<not> list_ex (\<lambda>q. al_id q = gen_uuid e n) (t_audit_log d))"

text \<open>The trail takes a row of two stored users and refuses any other.\<close>

lemma open_audited_read_run:
  assumes "live s" "new_audit_ids e (s_draws s) (s_db s)" "has_user (s_db s) reader_id"
  shows "open_audited_read e reader_id subject_id s =
    (if has_user (s_db s) subject_id
     then (Inr \<lparr>ar_reader_id = reader_id, ar_subject_id = subject_id, ar_token = FactorySentinel\<rparr>,
       s\<lparr>s_draws := Suc (s_draws s), s_db := t_audit_log_update
          (\<lambda>rs. rs @ [audit_row_of (gen_uuid e (s_draws s)) reader_id subject_id]) (s_db s)\<rparr>)
     else (Inl IntegrityError, s\<lparr>s_draws := Suc (s_draws s), s_aborted := True\<rparr>))"
proof -
  have "\<not> list_ex (\<lambda>q. al_id q = gen_uuid e (s_draws s)) (t_audit_log (s_db s))"
    using assms(2) by (simp add: new_audit_ids_def)
  then show ?thesis
    using assms(1,3)
    by (simp add: open_audited_read_def op_bind_def op_seq_def draw_uuid_def ins_def stmt_def live_def
        audit_log_table_def policy_user_def insert_row_def row_writable_def db_fail_def make_audited_read_def
        op_from_def audit_row_of_def)
qed

end
