(* ===== verification/Account.thy ===== *)
theory Account
  imports Server Envelope Batch_Store
begin

text \<open>
  \<open>identity/account.py\<close>: deleting an account. The data keys go first, so that whatever an interrupted
  deletion leaves behind is unreadable; then the trade rows, the identity rows and the user.
\<close>

definition delete_account :: "uuid \<Rightarrow> unit op" where
  "delete_account user_id =
     op_bind (del user_data_keys_table (\<lambda>r. dk_user_id r = user_id)) (\<lambda>_.
     op_bind (del events_table (\<lambda>r. e_user_id r = user_id)) (\<lambda>_.
     op_bind (del legs_table (\<lambda>r. l_user_id r = user_id)) (\<lambda>_.
     op_bind (del positions_table (\<lambda>r. p_user_id r = user_id)) (\<lambda>_.
     op_bind (del fills_table (\<lambda>r. f_user_id r = user_id)) (\<lambda>_.
     op_bind (del broker_transactions_table (\<lambda>r. b_user_id r = user_id)) (\<lambda>_.
     op_bind (del sessions_table (\<lambda>r. ss_user_id r = user_id)) (\<lambda>_.
     op_bind (del setup_tokens_table (\<lambda>r. st_user_id r = user_id)) (\<lambda>_.
     op_bind (del schwab_connections_table (\<lambda>r. c_user_id r = user_id)) (\<lambda>_.
     op_bind (del sync_runs_table (\<lambda>r. r_user_id r = user_id)) (\<lambda>_.
     op_bind (del users_table (\<lambda>r. u_id r = user_id)) (\<lambda>_.
     ret ())))))))))))"


section \<open>The database without a user\<close>

text \<open>Every row that names the user is gone, but for the audit trail.\<close>

definition without_rows :: "uuid \<Rightarrow> db \<Rightarrow> db" where
  "without_rows u d = d\<lparr>
     t_user_data_keys := filter (\<lambda>r. dk_user_id r \<noteq> u) (t_user_data_keys d),
     t_events := filter (\<lambda>r. e_user_id r \<noteq> u) (t_events d),
     t_legs := filter (\<lambda>r. l_user_id r \<noteq> u) (t_legs d),
     t_positions := filter (\<lambda>r. p_user_id r \<noteq> u) (t_positions d),
     t_fills := filter (\<lambda>r. f_user_id r \<noteq> u) (t_fills d),
     t_broker_transactions := filter (\<lambda>r. b_user_id r \<noteq> u) (t_broker_transactions d),
     t_sessions := filter (\<lambda>r. ss_user_id r \<noteq> u) (t_sessions d),
     t_setup_tokens := filter (\<lambda>r. st_user_id r \<noteq> u) (t_setup_tokens d),
     t_schwab_connections := filter (\<lambda>r. c_user_id r \<noteq> u) (t_schwab_connections d),
     t_sync_runs := filter (\<lambda>r. r_user_id r \<noteq> u) (t_sync_runs d)\<rparr>"

definition erased :: "uuid \<Rightarrow> db \<Rightarrow> db" where
  "erased u d = t_users_update (filter (\<lambda>r. u_id r \<noteq> u)) (without_rows u d)"

definition audited :: "db \<Rightarrow> uuid \<Rightarrow> bool" where
  "audited d u \<longleftrightarrow> list_ex (\<lambda>r. al_reader_id r = u \<or> al_subject_id r = u) (t_audit_log d)"

text \<open>Nobody else's legs or events hang on the user's positions.\<close>

definition own_positions :: "db \<Rightarrow> uuid \<Rightarrow> bool" where
  "own_positions d u \<longleftrightarrow>
     list_all (\<lambda>l. list_ex (\<lambda>p. p_id p = l_position_id l \<and> p_user_id p = u) (t_positions d) \<longrightarrow> l_user_id l = u)
       (t_legs d) \<and>
     list_all (\<lambda>e. list_ex (\<lambda>p. p_id p = e_position_id e \<and> p_user_id p = u) (t_positions d) \<longrightarrow> e_user_id e = u)
       (t_events d)"


section \<open>The deletion step by step\<close>

context owned_table
begin

lemma del_own:
  assumes "as_user u s" "DELETE \<in> set (tb_grants tb)"
    "\<not> list_ex (\<lambda>r. tb_owner tb r = u \<and> tb_referenced tb (s_db s) r) (tb_rows tb (s_db s))"
  shows "del tb (\<lambda>r. tb_owner tb r = u) s =
    (Inr (length (filter (\<lambda>r. tb_owner tb r = u) (tb_rows tb (s_db s)))),
     s\<lparr>s_db := tb_put tb (filter (\<lambda>r. tb_owner tb r \<noteq> u) (tb_rows tb (s_db s))) (s_db s)\<rparr>)"
proof -
  have v: "row_visible tb s (Some u) r \<longleftrightarrow> tb_owner tb r = u" for r
    using assms(1) by (simp add: visible_as as_user_def)
  from assms(3) have "\<not> list_ex (\<lambda>r. (tb_owner tb r = u \<and> tb_owner tb r = u) \<and> tb_referenced tb (s_db s) r)
      (tb_rows tb (s_db s))" by (simp add: list_ex_iff)
  with assms(1,2) show ?thesis by (simp add: del_def stmt_as Let_def v)
qed

end

lemma del_own_rows:
  assumes "as_user u s"
  shows
    "del user_data_keys_table (\<lambda>r. dk_user_id r = u) s = (Inr (length (filter (\<lambda>r. dk_user_id r = u) (t_user_data_keys (s_db s)))),
       s\<lparr>s_db := t_user_data_keys_update (filter (\<lambda>r. dk_user_id r \<noteq> u)) (s_db s)\<rparr>)"
    "del events_table (\<lambda>r. e_user_id r = u) s = (Inr (length (filter (\<lambda>r. e_user_id r = u) (t_events (s_db s)))),
       s\<lparr>s_db := t_events_update (filter (\<lambda>r. e_user_id r \<noteq> u)) (s_db s)\<rparr>)"
    "del legs_table (\<lambda>r. l_user_id r = u) s = (Inr (length (filter (\<lambda>r. l_user_id r = u) (t_legs (s_db s)))),
       s\<lparr>s_db := t_legs_update (filter (\<lambda>r. l_user_id r \<noteq> u)) (s_db s)\<rparr>)"
    "del fills_table (\<lambda>r. f_user_id r = u) s = (Inr (length (filter (\<lambda>r. f_user_id r = u) (t_fills (s_db s)))),
       s\<lparr>s_db := t_fills_update (filter (\<lambda>r. f_user_id r \<noteq> u)) (s_db s)\<rparr>)"
    "del broker_transactions_table (\<lambda>r. b_user_id r = u) s = (Inr (length (filter (\<lambda>r. b_user_id r = u) (t_broker_transactions (s_db s)))),
       s\<lparr>s_db := t_broker_transactions_update (filter (\<lambda>r. b_user_id r \<noteq> u)) (s_db s)\<rparr>)"
    "del schwab_connections_table (\<lambda>r. c_user_id r = u) s = (Inr (length (filter (\<lambda>r. c_user_id r = u) (t_schwab_connections (s_db s)))),
       s\<lparr>s_db := t_schwab_connections_update (filter (\<lambda>r. c_user_id r \<noteq> u)) (s_db s)\<rparr>)"
    "del sync_runs_table (\<lambda>r. r_user_id r = u) s = (Inr (length (filter (\<lambda>r. r_user_id r = u) (t_sync_runs (s_db s)))),
       s\<lparr>s_db := t_sync_runs_update (filter (\<lambda>r. r_user_id r \<noteq> u)) (s_db s)\<rparr>)"
  using keys_tb.del_own [OF assms] events_tb.del_own [OF assms] legs_tb.del_own [OF assms] fills_tb.del_own [OF assms]
    broker_tb.del_own [OF assms] connections_tb.del_own [OF assms] runs_tb.del_own [OF assms]
  by (simp_all add: user_data_keys_table_def events_table_def legs_table_def fills_table_def broker_transactions_table_def schwab_connections_table_def sync_runs_table_def list_ex_iff)

lemma del_open_rows:
  assumes "as_user u s"
  shows "del sessions_table (\<lambda>r. ss_user_id r = u) s = (Inr (length (filter (\<lambda>r. ss_user_id r = u) (t_sessions (s_db s)))),
       s\<lparr>s_db := t_sessions_update (filter (\<lambda>r. ss_user_id r \<noteq> u)) (s_db s)\<rparr>)"
    "del setup_tokens_table (\<lambda>r. st_user_id r = u) s = (Inr (length (filter (\<lambda>r. st_user_id r = u) (t_setup_tokens (s_db s)))),
       s\<lparr>s_db := t_setup_tokens_update (filter (\<lambda>r. st_user_id r \<noteq> u)) (s_db s)\<rparr>)"
  using sessions_tb.del_live [OF as_user_live [OF assms]] tokens_tb.del_live [OF as_user_live [OF assms]]
  by (simp_all add: sessions_table_def setup_tokens_table_def)

text \<open>A position can go once no leg and no event refers to it.\<close>

lemma del_positions:
  assumes "as_user u s"
    "\<not> list_ex (\<lambda>p. p_user_id p = u \<and> (list_ex (\<lambda>l. l_position_id l = p_id p) (t_legs (s_db s)) \<or>
       list_ex (\<lambda>e. e_position_id e = p_id p) (t_events (s_db s)))) (t_positions (s_db s))"
  shows "del positions_table (\<lambda>r. p_user_id r = u) s =
    (Inr (length (filter (\<lambda>r. p_user_id r = u) (t_positions (s_db s)))),
     s\<lparr>s_db := t_positions_update (filter (\<lambda>r. p_user_id r \<noteq> u)) (s_db s)\<rparr>)"
  using positions_tb.del_own [OF assms(1)] assms(2) by (simp add: positions_table_def)

text \<open>The user row goes unless a row of another table still names the user.\<close>

lemma del_user:
  assumes "as_user u s" "has_user (s_db s) u"
  shows "del users_table (\<lambda>r. u_id r = u) s =
    (if user_referenced (s_db s) u then (Inl IntegrityError, s\<lparr>s_aborted := True\<rparr>)
     else (Inr (length (filter (\<lambda>r. u_id r = u) (t_users (s_db s)))),
       s\<lparr>s_db := t_users_update (filter (\<lambda>r. u_id r \<noteq> u)) (s_db s)\<rparr>))"
proof -
  have v: "row_visible users_table s (Some u) r \<and> u_id r = u \<longleftrightarrow> u_id r = u" for r
    by (auto simp: row_visible_def users_table_def)
  have p: "policy_user users_table s = Inr (Some u)" "DELETE \<in> set (tb_grants users_table)"
    "s_role s = App" "\<not> s_aborted s"
    using assms(1) by (simp_all add: policy_user_def users_table_def as_user_def)
  have t: "tb_rows users_table = t_users" "tb_put users_table xs d = t_users_update (\<lambda>_. xs) d"
    "tb_referenced users_table d r = user_referenced d (u_id r)" for xs d r
    by (simp_all add: users_table_def)
  have "list_ex (\<lambda>r. u_id r = u \<and> user_referenced (s_db s) (u_id r)) (t_users (s_db s)) \<longleftrightarrow>
      user_referenced (s_db s) u"
    using assms(2) by (auto simp: has_user_def list_ex_iff)
  then show ?thesis
    by (simp add: del_def stmt_def p t v Let_def db_fail_def flip: conj_assoc)
qed

lemma positions_free:
  assumes "own_positions d u"
  shows "\<not> list_ex (\<lambda>p. p_user_id p = u \<and>
    (list_ex (\<lambda>l. l_position_id l = p_id p) (filter (\<lambda>l. l_user_id l \<noteq> u) (t_legs d)) \<or>
     list_ex (\<lambda>e. e_position_id e = p_id p) (filter (\<lambda>e. e_user_id e \<noteq> u) (t_events d)))) (t_positions d)"
  using assms by (auto simp: own_positions_def list_all_iff list_ex_iff) metis+

lemma without_rows_user:
  "t_users (without_rows u d) = t_users d" "has_user (without_rows u d) u = has_user d u"
  "user_referenced (without_rows u d) u \<longleftrightarrow> audited d u"
  by (auto simp: without_rows_def has_user_def user_referenced_def audited_def list_ex_iff)

lemma without_rows_steps:
  "t_sync_runs_update (filter (\<lambda>r. r_user_id r \<noteq> u)) (t_schwab_connections_update (filter (\<lambda>r. c_user_id r \<noteq> u))
   (t_setup_tokens_update (filter (\<lambda>r. st_user_id r \<noteq> u)) (t_sessions_update (filter (\<lambda>r. ss_user_id r \<noteq> u))
   (t_broker_transactions_update (filter (\<lambda>r. b_user_id r \<noteq> u)) (t_fills_update (filter (\<lambda>r. f_user_id r \<noteq> u))
   (t_positions_update (filter (\<lambda>r. p_user_id r \<noteq> u)) (t_legs_update (filter (\<lambda>r. l_user_id r \<noteq> u))
   (t_events_update (filter (\<lambda>r. e_user_id r \<noteq> u)) (t_user_data_keys_update (filter (\<lambda>r. dk_user_id r \<noteq> u)) d))))))))) =
   without_rows u d"
  by (cases d) (simp add: without_rows_def)

lemma delete_account_run:
  assumes "as_user u s" "has_user (s_db s) u" "own_positions (s_db s) u"
  shows "delete_account u s =
    (if audited (s_db s) u then (Inl IntegrityError, s\<lparr>s_db := without_rows u (s_db s), s_aborted := True\<rparr>)
     else (Inr (), s\<lparr>s_db := erased u (s_db s)\<rparr>))"
proof -
  let ?d = "s_db s"
  let ?d3 = "t_legs_update (filter (\<lambda>r. l_user_id r \<noteq> u)) (t_events_update (filter (\<lambda>r. e_user_id r \<noteq> u))
    (t_user_data_keys_update (filter (\<lambda>r. dk_user_id r \<noteq> u)) ?d))"
  let ?d4 = "t_positions_update (filter (\<lambda>r. p_user_id r \<noteq> u)) ?d3"
  have pos: "del positions_table (\<lambda>r. p_user_id r = u) (s\<lparr>s_db := ?d3\<rparr>) =
      (Inr (length (filter (\<lambda>r. p_user_id r = u) (t_positions ?d))), s\<lparr>s_db := ?d4\<rparr>)"
    using del_positions [of u "s\<lparr>s_db := ?d3\<rparr>"] assms(1) positions_free [OF assms(3)] by simp
  have usr: "del users_table (\<lambda>r. u_id r = u) (s\<lparr>s_db := without_rows u ?d\<rparr>) =
      (if audited ?d u then (Inl IntegrityError, s\<lparr>s_db := without_rows u ?d, s_aborted := True\<rparr>)
       else (Inr (length (filter (\<lambda>r. u_id r = u) (t_users ?d))), s\<lparr>s_db := erased u ?d\<rparr>))"
    using del_user [of u "s\<lparr>s_db := without_rows u ?d\<rparr>"] assms(1,2)
    by (simp add: without_rows_user erased_def)
  show ?thesis
    using assms(1)
    by (simp add: delete_account_def op_bind_def del_own_rows del_open_rows pos without_rows_steps usr ret_def)
qed

end
