(* ===== verification/Rls.thy ===== *)
theory Rls
  imports Table_Laws
begin

text \<open>\<open>identity/rls.py\<close>: the boot gate and the context check.\<close>

text \<open>\<open>rolsuper\<close> and \<open>rolbypassrls\<close>: migration 0003 creates the application role with neither.\<close>

definition role_flags :: "role \<Rightarrow> bool \<times> bool" where
  "role_flags r = (case r of App \<Rightarrow> (False, False) | Superuser \<Rightarrow> (True, True))"

definition on_running :: "'a op \<Rightarrow> 'a op" where
  "on_running m = (\<lambda>s. if s_aborted s then (Inl PendingRollback, s) else m s)"

definition assert_connection_cannot_bypass_rls :: "unit op" where
  "assert_connection_cannot_bypass_rls = on_running (op_bind (gets (\<lambda>s. role_flags (s_role s)))
     (\<lambda>(rolsuper, rolbypassrls). if rolsuper \<or> rolbypassrls then raise RuntimeError else ret ()))"

text \<open>The context text: never set is refused by name, and a text that is no identifier is a \<open>ValueError\<close>.\<close>

definition require_rls_context :: "uuid op" where
  "require_rls_context = on_running (op_bind (gets s_user_guc) (\<lambda>setting.
     (case setting of
        None \<Rightarrow> raise RlsContextMissing
      | Some t \<Rightarrow> (case uuid_of_text t of None \<Rightarrow> raise ValueError | Some u \<Rightarrow> ret u))))"

lemma require_rls_context_as: "as_user u s \<Longrightarrow> require_rls_context s = (Inr u, s)"
  by (simp add: require_rls_context_def on_running_def op_run as_user_def)

text \<open>
  What the context check tells apart. It returns the user of the session's context, and then the
  session reads and writes as that user; it names the missing context only when none was ever set;
  once a transaction that set one is over, Postgres leaves the empty text behind, and the check fails
  with a plain \<open>ValueError\<close> instead of the error made for it.
\<close>

theorem require_rls_context_exact:
  "fst (require_rls_context (s\<lparr>s_aborted := False\<rparr>)) =
     (case s_user_guc s of None \<Rightarrow> Inl RlsContextMissing
      | Some t \<Rightarrow> (case uuid_of_text t of None \<Rightarrow> Inl ValueError | Some u \<Rightarrow> Inr u)) \<and>
   fst (require_rls_context (end_tx (s\<lparr>s_user_guc := Some (uuid_str u)\<rparr>))) = Inl ValueError \<and>
   require_rls_context (s\<lparr>s_aborted := False, s_user_guc := Some (uuid_str u)\<rparr>) =
     (Inr u, s\<lparr>s_aborted := False, s_user_guc := Some (uuid_str u)\<rparr>)"
  by (auto simp: require_rls_context_def on_running_def op_run end_tx_def split: option.split)

lemma keeps_rls [keeps_intros]:
  "keeps same_tx assert_connection_cannot_bypass_rls" "keeps same_tx require_rls_context"
  "keeps (confined u) assert_connection_cannot_bypass_rls" "keeps (confined u) require_rls_context"
  by (auto simp: keeps_def assert_connection_cannot_bypass_rls_def require_rls_context_def on_running_def
      op_run same_tx_def confined_def split: option.split prod.split)

end
