(* ===== verification/Routes_Identity.thy ===== *)
theory Routes_Identity
  imports Setup_Tokens Sessions Audited_Read Account Rls
begin

text \<open>
  \<open>api/routes_identity.py\<close>: the account routes. A route runs in the request's one session, which its
  dependencies have used before it, so each definition starts with the dependency the route declares.
  The clock is read where the code reads it: \<open>now\<close> by the authentication, \<open>later\<close> by the handler.
  A body is its fields; the response of \<open>/login\<close> is the cookie it sets.
\<close>

section \<open>The routes\<close>

definition setup_token_ttl :: timedelta where "setup_token_ttl = td_days 7"
definition reset_token_ttl :: timedelta where "reset_token_ttl = td_days 1 div 24"
definition session_cookie_ttl :: timedelta where "session_cookie_ttl = td_days 30"

record position_response =
  pr_position_id :: uuid
  pr_opened_at :: "datetime option"

definition position_response_of :: "position_row \<Rightarrow> position_response" where
  "position_response_of row = \<lparr>pr_position_id = p_id row, pr_opened_at = p_opened_at row\<rparr>"

definition list_positions :: "env \<Rightarrow> string option \<Rightarrow> datetime \<Rightarrow> position_response list op" where
  "list_positions e cookie now =
     op_bind (get_current_user e cookie now) (\<lambda>_.
     op_bind (sel positions_table (\<lambda>_. True)) (\<lambda>rows. ret (map position_response_of rows)))"

definition get_position :: "env \<Rightarrow> string option \<Rightarrow> datetime \<Rightarrow> uuid \<Rightarrow> position_response op" where
  "get_position e cookie now position_id =
     op_bind (get_current_user e cookie now) (\<lambda>_.
     op_bind (sel positions_table (\<lambda>r. p_id r = position_id)) (\<lambda>rows.
     op_bind (one_or_none rows) (\<lambda>row.
     (case row of None \<Rightarrow> raise (HTTPException 404 ''not found'') | Some row \<Rightarrow> ret (position_response_of row)))))"

text \<open>\<open>try: ... except IntegrityError: rollback, raise HTTPException(code)\<close>.\<close>

definition refused_as :: "nat \<Rightarrow> string \<Rightarrow> 'a op \<Rightarrow> 'a op" where
  "refused_as code detail m = op_catch m (\<lambda>x.
     if x = IntegrityError then op_seq rollback (raise (HTTPException code detail)) else raise x)"

definition create_user :: "env \<Rightarrow> string option \<Rightarrow> datetime \<Rightarrow> datetime \<Rightarrow> string \<Rightarrow> (uuid \<times> string) op" where
  "create_user e cookie now later username =
     op_bind (get_current_admin e cookie now) (\<lambda>_.
     op_bind (refused_as 409 ''Conflict'' (op_bind (draw_uuid e) (\<lambda>i.
       op_seq (ins users_table \<lparr>u_id = i, u_username = username, u_password_hash = None, u_is_admin = False\<rparr>)
       (ret i)))) (\<lambda>user_id.
     op_bind (issue_token e user_id Setup setup_token_ttl later) (\<lambda>raw_token.
     op_seq (set_current_user (uuid_str user_id))
     (op_bind require_rls_context (\<lambda>_.
     op_seq (provision_data_key e user_id)
     (op_seq commit (ret (user_id, raw_token))))))))"

definition reset_password :: "env \<Rightarrow> string option \<Rightarrow> datetime \<Rightarrow> datetime \<Rightarrow> uuid \<Rightarrow> string op" where
  "reset_password e cookie now later user_id =
     op_bind (get_current_admin e cookie now) (\<lambda>admin.
     op_bind (refused_as 404 ''Not Found'' (open_audited_read e (au_user_id admin) user_id)) (\<lambda>proof'.
     op_bind (get_user_for_management proof') (\<lambda>target.
     (case target of
        None \<Rightarrow> op_seq rollback (raise (HTTPException 404 ''Not Found''))
      | Some target \<Rightarrow>
          op_bind (issue_token e (u_id target) PasswordReset reset_token_ttl later) (\<lambda>raw_token.
          op_seq commit (ret raw_token))))))"

text \<open>\<open>Field(min_length=12)\<close> counts characters, and text is kept in its UTF-8 bytes here.\<close>

definition code_points :: "string \<Rightarrow> nat" where
  "code_points t = length (filter (\<lambda>c. (of_char c :: nat) div 64 \<noteq> 2) t)"

definition setup_account :: "env \<Rightarrow> datetime \<Rightarrow> datetime \<Rightarrow> string \<Rightarrow> string \<Rightarrow> unit op" where
  "setup_account e now later token password =
     (if code_points password < 12 then raise (HTTPException 422 ''Unprocessable Content'')
      else op_bind (consume_token e token Setup now) (\<lambda>first.
       op_bind (case first of Some u \<Rightarrow> ret (Some u) | None \<Rightarrow> consume_token e token PasswordReset later) (\<lambda>user_id.
       (case user_id of
          None \<Rightarrow> raise (HTTPException 400 ''Bad Request'')
        | Some user_id \<Rightarrow>
            op_seq (set_current_user (uuid_str user_id))
            (op_bind require_rls_context (\<lambda>_.
             op_bind (hash_password e password) (\<lambda>password_hash.
             op_bind (upd users_table (\<lambda>r. u_id r = user_id)
               (\<lambda>r. r\<lparr>u_password_hash := Some password_hash\<rparr>)) (\<lambda>rowcount.
             if rowcount \<noteq> 1 then raise RuntimeError else commit))))))))"

text \<open>Both failing branches without a stored hash verify against the throwaway hash of the import.\<close>

definition reject_login :: "env \<Rightarrow> string \<Rightarrow> string \<Rightarrow> 'a op" where
  "reject_login e dummy_hash password =
     op_bind (ret (verify_password e dummy_hash password))
       (\<lambda>_. raise (HTTPException 401 ''invalid credentials''))"

definition login :: "env \<Rightarrow> string \<Rightarrow> datetime \<Rightarrow> string \<Rightarrow> string \<Rightarrow> string op" where
  "login e dummy_hash now username password =
     op_bind (login_lookup username) (\<lambda>rows.
     op_bind (one_or_none rows) (\<lambda>row.
     (case row of
        None \<Rightarrow> reject_login e dummy_hash password
      | Some (user_id, None) \<Rightarrow> reject_login e dummy_hash password
      | Some (user_id, Some stored_hash) \<Rightarrow>
          if \<not> verify_password e stored_hash password
          then raise (HTTPException 401 ''invalid credentials'')
          else op_seq (set_current_user (uuid_str user_id))
            (op_seq (if needs_rehash e stored_hash
               then op_bind (hash_password e password) (\<lambda>password_hash.
                    op_bind (upd users_table (\<lambda>r. u_id r = user_id)
                      (\<lambda>r. r\<lparr>u_password_hash := Some password_hash\<rparr>)) (\<lambda>rowcount.
                    if rowcount \<noteq> 1 then raise RuntimeError else ret ()))
               else ret ())
            (op_bind (generate_token e) (\<lambda>raw_token.
             op_bind (draw_uuid e) (\<lambda>i.
             op_seq (ins sessions_table \<lparr>ss_id = i, ss_token_hash = hash_token e raw_token,
               ss_user_id = user_id, ss_expires_at = now + session_cookie_ttl\<rparr>)
             (op_seq commit (ret raw_token)))))))))"

definition logout :: "env \<Rightarrow> string option \<Rightarrow> datetime \<Rightarrow> unit op" where
  "logout e cookie now =
     op_bind (get_current_user e cookie now) (\<lambda>_.
     (case cookie of
        None \<Rightarrow> raise (HTTPException 401 ''not authenticated'')
      | Some token \<Rightarrow>
          op_bind (del sessions_table (\<lambda>r. ss_token_hash r = hash_token e token)) (\<lambda>_. commit)))"

record me_response =
  me_user_id :: uuid
  me_username :: string
  me_is_admin :: bool

definition me :: "env \<Rightarrow> string option \<Rightarrow> datetime \<Rightarrow> me_response op" where
  "me e cookie now =
     op_bind (get_current_user e cookie now) (\<lambda>user.
     op_bind (sel users_table (\<lambda>r. u_id r = au_user_id user)) (\<lambda>rows.
     op_bind (one rows) (\<lambda>row.
     ret \<lparr>me_user_id = u_id row, me_username = u_username row, me_is_admin = u_is_admin row\<rparr>)))"

definition delete_me :: "env \<Rightarrow> string option \<Rightarrow> datetime \<Rightarrow> unit op" where
  "delete_me e cookie now =
     op_bind (get_current_user e cookie now) (\<lambda>user.
     op_seq (delete_account (au_user_id user)) commit)"

end
