(* ===== verification/Connections.thy ===== *)
theory Connections
  imports Vendor_Protocol Batch_Store
begin

text \<open>
  \<open>vendor/connections.py\<close>: a user's one broker connection. \<open>upsert_connection\<close> encrypts and writes it,
  \<open>read_connection\<close> decrypts it under the key of its own version, \<open>derive_connection_health\<close> is the pure
  expiry rule, and \<open>schwab_client_for_user\<close> opens a vendor client under the user's advisory lock and
  persists a token the vendor rotated meanwhile.
\<close>

record connection_record =
  cr_user_id :: uuid
  cr_account_hash :: string
  cr_token :: json
  cr_token_created_at :: datetime
  cr_last_synced_at :: "datetime option"
  cr_reauth_notified_at :: "datetime option"
  cr_key_version :: int


section \<open>Health\<close>

datatype connection_health = Healthy | ExpiringSoon | Expired

definition connection_health_value :: "connection_health \<Rightarrow> string" where
  "connection_health_value h = (case h of
     Healthy \<Rightarrow> ''healthy'' | ExpiringSoon \<Rightarrow> ''expiring_soon'' | Expired \<Rightarrow> ''expired'')"

definition refresh_token_lifetime :: timedelta where
  "refresh_token_lifetime = td_days 7"

definition expiring_soon_threshold :: timedelta where
  "expiring_soon_threshold = td_hours 12"

definition derive_connection_health :: "datetime \<Rightarrow> datetime \<Rightarrow> connection_health \<times> datetime" where
  "derive_connection_health token_created_at now =
     (let expires_at = token_created_at + refresh_token_lifetime;
          remaining = expires_at - now
      in if remaining \<le> 0 then (Expired, expires_at)
         else if remaining \<le> expiring_soon_threshold then (ExpiringSoon, expires_at)
         else (Healthy, expires_at))"

text \<open>The states in the order a token passes through them.\<close>

definition health_rank :: "connection_health \<Rightarrow> nat" where
  "health_rank h = (case h of Healthy \<Rightarrow> 0 | ExpiringSoon \<Rightarrow> 1 | Expired \<Rightarrow> 2)"

instantiation connection_health :: linorder
begin

definition less_eq_connection_health :: "connection_health \<Rightarrow> connection_health \<Rightarrow> bool" where
  "less_eq_connection_health g h \<longleftrightarrow> health_rank g \<le> health_rank h"

definition less_connection_health :: "connection_health \<Rightarrow> connection_health \<Rightarrow> bool" where
  "less_connection_health g h \<longleftrightarrow> health_rank g < health_rank h"

instance
  by intro_classes
    (auto simp: less_eq_connection_health_def less_connection_health_def health_rank_def
      split: connection_health.splits)

end

text \<open>
  C40: The health of a connection is a clock that only moves forward. Seven days after the token's
  creation and later it is expired, in the twelve hours before that it is expiring soon, and earlier it
  is healthy; the expiry reported is always creation plus seven days; and for the same token, a later
  look never reports a better health.
\<close>

theorem derive_connection_health_exact:
  "derive_connection_health t now =
     (if t + td_days 7 \<le> now then Expired else if t + td_days 7 - td_hours 12 \<le> now then ExpiringSoon
      else Healthy, t + td_days 7) \<and>
   fst (derive_connection_health t (min now later)) \<le> fst (derive_connection_health t now)"
  by (auto simp: derive_connection_health_def Let_def refresh_token_lifetime_def
      expiring_soon_threshold_def less_eq_connection_health_def health_rank_def td_days_def td_hours_def)


section \<open>Writing and reading a connection\<close>

definition connection_associated_data :: "string \<Rightarrow> uuid \<Rightarrow> bytes" where
  "connection_associated_data column user_id = join '':'' [''schwab_connections'', column, uuid_str user_id]"

definition connection_current_dek :: "env \<Rightarrow> uuid \<Rightarrow> (bytes \<times> int) op" where
  "connection_current_dek e user_id =
     op_bind (sel user_data_keys_table (\<lambda>r. dk_user_id r = user_id)) (\<lambda>rows.
     op_bind (one (latest_version rows)) (\<lambda>row.
     op_bind (unwrap_dek e (dk_wrapped_dek row) (dk_wrap_nonce row) (master_key_bytes e)) (\<lambda>dek.
     ret (dek, dk_key_version row))))"

lemma connection_current_dek_eq: "connection_current_dek = current_dek"
  by (simp add: fun_eq_iff connection_current_dek_def current_dek_def)

definition connection_values :: "env \<Rightarrow> bytes \<Rightarrow> int \<Rightarrow> uuid \<Rightarrow> exchanged_token \<Rightarrow> string \<Rightarrow> connection_row op" where
  "connection_values e dek key_version user_id exchanged_token account_hash =
     op_bind (encrypt_field e (json_dumps (et_token exchanged_token)) dek
       (connection_associated_data ''token_ciphertext'' user_id)) (\<lambda>(token_ciphertext, token_nonce).
     op_bind (encrypt_field e account_hash dek
       (connection_associated_data ''account_hash_ciphertext'' user_id))
       (\<lambda>(account_hash_ciphertext, account_hash_nonce).
     ret \<lparr>c_user_id = user_id, c_account_hash_ciphertext = account_hash_ciphertext,
       c_account_hash_nonce = account_hash_nonce, c_token_ciphertext = token_ciphertext,
       c_token_nonce = token_nonce, c_key_version = key_version,
       c_token_created_at = et_created_at exchanged_token,
       c_last_synced_at = None, c_reauth_notified_at = None\<rparr>))"

text \<open>\<open>set_={...}\<close>: the columns taken from the excluded row.\<close>

definition set_excluded :: "connection_row \<Rightarrow> connection_row \<Rightarrow> connection_row" where
  "set_excluded excluded row = row\<lparr>
     c_account_hash_ciphertext := c_account_hash_ciphertext excluded,
     c_account_hash_nonce := c_account_hash_nonce excluded,
     c_token_ciphertext := c_token_ciphertext excluded,
     c_token_nonce := c_token_nonce excluded,
     c_key_version := c_key_version excluded,
     c_token_created_at := c_token_created_at excluded\<rparr>"

definition upsert_connection :: "env \<Rightarrow> uuid \<Rightarrow> exchanged_token \<Rightarrow> string \<Rightarrow> unit op" where
  "upsert_connection e user_id exchanged_token account_hash =
     op_bind (connection_current_dek e user_id) (\<lambda>(dek, key_version).
     op_bind (connection_values e dek key_version user_id exchanged_token account_hash) (\<lambda>row.
     ins_on_conflict_do_update schwab_connections_table row (set_excluded row)))"

definition read_connection :: "env \<Rightarrow> uuid \<Rightarrow> connection_record option op" where
  "read_connection e user_id =
     op_bind (sel schwab_connections_table (\<lambda>r. c_user_id r = user_id)) (\<lambda>rows.
     op_bind (one_or_none rows) (\<lambda>found.
     (case found of None \<Rightarrow> ret None
      | Some row \<Rightarrow>
         op_bind (dek_for_version e ConnectionDataKeyMissing user_id (c_key_version row)) (\<lambda>dek.
         op_bind (decrypt_field e (c_account_hash_ciphertext row) (c_account_hash_nonce row) dek
           (connection_associated_data ''account_hash_ciphertext'' user_id)) (\<lambda>account_hash.
         op_bind (decrypt_field e (c_token_ciphertext row) (c_token_nonce row) dek
           (connection_associated_data ''token_ciphertext'' user_id)) (\<lambda>raw.
         (case validate_json e raw of None \<Rightarrow> raise ValidationError
          | Some token \<Rightarrow> ret (Some \<lparr>cr_user_id = user_id, cr_account_hash = account_hash,
              cr_token = token, cr_token_created_at = c_token_created_at row,
              cr_last_synced_at = c_last_synced_at row,
              cr_reauth_notified_at = c_reauth_notified_at row,
              cr_key_version = c_key_version row\<rparr>))))))))"


section \<open>The vendor client of one user\<close>

definition wrapped_json :: "connection_record \<Rightarrow> json" where
  "wrapped_json connection = JObj [(''creation_timestamp'', JInt (int_timestamp (cr_token_created_at connection))),
     (''token'', cr_token connection)]"

text \<open>After the body: a token the vendor wrote is encrypted under the current key and stored.\<close>

definition persist_token :: "env \<Rightarrow> uuid \<Rightarrow> token_holder \<Rightarrow> unit op" where
  "persist_token e user_id holder =
     (if th_wrote holder
      then (case wrapped_token_of e (th_token holder) of
              None \<Rightarrow> raise ValidationError
            | Some wrapped \<Rightarrow>
                op_bind (connection_current_dek e user_id) (\<lambda>(dek, key_version).
                op_bind (encrypt_field e (json_dumps (wt_token wrapped)) dek
                  (connection_associated_data ''token_ciphertext'' user_id)) (\<lambda>(token_ciphertext, token_nonce).
                op_bind (upd schwab_connections_table (\<lambda>r. c_user_id r = user_id)
                  (\<lambda>r. r\<lparr>c_token_ciphertext := token_ciphertext, c_token_nonce := token_nonce,
                         c_key_version := key_version\<rparr>)) (\<lambda>_. ret ()))))
      else ret ())"

text \<open>The context manager: \<open>body\<close> takes the holder and leaves it as the vendor calls left it.\<close>

definition schwab_client_for_user ::
    "env \<Rightarrow> schwab_auth \<Rightarrow> uuid \<Rightarrow> (token_holder \<Rightarrow> ('a \<times> token_holder) op) \<Rightarrow> 'a op" where
  "schwab_client_for_user e auth user_id body =
     op_seq (advisory_xact_lock (hashtext e (uuid_str user_id)))
     (op_bind (read_connection e user_id) (\<lambda>connection.
     (case connection of None \<Rightarrow> raise ConnectionNotFound
      | Some connection \<Rightarrow>
          let (built, holder) = build_client auth (holder_init (wrapped_json connection))
          in op_bind (op_from built) (\<lambda>_.
             op_bind (body holder) (\<lambda>(x, holder').
             op_seq (persist_token e user_id holder') (ret x))))))"

end
