(* ===== verification/Schwab_Extract.thy ===== *)
theory Schwab_Extract
  imports Settings Connections Fills
begin

text \<open>
  The pure half of \<open>ingest/schwab_sync.py\<close>: the typed vendor boundary, \<open>_direction\<close>, \<open>extract_fills\<close>
  and \<open>sync_windows\<close>. No session and no clock.
\<close>

section \<open>The vendor's elements\<close>

record instrument =
  in_symbol :: "string option"
  in_asset_type :: "string option"

record transfer_item =
  ti_instrument :: "instrument option"
  ti_amount :: "pydec option"
  ti_price :: "pydec option"
  ti_cost :: "pydec option"
  ti_position_effect :: "string option"

record transaction =
  tx_activity_id :: string
  tx_type :: string
  tx_time :: datetime
  tx_order_id :: "string option"
  tx_transfer_items :: "transfer_item list"

definition instrument_of :: "json \<Rightarrow> instrument option" where
  "instrument_of j = (case j of
     JObj kvs \<Rightarrow>
       (case (optional as_str (field [''symbol''] kvs),
              optional as_str (field [''assetType'', ''asset_type''] kvs)) of
          (Some s, Some a) \<Rightarrow> Some \<lparr>in_symbol = s, in_asset_type = a\<rparr>
        | _ \<Rightarrow> None)
   | _ \<Rightarrow> None)"

definition transfer_item_of :: "env \<Rightarrow> json \<Rightarrow> transfer_item option" where
  "transfer_item_of e j = (case j of
     JObj kvs \<Rightarrow>
       (case (optional instrument_of (field [''instrument''] kvs),
              optional (parse_decimal e) (field [''amount''] kvs),
              optional (parse_decimal e) (field [''price''] kvs),
              optional (parse_decimal e) (field [''cost''] kvs),
              optional as_str (field [''positionEffect'', ''position_effect''] kvs)) of
          (Some i, Some a, Some p, Some c, Some pe) \<Rightarrow>
            Some \<lparr>ti_instrument = i, ti_amount = a, ti_price = p, ti_cost = c, ti_position_effect = pe\<rparr>
        | _ \<Rightarrow> None)
   | _ \<Rightarrow> None)"

text \<open>\<open>int | str\<close>, rendered with \<open>str(...)\<close>.\<close>

definition activity_id_of :: "env \<Rightarrow> json \<Rightarrow> string option" where
  "activity_id_of e j = (case j of
     JInt i \<Rightarrow> Some (show_int i)
   | JStr t \<Rightarrow> Some t
   | _ \<Rightarrow> map_option show_int (parse_int e j))"

definition transaction_of :: "env \<Rightarrow> json \<Rightarrow> transaction option" where
  "transaction_of e j = (case j of
     JObj kvs \<Rightarrow>
       (case (Option.bind (field [''activityId'', ''activity_id''] kvs) (activity_id_of e),
              Option.bind (field [''type''] kvs) as_str,
              Option.bind (field [''time''] kvs) (parse_datetime e),
              optional as_str (field [''orderId'', ''order_id''] kvs),
              (case field [''transferItems'', ''transfer_items''] kvs of None \<Rightarrow> Some []
               | Some v \<Rightarrow> as_list (transfer_item_of e) v)) of
          (Some a, Some ty, Some t, Some oid, Some items) \<Rightarrow>
            Some \<lparr>tx_activity_id = a, tx_type = ty, tx_time = t, tx_order_id = oid,
              tx_transfer_items = items\<rparr>
        | _ \<Rightarrow> None)
   | _ \<Rightarrow> None)"


section \<open>Direction and extraction\<close>

definition direction :: "pydec option \<Rightarrow> pydec option \<Rightarrow> (string \<times> pydec) option" where
  "direction amount cost =
     (case amount of
        Some a \<Rightarrow>
          if \<not> dec_is_zero a then (if dec_pos a then Some (''BUY'', a) else Some (''SELL'', dec_neg a))
          else (case cost of
                  Some c \<Rightarrow> if \<not> dec_is_zero c
                            then (if \<not> dec_pos c then Some (''BUY'', dec_neg c) else Some (''SELL'', c))
                            else None
                | None \<Rightarrow> None)
      | None \<Rightarrow> (case cost of
                  Some c \<Rightarrow> if \<not> dec_is_zero c
                            then (if \<not> dec_pos c then Some (''BUY'', dec_neg c) else Some (''SELL'', c))
                            else None
                | None \<Rightarrow> None))"

text \<open>The messages of \<open>skip_reasons\<close>, one constructor per text, with what the text names.\<close>

datatype skip_reason =
    NotATrade string string
  | MissingOrderId string
  | NoOptionItems string
  | NoInstrumentSymbol string nat
  | NoPositionEffect string nat
  | NoUsableDirection string nat

definition is_option_item :: "transfer_item \<Rightarrow> bool" where
  "is_option_item item = (case ti_instrument item of None \<Rightarrow> False
     | Some i \<Rightarrow> in_asset_type i = Some ''OPTION'')"

text \<open>One option leg: a fill, or why not.\<close>

definition extract_leg ::
    "transaction \<Rightarrow> string \<Rightarrow> nat \<Rightarrow> transfer_item \<Rightarrow> skip_reason + fill_write" where
  "extract_leg t order_id leg_index item =
     (let activity_label = tx_activity_id t
      in case Option.bind (ti_instrument item) in_symbol of
           None \<Rightarrow> Inl (NoInstrumentSymbol activity_label leg_index)
         | Some symbol \<Rightarrow>
             (case ti_position_effect item of
                None \<Rightarrow> Inl (NoPositionEffect activity_label leg_index)
              | Some position_effect \<Rightarrow>
                  (case direction (ti_amount item) (ti_cost item) of
                     None \<Rightarrow> Inl (NoUsableDirection activity_label leg_index)
                   | Some (side, quantity) \<Rightarrow> Inr \<lparr>fw_order_id = order_id,
                       fw_occ_symbol = filter (\<lambda>c. c \<noteq> CHR '' '') symbol,
                       fw_leg_index = int leg_index, fw_execution_time = tx_time t,
                       fw_position_effect = position_effect, fw_side = side,
                       fw_quantity = Some quantity, fw_price_usd = ti_price item\<rparr>)))"

fun extract_legs ::
    "transaction \<Rightarrow> string \<Rightarrow> nat \<Rightarrow> transfer_item list \<Rightarrow> fill_write list \<times> skip_reason list" where
  "extract_legs t order_id leg_index [] = ([], [])"
| "extract_legs t order_id leg_index (item # items) =
     (let (fills, skip_reasons) = extract_legs t order_id (Suc leg_index) items
      in case extract_leg t order_id leg_index item of
           Inl r \<Rightarrow> (fills, r # skip_reasons)
         | Inr f \<Rightarrow> (f # fills, skip_reasons))"

definition extract_fills :: "transaction \<Rightarrow> fill_write list \<times> skip_reason list" where
  "extract_fills t =
     (if tx_type t \<noteq> ''TRADE'' then ([], [NotATrade (tx_activity_id t) (tx_type t)])
      else (case tx_order_id t of
              None \<Rightarrow> ([], [MissingOrderId (tx_activity_id t)])
            | Some order_id \<Rightarrow>
                (let option_items = filter is_option_item (tx_transfer_items t)
                 in if option_items = [] then ([], [NoOptionItems (tx_activity_id t)])
                    else extract_legs t order_id 0 option_items)))"


section \<open>Windows\<close>

text \<open>
  The loop; \<open>None\<close> is a loop that never ends. Instants are unbounded integers: that Python raises an
  \<open>OverflowError\<close> once a bound leaves the years 1 to 9999, for a range of millions of days, is not modelled.
\<close>

partial_function (option) windows_from ::
    "timedelta \<Rightarrow> datetime \<Rightarrow> datetime \<Rightarrow> (datetime \<times> datetime) list \<Rightarrow> (datetime \<times> datetime) list option" where
  "windows_from max_range now cursor windows =
     (if cursor < now
      then windows_from max_range now (min (cursor + max_range) now)
             (windows @ [(cursor, min (cursor + max_range) now)])
      else Some windows)"

definition window_start :: "datetime option \<Rightarrow> datetime \<Rightarrow> settings \<Rightarrow> datetime" where
  "window_start last_synced_at now st = (case last_synced_at of
     Some l \<Rightarrow> l - td_days (schwab_tx_sync_overlap_days st)
   | None \<Rightarrow> now - td_days (schwab_tx_lookback_max_days st))"

definition sync_windows ::
    "datetime option \<Rightarrow> datetime \<Rightarrow> settings \<Rightarrow> (datetime \<times> datetime) list option" where
  "sync_windows last_synced_at now st =
     windows_from (td_days (schwab_tx_max_range_days st)) now (window_start last_synced_at now st) []"


section \<open>What they promise\<close>

definition magnitude_fits :: "pydec option \<Rightarrow> bool" where
  "magnitude_fits d = (case d of None \<Rightarrow> True | Some x \<Rightarrow> dcoeff x < 10 ^ dec_prec)"

definition signal :: "pydec option \<Rightarrow> rat" where
  "signal d = (case d of None \<Rightarrow> 0 | Some x \<Rightarrow> dec_val x)"

text \<open>
  The sign is read before the magnitude is taken. A direction is BUY or SELL with a positive
  quantity; with a usable amount, the quantity signed by the side is that amount; otherwise it is the
  negated cost; and there is none exactly when both signals are absent or zero. (Magnitudes of up to
  28 digits; a longer one is rounded by the decimal context.)
\<close>

theorem direction_signed:
  assumes "magnitude_fits amount" "magnitude_fits cost"
  shows "case direction amount cost of
      None \<Rightarrow> signal amount = 0 \<and> signal cost = 0
    | Some (side, q) \<Rightarrow> side \<in> {''BUY'', ''SELL''} \<and> 0 < dec_val q \<and>
        (if side = ''BUY'' then dec_val q else - dec_val q) =
          (if signal amount \<noteq> 0 then signal amount else - signal cost)"
proof -
  have pos: "dec_pos x \<longleftrightarrow> 0 < dec_val x" for x by (rule dec_pos_val)
  show ?thesis
    using assms
    by (cases amount; cases cost)
      (auto simp: direction_def signal_def magnitude_fits_def pos dec_is_zero_val dec_neg_exact
        split: if_splits)
qed

theorem direction_signed_witness:
  "direction (Some (Dec True 3 0)) None = Some (''SELL'', Dec False 3 0) \<and>
   direction (Some (Dec False 0 0)) (Some (Dec True 825 (-2))) = Some (''BUY'', Dec False 825 (-2)) \<and>
   0 < dec_val (Dec False 825 (-2))"
proof -
  have f: "magnitude_fits (Some (Dec False 0 0))" "magnitude_fits (Some (Dec True 825 (-2)))"
    by (simp_all add: magnitude_fits_def dec_prec_def)
  have d: "direction (Some (Dec False 0 0)) (Some (Dec True 825 (-2))) = Some (''BUY'', Dec False 825 (-2))"
    by (simp add: direction_def dec_is_zero_def dec_pos_def dec_neg_def dec_fix_id dec_prec_def)
  have "direction (Some (Dec True 3 0)) None = Some (''SELL'', Dec False 3 0)"
    by (simp add: direction_def dec_is_zero_def dec_pos_def dec_neg_def dec_fix_id dec_prec_def)
  with direction_signed [OF f] d show ?thesis by simp
qed

lemma extract_legs_results:
  "extract_legs t order_id k items =
     (let rs = map2 (extract_leg t order_id) [k..<k + length items] items
      in (map projr (filter (\<lambda>r. \<not> isl r) rs), map projl (filter isl rs)))"
proof (induction items arbitrary: k)
  case (Cons item items)
  have "[k..<k + length (item # items)] = k # [Suc k..<Suc k + length items]"
    by (simp add: upt_rec)
  then show ?case
    using Cons [of "Suc k"] by (simp add: Let_def split: sum.split)
qed simp

lemma extract_legs_length:
  "length (fst (extract_legs t order_id k items)) + length (snd (extract_legs t order_id k items)) =
    length items"
proof (induction items arbitrary: k)
  case (Cons item items)
  obtain fs rs where l: "extract_legs t order_id (Suc k) items = (fs, rs)" by fastforce
  with Cons [of "Suc k"] have "length fs + length rs = length items" by simp
  with l show ?case by (simp add: Let_def split: sum.split)
qed simp

lemma extract_leg_index: "extract_leg t order_id k item = Inr f \<Longrightarrow>
    fw_leg_index f = int k \<and> fw_order_id f = order_id"
  by (auto simp: extract_leg_def Let_def split: option.splits)

lemma extract_legs_mem:
  assumes "f \<in> set (fst (extract_legs t order_id k items))"
  shows "\<exists>i < length items. extract_leg t order_id (k + i) (items ! i) = Inr f"
proof -
  from assms obtain r where r: "r \<in> set (map2 (extract_leg t order_id) [k..<k + length items] items)"
    "\<not> isl r" "f = projr r"
    by (auto simp: extract_legs_results Let_def)
  then obtain i where "i < length items" "r = extract_leg t order_id (k + i) (items ! i)"
    by (auto simp: set_zip)
  with r show ?thesis by (cases r) auto
qed

lemma extract_legs_sorted:
  "sorted_wrt (<) (map fw_leg_index (fst (extract_legs t order_id k items)))"
proof (induction items arbitrary: k)
  case (Cons item items)
  have "int k < fw_leg_index g" if "g \<in> set (fst (extract_legs t order_id (Suc k) items))" for g
    using extract_legs_mem [OF that] extract_leg_index by fastforce
  moreover obtain fs rs where l: "extract_legs t order_id (Suc k) items = (fs, rs)" by fastforce
  ultimately have above: "\<forall>g \<in> set fs. int k < fw_leg_index g" by simp
  from l Cons [of "Suc k"] have "sorted_wrt (<) (map fw_leg_index fs)" by simp
  with l above show ?case
    by (auto simp: Let_def split: sum.split dest: extract_leg_index)
qed simp

text \<open>The leg a reason speaks of, and the one reason of an element none of whose legs is looked at.\<close>

definition reason_leg :: "skip_reason \<Rightarrow> nat option" where
  "reason_leg r = (case r of NoInstrumentSymbol _ i \<Rightarrow> Some i | NoPositionEffect _ i \<Rightarrow> Some i
     | NoUsableDirection _ i \<Rightarrow> Some i | _ \<Rightarrow> None)"

definition element_reason :: "transaction \<Rightarrow> skip_reason" where
  "element_reason t = (if tx_type t \<noteq> ''TRADE'' then NotATrade (tx_activity_id t) (tx_type t)
     else if tx_order_id t = None then MissingOrderId (tx_activity_id t) else NoOptionItems (tx_activity_id t))"

lemma extract_leg_reason: "extract_leg t order_id k item = Inl r \<Longrightarrow> reason_leg r = Some k"
  by (auto simp: extract_leg_def reason_leg_def Let_def split: option.splits)

lemma extract_legs_partition:
  "mset (map (nat \<circ> fw_leg_index) (fst (extract_legs t order_id k items))) +
     mset (map (the \<circ> reason_leg) (snd (extract_legs t order_id k items))) = mset [k..<k + length items]"
proof (induction items arbitrary: k)
  case (Cons item items)
  have "[k..<k + length (item # items)] = k # [Suc k..<Suc k + length items]" by (simp add: upt_rec)
  then show ?case
    using Cons [of "Suc k"]
    by (auto simp: Let_def split_beta split: sum.split dest: extract_leg_index extract_leg_reason)
qed simp

lemma extract_legs_reason:
  assumes "r \<in> set (snd (extract_legs t order_id k items))"
  shows "\<exists>i < length items. extract_leg t order_id (k + i) (items ! i) = Inl r"
proof -
  from assms obtain x where x: "x \<in> set (map2 (extract_leg t order_id) [k..<k + length items] items)"
    "isl x" "r = projl x"
    by (auto simp: extract_legs_results Let_def)
  then obtain i where "i < length items" "x = extract_leg t order_id (k + i) (items ! i)"
    by (auto simp: set_zip)
  with x show ?thesis by (cases x) auto
qed

text \<open>
  C38: Every element and every option leg is accounted for. An element that is no trade, has no order or
  no option leg gives no fill and exactly one reason, the one that names the first of these three. From any
  other, each option leg gives exactly one fill or exactly one reason: the indices of the fills and those named
  by the reasons are together the indices of the option legs, each once. The fills come in payload order with
  strictly increasing leg indices (so no two of them share a key), and each fill and each reason is what its own
  leg, at that index and under the element's order, extracts to.
\<close>

theorem extract_fills_accounts:
  "let options = filter is_option_item (tx_transfer_items t); (fills, skip_reasons) = extract_fills t
   in (if tx_type t = ''TRADE'' \<and> tx_order_id t \<noteq> None \<and> options \<noteq> []
       then mset (map (nat \<circ> fw_leg_index) fills) + mset (map (the \<circ> reason_leg) skip_reasons) = mset [0..<length options] \<and>
         list_all (\<lambda>r. reason_leg r \<noteq> None \<and> extract_leg t (the (tx_order_id t)) (the (reason_leg r))
           (options ! the (reason_leg r)) = Inl r) skip_reasons
       else fills = [] \<and> skip_reasons = [element_reason t]) \<and>
      length fills + length skip_reasons =
        (if tx_type t = ''TRADE'' \<and> tx_order_id t \<noteq> None \<and> options \<noteq> [] then length options else 1) \<and>
      sorted_wrt (<) (map fw_leg_index fills) \<and>
      list_all (\<lambda>f. tx_order_id t = Some (fw_order_id f) \<and> nat (fw_leg_index f) < length options \<and>
        extract_leg t (fw_order_id f) (nat (fw_leg_index f)) (options ! nat (fw_leg_index f)) = Inr f) fills"
proof (cases "tx_type t = ''TRADE'' \<and> tx_order_id t \<noteq> None \<and> filter is_option_item (tx_transfer_items t) \<noteq> []")
  case False
  then have "extract_fills t = ([], [element_reason t])"
    by (auto simp: extract_fills_def element_reason_def Let_def split: option.splits)
  with False show ?thesis by (simp only: Let_def prod.case if_False) simp
next
  case True
  then obtain order_id where o: "tx_order_id t = Some order_id" by auto
  let ?items = "filter is_option_item (tx_transfer_items t)"
  have x: "extract_fills t = extract_legs t order_id 0 ?items"
    using True o by (simp add: extract_fills_def)
  obtain fs rs where l: "extract_legs t order_id 0 ?items = (fs, rs)" by fastforce
  have "tx_order_id t = Some (fw_order_id f) \<and> nat (fw_leg_index f) < length ?items \<and>
      extract_leg t (fw_order_id f) (nat (fw_leg_index f)) (?items ! nat (fw_leg_index f)) = Inr f" if f: "f \<in> set fs" for f
  proof -
    obtain i where "i < length ?items" "extract_leg t order_id i (?items ! i) = Inr f"
      using extract_legs_mem [of f t order_id 0 ?items] f l by auto
    with o extract_leg_index [of t order_id i] show ?thesis by fastforce
  qed
  moreover have "reason_leg r \<noteq> None \<and>
      extract_leg t order_id (the (reason_leg r)) (?items ! the (reason_leg r)) = Inl r" if r: "r \<in> set rs" for r
  proof -
    obtain i where "extract_leg t order_id i (?items ! i) = Inl r"
      using extract_legs_reason [of r t order_id 0 ?items] r l by auto
    with extract_leg_reason [OF this] show ?thesis by simp
  qed
  moreover note extract_legs_length [of t order_id 0 ?items] extract_legs_sorted [of t order_id 0 ?items]
    extract_legs_partition [of t order_id 0 ?items]
  ultimately show ?thesis
    using True by (simp add: x l o Let_def list_all_iff)
qed


section \<open>The windows\<close>

text \<open>Consecutive windows from \<open>a\<close> up to \<open>b\<close>.\<close>

fun tiles :: "datetime \<Rightarrow> datetime \<Rightarrow> (datetime \<times> datetime) list \<Rightarrow> bool" where
  "tiles a b [] \<longleftrightarrow> b \<le> a"
| "tiles a b ((c, d) # ws) \<longleftrightarrow> c = a \<and> a < d \<and> d \<le> b \<and> tiles d b ws"

lemma tiles_ended: "tiles a b ws \<Longrightarrow> b \<le> a \<Longrightarrow> ws = []"
  by (induction a b ws rule: tiles.induct) auto

lemma windows_from_total:
  assumes "0 < r"
  shows "\<exists>ws. windows_from r now cursor acc = Some (acc @ ws) \<and> tiles cursor now ws \<and>
    list_all (\<lambda>(a, b). b - a \<le> r) ws \<and> (int (length ws) - 1) * r < max 1 (now - cursor)"
proof (induction "nat (now - cursor)" arbitrary: cursor acc rule: less_induct)
  case less
  show ?case
  proof (cases "cursor < now")
    case False
    then show ?thesis using assms by (intro exI [of _ "[]"]) (simp add: windows_from.simps)
  next
    case True
    let ?next = "min (cursor + r) now"
    have lt: "nat (now - ?next) < nat (now - cursor)" using True assms by (auto simp: min_def)
    from less [OF lt, of "acc @ [(cursor, ?next)]"] obtain ws where
      ws: "windows_from r now ?next (acc @ [(cursor, ?next)]) = Some (acc @ (cursor, ?next) # ws)"
      "tiles ?next now ws" "list_all (\<lambda>(a, b). b - a \<le> r) ws"
      and len: "(int (length ws) - 1) * r < max 1 (now - ?next)"
      by auto
    have "int (length ws) * r < now - cursor"
    proof (cases "cursor + r < now")
      case True
      with len show ?thesis by (simp add: algebra_simps)
    next
      case False
      with ws(2) \<open>cursor < now\<close> have "ws = []" using tiles_ended by auto
      with \<open>cursor < now\<close> show ?thesis by simp
    qed
    then have "(int (length ((cursor, ?next) # ws)) - 1) * r < max 1 (now - cursor)" by simp
    moreover have "windows_from r now cursor acc = Some (acc @ (cursor, ?next) # ws)"
      using True ws(1) by (subst windows_from.simps) simp
    ultimately show ?thesis
      using True assms ws by (intro exI [of _ "(cursor, ?next) # ws"]) (auto simp: min_def)
  qed
qed

lemma sync_windows_total:
  assumes "0 < schwab_tx_max_range_days st"
  shows "\<exists>ws. sync_windows since now st = Some ws"
  using windows_from_total [of "td_days (schwab_tx_max_range_days st)" now "window_start since now st" "[]"] assms
  by (auto simp: sync_windows_def td_days_def)

text \<open>
  C39: With a positive range the loop ends, and its windows tile the whole stretch from the start to now:
  the first begins at the start, each begins where the one before ended, the last ends now, none is
  empty or wider than the range, and there is never one window more than the range needs. (For ranges of days that stay within the calendar.)
\<close>

theorem sync_windows_tile:
  assumes "0 < schwab_tx_max_range_days st"
  shows "\<exists>ws. sync_windows since now st = Some ws \<and> tiles (window_start since now st) now ws \<and>
    list_all (\<lambda>(a, b). b - a \<le> td_days (schwab_tx_max_range_days st)) ws \<and>
    (int (length ws) - 1) * td_days (schwab_tx_max_range_days st) < max 1 (now - window_start since now st)"
  using windows_from_total [of "td_days (schwab_tx_max_range_days st)" now "window_start since now st" "[]"] assms
  by (simp add: sync_windows_def td_days_def)

theorem sync_windows_tile_witness:
  "\<exists>ws. sync_windows None 0 default_settings = Some ws \<and> tiles (- td_days 365) 0 ws \<and> length ws \<le> 7"
proof -
  have "0 < schwab_tx_max_range_days default_settings" by (simp add: default_settings_def)
  from sync_windows_tile [OF this, of None 0] obtain ws where
    "sync_windows None 0 default_settings = Some ws" "tiles (- td_days 365) 0 ws"
    "(int (length ws) - 1) * td_days 60 < max 1 (td_days 365)"
    by (auto simp: window_start_def default_settings_def)
  then show ?thesis by (auto simp: td_days_def)
qed

lemma windows_from_none:
  assumes "windows_from r now cursor acc = Some ws"
  shows "\<not> (r \<le> 0 \<and> cursor < now)"
proof (rule windows_from.raw_induct [where P = "\<lambda>r now cursor (acc :: (datetime \<times> datetime) list)
    (ws :: (datetime \<times> datetime) list). \<not> (r \<le> 0 \<and> cursor < now)", OF _ assms])
  fix wf :: "timedelta \<Rightarrow> datetime \<Rightarrow> datetime \<Rightarrow> (datetime \<times> datetime) list \<Rightarrow> (datetime \<times> datetime) list option"
    and r now cursor acc y
  assume ih: "\<And>r now cursor acc y. wf r now cursor acc = Some y \<Longrightarrow> \<not> (r \<le> 0 \<and> cursor < now)"
    and eq: "(if cursor < now
      then wf r now (min (cursor + r) now) (acc @ [(cursor, min (cursor + r) now)]) else Some acc) = Some y"
  show "\<not> (r \<le> 0 \<and> cursor < now)"
  proof
    assume "r \<le> 0 \<and> cursor < now"
    with eq have "wf r now (min (cursor + r) now) (acc @ [(cursor, min (cursor + r) now)]) = Some y" by simp
    from ih [OF this] \<open>r \<le> 0 \<and> cursor < now\<close> show False by (auto simp: min_def)
  qed
qed

text \<open>
  The bound is needed and nothing checks it. With a range of zero or fewer days, which the settings
  accept, the loop never ends whenever there is anything to sync.
\<close>

theorem sync_windows_diverges:
  assumes "schwab_tx_max_range_days st \<le> 0" "window_start since now st < now"
  shows "sync_windows since now st = None"
proof (rule ccontr)
  assume "sync_windows since now st \<noteq> None"
  then obtain ws where "windows_from (td_days (schwab_tx_max_range_days st)) now (window_start since now st) [] = Some ws"
    by (auto simp: sync_windows_def)
  from windows_from_none [OF this] assms show False by (simp add: td_days_def)
qed

theorem sync_windows_diverges_witness:
  "sync_windows None 0 (default_settings\<lparr>schwab_tx_max_range_days := 0\<rparr>) = None"
proof -
  let ?st = "default_settings\<lparr>schwab_tx_max_range_days := 0\<rparr>"
  have "schwab_tx_max_range_days ?st \<le> 0" "window_start None 0 ?st < 0"
    by (simp_all add: default_settings_def window_start_def td_days_def)
  then show ?thesis by (rule sync_windows_diverges)
qed

end
