(* ===== verification/Connection_Laws.thy ===== *)
theory Connection_Laws
  imports Connections Demo_World
begin

text \<open>
  What the connection promises: a written connection is read back, and re-connecting keeps the row's
  sync history; a token the vendor rotates replaces the stored one and nothing else; and the one place
  where that breaks, a data key provisioned in between.
\<close>

section \<open>What the operations keep\<close>

lemma connection_owner_simps [simp]:
  "tb_owner schwab_connections_table = c_user_id"
  "tb_rows schwab_connections_table = t_schwab_connections"
  "tb_put schwab_connections_table xs d = t_schwab_connections_update (\<lambda>_. xs) d"
  "tb_check schwab_connections_table r = typed (int2 (c_key_version r))"
  "tb_clash schwab_connections_table q r \<longleftrightarrow> c_user_id q = c_user_id r"
  "tb_grants schwab_connections_table = [SELECT, INSERT, UPDATE, DELETE]"
  "tb_parents schwab_connections_table d r = has_user d (c_user_id r)"
  by (simp_all add: schwab_connections_table_def)

lemma confined_upsert_connection [keeps_intros]:
  "keeps (confined u) (ins_on_conflict_do_update schwab_connections_table row (set_excluded row))"
  by (rule connections_tb.confined_upsert) (simp add: set_excluded_def)

lemma keeps_connection_values [keeps_intros]:
  "keeps same_tx (connection_values e dek kv v et ah)"
  "keeps (confined u) (connection_values e dek kv v et ah)"
  unfolding connection_values_def by (intro keeps_intros)+

lemma keeps_connections [keeps_intros]:
  "keeps same_tx (upsert_connection e v et ah)" "keeps (confined u) (upsert_connection e v et ah)"
  "keeps same_tx (read_connection e v)" "keeps (confined u) (read_connection e v)"
  "keeps same_tx (persist_token e v h)" "keeps (confined u) (persist_token e v h)"
  unfolding upsert_connection_def read_connection_def persist_token_def connection_current_dek_eq
  by (intro keeps_intros)+

lemma keeps_client [keeps_intros]:
  assumes "\<And>h. keeps same_tx (body h)"
  shows "keeps same_tx (schwab_client_for_user e auth v body)"
  unfolding schwab_client_for_user_def Let_def by (intro keeps_intros assms)

lemma keeps_client_confined [keeps_intros]:
  assumes "\<And>h. keeps (confined u) (body h)"
  shows "keeps (confined u) (schwab_client_for_user e auth v body)"
  unfolding schwab_client_for_user_def Let_def by (intro keeps_intros assms)


section \<open>Reading\<close>

definition conn_of :: "db \<Rightarrow> uuid \<Rightarrow> connection_row list" where
  "conn_of d u = filter (\<lambda>r. c_user_id r = u) (t_schwab_connections d)"

text \<open>What a row reads as, under the key of its own version.\<close>

definition open_connection :: "env \<Rightarrow> db \<Rightarrow> connection_row \<Rightarrow> connection_record option" where
  "open_connection e d row =
     (case dek_in e d (c_user_id row) (c_key_version row) of None \<Rightarrow> None
      | Some dek \<Rightarrow>
         (case (aes_dec e dek (c_account_hash_nonce row) (c_account_hash_ciphertext row)
                  (Some (connection_associated_data ''account_hash_ciphertext'' (c_user_id row))),
                aes_dec e dek (c_token_nonce row) (c_token_ciphertext row)
                  (Some (connection_associated_data ''token_ciphertext'' (c_user_id row)))) of
            (Some account_hash, Some raw) \<Rightarrow>
               map_option (\<lambda>token. \<lparr>cr_user_id = c_user_id row, cr_account_hash = account_hash,
                 cr_token = token, cr_token_created_at = c_token_created_at row,
                 cr_last_synced_at = c_last_synced_at row,
                 cr_reauth_notified_at = c_reauth_notified_at row,
                 cr_key_version = c_key_version row\<rparr>) (validate_json e raw)
          | _ \<Rightarrow> None))"

lemma conn_of_user: "conn_of d u = q # qs \<Longrightarrow> c_user_id q = u"
  unfolding conn_of_def by (auto dest: filter_eq_ConsD)

lemma conn_of_map:
  assumes "\<And>q. c_user_id (f q) = c_user_id q"
  shows "conn_of (t_schwab_connections_update (map (\<lambda>r. if c_user_id r = u then f r else r)) d) u =
    map f (conn_of d u)"
proof -
  have "filter (\<lambda>q. c_user_id q = u) (map (\<lambda>q. if c_user_id q = u then f q else q) xs) =
      map f (filter (\<lambda>q. c_user_id q = u) xs)" for xs
    using assms by (induction xs) simp_all
  then show ?thesis by (simp add: conn_of_def)
qed

lemma sel_connection_as:
  assumes "as_user u s"
  shows "sel schwab_connections_table (\<lambda>r. c_user_id r = u) s = (Inr (conn_of (s_db s) u), s)"
  using connections_tb.sel_as [OF assms, of "\<lambda>r. c_user_id r = u"]
  by (simp add: conn_of_def cong: filter_cong)

lemma read_connection_as:
  assumes "as_user u s" "conn_of (s_db s) u = [row]" "open_connection e (s_db s) row = Some c"
  shows "read_connection e u s = (Inr (Some c), s)"
proof -
  have u: "c_user_id row = u" using assms(2) by (rule conn_of_user)
  obtain dek where "dek_in e (s_db s) u (c_key_version row) = Some dek"
    using assms(3) u by (auto simp: open_connection_def split: option.splits)
  then show ?thesis
    using assms(2,3) u
    by (auto simp: read_connection_def op_run sel_connection_as [OF assms(1)] one_or_none_def
        dek_for_version_as [OF assms(1)] open_connection_def decrypt_field_def
        split: option.splits)
qed

lemma read_connection_none:
  assumes "as_user u s" "conn_of (s_db s) u = []"
  shows "read_connection e u s = (Inr None, s)"
  using assms(2) by (simp add: read_connection_def op_run sel_connection_as [OF assms(1)] one_or_none_def)


section \<open>Writing\<close>

definition sealed_connection ::
    "env \<Rightarrow> bytes \<Rightarrow> int \<Rightarrow> uuid \<Rightarrow> nat \<Rightarrow> exchanged_token \<Rightarrow> string \<Rightarrow> connection_row" where
  "sealed_connection e dek kv u n et ah = \<lparr>c_user_id = u,
     c_account_hash_ciphertext = aes_enc e dek (urandom e (Suc n) 12) ah
       (Some (connection_associated_data ''account_hash_ciphertext'' u)),
     c_account_hash_nonce = urandom e (Suc n) 12,
     c_token_ciphertext = aes_enc e dek (urandom e n 12) (json_dumps (et_token et))
       (Some (connection_associated_data ''token_ciphertext'' u)),
     c_token_nonce = urandom e n 12, c_key_version = kv, c_token_created_at = et_created_at et,
     c_last_synced_at = None, c_reauth_notified_at = None\<rparr>"

lemma sealed_connection_user [simp]:
  "c_user_id (sealed_connection e dek kv u n et ah) = u"
  "c_key_version (sealed_connection e dek kv u n et ah) = kv"
  by (simp_all add: sealed_connection_def)

lemma connection_values_run:
  "connection_values e dek kv u et ah s =
    (Inr (sealed_connection e dek kv u (s_draws s) et ah), s\<lparr>s_draws := s_draws s + 2\<rparr>)"
  by (simp add: connection_values_def op_run encrypt_field_def draw_def sealed_connection_def)

definition upserted :: "connection_row \<Rightarrow> connection_row list \<Rightarrow> connection_row list" where
  "upserted row rows =
     (if list_ex (\<lambda>q. c_user_id q = c_user_id row) rows
      then map (\<lambda>q. if c_user_id q = c_user_id row then set_excluded row q else q) rows
      else rows @ [row])"

lemma upsert_row_result:
  assumes "as_user u s" "c_user_id row = u"
    "ins_on_conflict_do_update schwab_connections_table row (set_excluded row) s = (Inr x, s')"
  shows "s' = s\<lparr>s_db := t_schwab_connections_update (upserted row) (s_db s)\<rparr>"
proof -
  note up = connections_tb.upsert_as [OF assms(1), of row "set_excluded row"]
  show ?thesis
    using up assms(2,3)
    by (cases "int2 (c_key_version row)") (auto simp: typed_def upserted_def split: if_splits)
qed

lemma upsert_connection_result:
  assumes "as_user u s" "keys_distinct (s_db s)" "upsert_connection e u et ah s = (Inr x, s')"
  shows "\<exists>dek kv. dek_in e (s_db s) u kv = Some dek \<and>
    s' = s\<lparr>s_draws := s_draws s + 2,
           s_db := t_schwab_connections_update
             (upserted (sealed_connection e dek kv u (s_draws s) et ah)) (s_db s)\<rparr>"
proof -
  obtain dek kv t where c: "current_dek e u s = (Inr (dek, kv), t)"
    and r: "ins_on_conflict_do_update schwab_connections_table
        (sealed_connection e dek kv u (s_draws t) et ah)
        (set_excluded (sealed_connection e dek kv u (s_draws t) et ah))
        (t\<lparr>s_draws := s_draws t + 2\<rparr>) = (Inr x, s')"
    using assms(3)
    by (auto simp: upsert_connection_def connection_current_dek_eq op_run connection_values_run
        split: prod.splits sum.splits)
  from current_dek_as [OF assms(1,2) c] have t: "t = s" and d: "dek_in e (s_db s) u kv = Some dek"
    by simp_all
  have "as_user u (s\<lparr>s_draws := s_draws s + 2\<rparr>)" using assms(1) by simp
  from upsert_row_result [OF this sealed_connection_user(1) r [unfolded t]]
  have "s' = s\<lparr>s_draws := s_draws s + 2, s_db := t_schwab_connections_update
      (upserted (sealed_connection e dek kv u (s_draws s) et ah)) (s_db s)\<rparr>"
    by simp
  with d show ?thesis by blast
qed

text \<open>The user's rows after an upsert.\<close>

lemma conn_of_upserted:
  assumes "length (conn_of d u) \<le> 1" "c_user_id row = u"
  shows "conn_of (t_schwab_connections_update (upserted row) d) u =
    [case conn_of d u of [] \<Rightarrow> row | q # _ \<Rightarrow> set_excluded row q]"
proof (cases "list_ex (\<lambda>q. c_user_id q = u) (t_schwab_connections d)")
  case False
  then have "conn_of d u = []" by (simp add: conn_of_def list_ex_iff filter_empty_conv)
  with False assms(2) show ?thesis by (simp add: conn_of_def upserted_def)
next
  case True
  have m: "filter (\<lambda>q. c_user_id q = u) (map (\<lambda>q. if c_user_id q = u then set_excluded row q else q) xs) =
      map (set_excluded row) (filter (\<lambda>q. c_user_id q = u) xs)" for xs
    by (induction xs) (simp_all add: set_excluded_def)
  from True have "conn_of d u \<noteq> []" by (auto simp: conn_of_def list_ex_iff filter_empty_conv)
  then obtain q where "conn_of d u = [q]"
    using assms(1) by (cases "conn_of d u") auto
  with True assms(2) m show ?thesis by (simp add: conn_of_def upserted_def)
qed

lemma dek_in_connections [simp]:
  "dek_in e (t_schwab_connections_update f d) u kv = dek_in e d u kv"
  "key_rows (t_schwab_connections_update f d) u = key_rows d u"
  by (simp_all add: dek_in_def key_rows_def)

lemma upsert_opens:
  assumes "aead_correct e" "as_user u s" "keys_distinct (s_db s)" "length (conn_of (s_db s) u) \<le> 1"
    "validate_json e (json_dumps (et_token et)) = Some (et_token et)"
    "upsert_connection e u et ah s = (Inr x, s')"
  shows "as_user u s'" "\<exists>row kv. conn_of (s_db s') u = [row] \<and> open_connection e (s_db s') row =
    Some \<lparr>cr_user_id = u, cr_account_hash = ah, cr_token = et_token et, cr_token_created_at = et_created_at et,
      cr_last_synced_at = (case conn_of (s_db s) u of [] \<Rightarrow> None | q # _ \<Rightarrow> c_last_synced_at q),
      cr_reauth_notified_at = (case conn_of (s_db s) u of [] \<Rightarrow> None | q # _ \<Rightarrow> c_reauth_notified_at q),
      cr_key_version = kv\<rparr>"
proof -
  obtain dek kv where d: "dek_in e (s_db s) u kv = Some dek"
    and s': "s' = s\<lparr>s_draws := s_draws s + 2, s_db := t_schwab_connections_update
      (upserted (sealed_connection e dek kv u (s_draws s) et ah)) (s_db s)\<rparr>"
    using upsert_connection_result [OF assms(2,3,6)] by blast
  let ?row = "sealed_connection e dek kv u (s_draws s) et ah"
  let ?new = "case conn_of (s_db s) u of [] \<Rightarrow> ?row | q # _ \<Rightarrow> set_excluded ?row q"
  have one: "conn_of (s_db s') u = [?new]"
    using conn_of_upserted [OF assms(4)] by (simp add: s')
  note q = conn_of_user [of "s_db s" u]
  show "as_user u s'" using assms(2) by (simp add: s')
  from one d assms(1,5) q show "\<exists>row kv. conn_of (s_db s') u = [row] \<and> open_connection e (s_db s') row =
    Some \<lparr>cr_user_id = u, cr_account_hash = ah, cr_token = et_token et, cr_token_created_at = et_created_at et,
      cr_last_synced_at = (case conn_of (s_db s) u of [] \<Rightarrow> None | q # _ \<Rightarrow> c_last_synced_at q),
      cr_reauth_notified_at = (case conn_of (s_db s) u of [] \<Rightarrow> None | q # _ \<Rightarrow> c_reauth_notified_at q),
      cr_key_version = kv\<rparr>"
    by (auto simp: s' open_connection_def sealed_connection_def set_excluded_def aead_correctD
        split: list.splits)
qed

lemma upsert_read_law:
  assumes "aead_correct e" "as_user u s" "keys_distinct (s_db s)" "length (conn_of (s_db s) u) \<le> 1"
    "validate_json e (json_dumps (et_token et)) = Some (et_token et)"
    "upsert_connection e u et ah s = (Inr x, s')"
  shows "\<exists>kv. read_connection e u s' = (Inr (Some \<lparr>cr_user_id = u, cr_account_hash = ah,
      cr_token = et_token et, cr_token_created_at = et_created_at et,
      cr_last_synced_at = (case conn_of (s_db s) u of [] \<Rightarrow> None | q # _ \<Rightarrow> c_last_synced_at q),
      cr_reauth_notified_at = (case conn_of (s_db s) u of [] \<Rightarrow> None | q # _ \<Rightarrow> c_reauth_notified_at q),
      cr_key_version = kv\<rparr>), s') \<and> length (conn_of (s_db s') u) = 1"
  using upsert_opens [OF assms] read_connection_as by fastforce


text \<open>
  Connecting and connecting again. Once \<open>upsert_connection\<close> has returned, reading the connection
  gives back the account hash, the token and its creation time just written; the user has exactly one
  row; and when a row was there before, its last sync and its notification time are kept.
\<close>

theorem upsert_then_read_connection:
  assumes "aead_correct e" "as_user u s" "keys_distinct (s_db s)" "length (conn_of (s_db s) u) \<le> 1"
    "validate_json e (json_dumps (et_token et)) = Some (et_token et)"
    "upsert_connection e u et ah s = (Inr x, s')"
  shows "\<exists>kv. read_connection e u s' = (Inr (Some \<lparr>cr_user_id = u, cr_account_hash = ah,
      cr_token = et_token et, cr_token_created_at = et_created_at et,
      cr_last_synced_at = (case conn_of (s_db s) u of [] \<Rightarrow> None | q # _ \<Rightarrow> c_last_synced_at q),
      cr_reauth_notified_at = (case conn_of (s_db s) u of [] \<Rightarrow> None | q # _ \<Rightarrow> c_reauth_notified_at q),
      cr_key_version = kv\<rparr>), s') \<and> length (conn_of (s_db s') u) = 1"
  using assms by (rule upsert_read_law)

section \<open>A rotated token\<close>

lemma persist_token_result:
  assumes "as_user u s" "keys_distinct (s_db s)" "th_wrote h" "wrapped_token_of e (th_token h) = Some w"
    "current_dek e u s = (Inr (dek, kv), s)"
  shows "persist_token e u h s = (Inr (), s\<lparr>s_draws := Suc (s_draws s),
    s_db := t_schwab_connections_update (map (\<lambda>r. if c_user_id r = u then
      r\<lparr>c_token_ciphertext := aes_enc e dek (urandom e (s_draws s) 12) (json_dumps (wt_token w))
          (Some (connection_associated_data ''token_ciphertext'' u)),
        c_token_nonce := urandom e (s_draws s) 12, c_key_version := kv\<rparr> else r)) (s_db s)\<rparr>)"
proof -
  have "as_user u (s\<lparr>s_draws := Suc (s_draws s)\<rparr>)" using assms(1) by simp
  note up = connections_tb.upd_as [OF this, of "\<lambda>r. r\<lparr>c_token_ciphertext := a, c_token_nonce := b,
      c_key_version := k\<rparr>" "\<lambda>r. c_user_id r = u" for a b k]
  show ?thesis
    using assms(3-5)
    by (simp add: persist_token_def connection_current_dek_eq op_run encrypt_field_def draw_def up)
qed

text \<open>
  A token the vendor rotates while the client is open replaces the stored one and nothing else: the
  next read gives the same record with the new token, its creation time (and with it the seven-day
  clock) unmoved. The connection has to be under the user's current data key.
\<close>

theorem persist_token_refreshes:
  assumes "aead_correct e" "as_user u s" "keys_distinct (s_db s)" "conn_of (s_db s) u = [row]"
    "open_connection e (s_db s) row = Some c"
    "th_wrote h" "wrapped_token_of e (th_token h) = Some w"
    "validate_json e (json_dumps (wt_token w)) = Some (wt_token w)"
    "current_dek e u s = (Inr (dek, c_key_version row), s)"
  shows "\<exists>s'. persist_token e u h s = (Inr (), s') \<and>
    read_connection e u s' = (Inr (Some (c\<lparr>cr_token := wt_token w\<rparr>)), s')"
proof -
  let ?f = "\<lambda>r. r\<lparr>c_token_ciphertext := aes_enc e dek (urandom e (s_draws s) 12) (json_dumps (wt_token w))
      (Some (connection_associated_data ''token_ciphertext'' u)),
    c_token_nonce := urandom e (s_draws s) 12, c_key_version := c_key_version row\<rparr>"
  let ?s = "s\<lparr>s_draws := Suc (s_draws s), s_db := t_schwab_connections_update
      (map (\<lambda>r. if c_user_id r = u then ?f r else r)) (s_db s)\<rparr>"
  have p: "persist_token e u h s = (Inr (), ?s)"
    by (rule persist_token_result [OF assms(2,3,6,7,9)])
  have one: "conn_of (s_db ?s) u = [?f row]"
    using conn_of_map [of ?f u "s_db s"] assms(4) by simp
  have u: "c_user_id row = u" using assms(4) by (rule conn_of_user)
  from current_dek_as [OF assms(2,3,9)] have d: "dek_in e (s_db s) u (c_key_version row) = Some dek" by simp
  have "open_connection e (s_db ?s) (?f row) = Some (c\<lparr>cr_token := wt_token w\<rparr>)"
    using assms(1,5,8) u d
    by (auto simp: open_connection_def aead_correctD split: option.splits)
  moreover have "as_user u ?s" using assms(2) by simp
  ultimately have "read_connection e u ?s = (Inr (Some (c\<lparr>cr_token := wt_token w\<rparr>)), ?s)"
    using one by (intro read_connection_as)
  with p show ?thesis by blast
qed

text \<open>
  The refresh assumes the user's key has not moved. When the current data key is a newer one than
  the connection was written under, the refresh re-encrypts the token and raises the row's key version
  but leaves the account hash under the old key, so every later read of the connection fails.
\<close>

theorem persist_token_new_key:
  assumes "aead_binding e" "as_user u s" "keys_distinct (s_db s)" "conn_of (s_db s) u = [row]"
    "c_account_hash_ciphertext row = aes_enc e old_dek nonce ah (Some ad)"
    "th_wrote h" "wrapped_token_of e (th_token h) = Some w"
    "current_dek e u s = (Inr (dek, kv), s)" "dek \<noteq> old_dek"
  shows "\<exists>s'. persist_token e u h s = (Inr (), s') \<and> read_connection e u s' = (Inl InvalidTag, s')"
proof -
  let ?f = "\<lambda>r. r\<lparr>c_token_ciphertext := aes_enc e dek (urandom e (s_draws s) 12) (json_dumps (wt_token w))
      (Some (connection_associated_data ''token_ciphertext'' u)),
    c_token_nonce := urandom e (s_draws s) 12, c_key_version := kv\<rparr>"
  let ?s = "s\<lparr>s_draws := Suc (s_draws s), s_db := t_schwab_connections_update
      (map (\<lambda>r. if c_user_id r = u then ?f r else r)) (s_db s)\<rparr>"
  have p: "persist_token e u h s = (Inr (), ?s)"
    by (rule persist_token_result [OF assms(2,3,6,7,8)])
  have one: "conn_of (s_db ?s) u = [?f row]"
    using conn_of_map [of ?f u "s_db s"] assms(4) by simp
  from current_dek_as [OF assms(2,3,8)] have d: "dek_in e (s_db ?s) u kv = Some dek" by simp
  have a: "as_user u ?s" using assms(2) by simp
  have "aes_dec e dek n (c_account_hash_ciphertext row) b = None" for n b
    unfolding assms(5) by (rule aead_bindingD [OF assms(1)]) (use assms(9) in blast)
  then have "read_connection e u ?s = (Inl InvalidTag, ?s)"
    using dek_for_version_as [OF a d] one
    by (simp add: read_connection_def op_run sel_connection_as [OF a] one_or_none_def decrypt_field_def)
  with p show ?thesis by blast
qed


section \<open>In the concrete world\<close>

lemma upsert_connection_ok:
  assumes "as_user u s" "current_dek e u s = (Inr (dek, kv), s)" "has_user (s_db s) u" "int2 kv"
  shows "\<exists>s'. upsert_connection e u et ah s = (Inr (), s')"
proof -
  let ?row = "sealed_connection e dek kv u (s_draws s) et ah"
  have "as_user u (s\<lparr>s_draws := s_draws s + 2\<rparr>)" using assms(1) by simp
  note up = connections_tb.upsert_as [OF this, of ?row "set_excluded ?row"]
  show ?thesis
    using up assms(2-4)
    by (auto simp: upsert_connection_def connection_current_dek_eq op_run connection_values_run typed_def)
qed

definition demo_exchanged :: exchanged_token where
  "demo_exchanged = \<lparr>et_token = JStr ''tok'', et_created_at = 5\<rparr>"

definition demo_conn_row :: connection_row where
  "demo_conn_row = sealed_connection demo_env demo_dek 1 demo_user 0 demo_exchanged ''hash''"

definition demo_conn_db :: db where
  "demo_conn_db = demo_db\<lparr>t_schwab_connections := [demo_conn_row]\<rparr>"

definition demo_conn_sess :: sess where
  "demo_conn_sess = demo_sess\<lparr>s_db := demo_conn_db, s_draws := 2\<rparr>"

definition demo_rotated :: token_holder where
  "demo_rotated = holder_write (JObj [(''creation_timestamp'', JInt 0), (''token'', JStr ''new'')])
     (holder_init JNull)"

lemma demo_validate [simp]:
  "validate_json demo_env (json_dumps (JStr ''tok'')) = Some (JStr ''tok'')"
  "validate_json demo_env (json_dumps (JStr ''new'')) = Some (JStr ''new'')"
  by (simp_all add: demo_env_def json_string_def esc_point_def)

lemma demo_wrapped: "wrapped_token_of demo_env (th_token demo_rotated) =
    Some \<lparr>wt_creation_timestamp = 0, wt_token = JStr ''new''\<rparr>"
  by (simp add: demo_rotated_def holder_write_def wrapped_token_of_def demo_env_def)

lemma demo_conn_simps [simp]:
  "as_user demo_user demo_conn_sess" "s_db demo_conn_sess = demo_conn_db" "s_draws demo_conn_sess = 2"
  "keys_distinct demo_conn_db" "key_rows demo_conn_db demo_user = [demo_key_row]"
  "dek_in e demo_conn_db u kv = dek_in e demo_db u kv" "has_user demo_conn_db = has_user demo_db"
  "conn_of demo_conn_db demo_user = [demo_conn_row]" "th_wrote demo_rotated"
  using demo_keys_distinct demo_key_rows
  by (simp_all add: demo_conn_sess_def demo_conn_db_def keys_distinct_def key_rows_def dek_in_def
      has_user_def conn_of_def demo_conn_row_def demo_rotated_def holder_write_def fun_eq_iff)

lemma demo_conn_dek [simp]:
  "current_dek demo_env demo_user demo_conn_sess = (Inr (demo_dek, 1), demo_conn_sess)"
  using current_dek_single [OF demo_conn_simps(1), of demo_key_row demo_env demo_dek] by simp

definition demo_connection :: connection_record where
  "demo_connection = \<lparr>cr_user_id = demo_user, cr_account_hash = ''hash'', cr_token = JStr ''tok'',
     cr_token_created_at = 5, cr_last_synced_at = None, cr_reauth_notified_at = None, cr_key_version = 1\<rparr>"

lemma demo_open_connection [simp]:
  "open_connection demo_env demo_conn_db demo_conn_row = Some demo_connection"
proof -
  have "aes_dec demo_env k n (aes_enc demo_env k n p a) a = Some p" for k n p a
    by (rule aead_correctD [OF demo_aead_correct])
  then show ?thesis
    using demo_validate
    by (simp add: open_connection_def demo_conn_row_def sealed_connection_def demo_exchanged_def
        demo_connection_def del: json_dumps.simps)
qed

theorem upsert_then_read_connection_witness:
  "\<exists>s' kv. upsert_connection demo_env demo_user demo_exchanged ''hash'' demo_conn_sess = (Inr (), s') \<and>
    read_connection demo_env demo_user s' = (Inr (Some (demo_connection\<lparr>cr_key_version := kv\<rparr>)), s')"
proof -
  obtain s' where r: "upsert_connection demo_env demo_user demo_exchanged ''hash'' demo_conn_sess = (Inr (), s')"
    using upsert_connection_ok [OF demo_conn_simps(1) demo_conn_dek] by auto
  have v: "validate_json demo_env (json_dumps (et_token demo_exchanged)) = Some (et_token demo_exchanged)"
    unfolding demo_exchanged_def exchanged_token.select_convs by (rule demo_validate)
  have h: "keys_distinct (s_db demo_conn_sess)" "length (conn_of (s_db demo_conn_sess) demo_user) \<le> 1"
    by simp_all
  from upsert_then_read_connection [OF demo_aead_correct demo_conn_simps(1) h v r] r show ?thesis
    by (auto simp: demo_connection_def demo_exchanged_def demo_conn_row_def sealed_connection_def)
qed

theorem persist_token_refreshes_witness:
  "\<exists>s'. persist_token demo_env demo_user demo_rotated demo_conn_sess = (Inr (), s') \<and>
    read_connection demo_env demo_user s' = (Inr (Some (demo_connection\<lparr>cr_token := JStr ''new''\<rparr>)), s')"
proof -
  have c: "current_dek demo_env demo_user demo_conn_sess =
      (Inr (demo_dek, c_key_version demo_conn_row), demo_conn_sess)"
    by (simp add: demo_conn_row_def)
  have v: "validate_json demo_env (json_dumps (wt_token \<lparr>wt_creation_timestamp = 0, wt_token = JStr ''new''\<rparr>)) =
      Some (wt_token \<lparr>wt_creation_timestamp = 0, wt_token = JStr ''new''\<rparr>)"
    unfolding wrapped_token.select_convs by (rule demo_validate)
  have h: "keys_distinct (s_db demo_conn_sess)" "conn_of (s_db demo_conn_sess) demo_user = [demo_conn_row]"
    "open_connection demo_env (s_db demo_conn_sess) demo_conn_row = Some demo_connection"
    by simp_all
  from persist_token_refreshes [OF demo_aead_correct demo_conn_simps(1) h demo_conn_simps(9) demo_wrapped v c]
  show ?thesis by simp
qed

text \<open>A second version of the data key, and the connection still under the first.\<close>

definition demo_new_key_row :: data_key_row where
  "demo_new_key_row = \<lparr>dk_user_id = demo_user, dk_key_version = 2,
     dk_wrapped_dek = aes_enc demo_env (master_key_bytes demo_env) ''m'' ''E'' None, dk_wrap_nonce = ''m''\<rparr>"

definition demo_rekeyed_sess :: sess where
  "demo_rekeyed_sess = demo_conn_sess\<lparr>s_db :=
     t_user_data_keys_update (\<lambda>_. [demo_key_row, demo_new_key_row]) demo_conn_db\<rparr>"

lemma demo_rekeyed_dek:
  "current_dek demo_env demo_user demo_rekeyed_sess = (Inr (''E'', 2), demo_rekeyed_sess)"
proof -
  have a: "as_user demo_user demo_rekeyed_sess" by (simp add: demo_rekeyed_sess_def)
  have k: "key_rows (s_db demo_rekeyed_sess) demo_user = [demo_key_row, demo_new_key_row]"
    by (simp add: demo_rekeyed_sess_def key_rows_def demo_key_row_def demo_new_key_row_def)
  have "aes_dec demo_env k n (aes_enc demo_env k n p x) x = Some p" for k n p x
    by (rule aead_correctD [OF demo_aead_correct])
  with k show ?thesis
    by (simp add: current_dek_def op_run sel_own_keys_as [OF a] latest_version_def one_def unwrap_dek_def
        demo_new_key_row_def)
qed

theorem persist_token_new_key_witness:
  "\<exists>s'. persist_token demo_env demo_user demo_rotated demo_rekeyed_sess = (Inr (), s') \<and>
    read_connection demo_env demo_user s' = (Inl InvalidTag, s')"
proof -
  have h: "as_user demo_user demo_rekeyed_sess" "keys_distinct (s_db demo_rekeyed_sess)"
    "conn_of (s_db demo_rekeyed_sess) demo_user = [demo_conn_row]"
    by (simp_all add: demo_rekeyed_sess_def keys_distinct_def demo_new_key_row_def demo_conn_db_def conn_of_def
        demo_conn_row_def)
  have c: "c_account_hash_ciphertext demo_conn_row = aes_enc demo_env demo_dek (urandom demo_env (Suc 0) 12)
      ''hash'' (Some (connection_associated_data ''account_hash_ciphertext'' demo_user))"
    by (simp add: demo_conn_row_def sealed_connection_def)
  have "''E'' \<noteq> demo_dek" by (auto simp: demo_dek_def dest: arg_cong [where f = length])
  from persist_token_new_key [OF demo_aead_binding h c demo_conn_simps(9) demo_wrapped demo_rekeyed_dek this]
  show ?thesis by simp
qed

end
