(* ===== verification/Broker_Transactions.thy ===== *)
theory Broker_Transactions
  imports Fills Batch_Store Demo_World
begin

text \<open>
  \<open>ingest/broker_transactions.py\<close>: the one write path into the broker's own copy. The vendor's element is
  rendered with \<open>json.dumps\<close>, encrypted whole, and offered by chunks on the key of user and activity.
\<close>

record broker_transaction_write =
  bw_activity_id :: string
  bw_transaction_type :: string
  bw_transaction_time :: datetime
  bw_order_id :: "string option"
  bw_raw_payload :: json

definition broker_chunk_size :: nat where
  "broker_chunk_size = 2000"

definition broker_transaction_associated_data :: "string \<Rightarrow> uuid \<Rightarrow> string \<Rightarrow> bytes" where
  "broker_transaction_associated_data column user_id activity_id =
     join '':'' [''broker_transactions'', column, uuid_str user_id, activity_id]"

text \<open>\<open>BrokerTransaction.__init__\<close> and its sentinel.\<close>

definition broker_transaction_init :: "write_token \<Rightarrow> broker_tx_row \<Rightarrow> broker_tx_row op" where
  "broker_transaction_init token kwargs =
     (if token \<noteq> BrokerTransactionWriteToken then raise RuntimeError else ret kwargs)"

definition broker_current_dek :: "env \<Rightarrow> uuid \<Rightarrow> (bytes \<times> int) op" where
  "broker_current_dek e user_id =
     op_bind (sel user_data_keys_table (\<lambda>r. dk_user_id r = user_id)) (\<lambda>rows.
     op_bind (one (latest_version rows)) (\<lambda>row.
     op_bind (unwrap_dek e (dk_wrapped_dek row) (dk_wrap_nonce row) (master_key_bytes e)) (\<lambda>dek.
     ret (dek, dk_key_version row))))"

lemma broker_current_dek_eq: "broker_current_dek = current_dek"
  by (simp add: fun_eq_iff broker_current_dek_def current_dek_def)

definition broker_values ::
    "env \<Rightarrow> bytes \<Rightarrow> int \<Rightarrow> uuid \<Rightarrow> broker_transaction_write \<Rightarrow> broker_tx_row op" where
  "broker_values e dek key_version user_id row =
     op_bind (encrypt_field e (json_dumps (bw_raw_payload row)) dek
       (broker_transaction_associated_data ''raw_ciphertext'' user_id (bw_activity_id row)))
     (\<lambda>(raw_ciphertext, raw_nonce). ret \<lparr>b_user_id = user_id, b_activity_id = bw_activity_id row,
       b_transaction_type = bw_transaction_type row, b_transaction_time = bw_transaction_time row,
       b_order_id = bw_order_id row, b_raw_ciphertext = raw_ciphertext, b_raw_nonce = raw_nonce,
       b_key_version = key_version\<rparr>)"

definition insert_broker_chunk ::
    "env \<Rightarrow> bytes \<Rightarrow> int \<Rightarrow> uuid \<Rightarrow> broker_transaction_write list \<Rightarrow> nat op" where
  "insert_broker_chunk e dek key_version user_id chunk =
     op_bind (op_map (broker_values e dek key_version user_id) chunk) (\<lambda>values.
     op_seq (broker_transaction_init BrokerTransactionWriteToken (hd values))
       (op_bind (ins_on_conflict_do_nothing broker_transactions_table values) (\<lambda>result.
        ret (length result))))"

definition insert_broker_transactions ::
    "env \<Rightarrow> uuid \<Rightarrow> broker_transaction_write list \<Rightarrow> nat op" where
  "insert_broker_transactions e user_id rows =
     (if rows = [] then ret 0
      else op_bind (broker_current_dek e user_id) (\<lambda>(dek, key_version).
           op_bind (op_map (insert_broker_chunk e dek key_version user_id) (chunks broker_chunk_size rows))
             (\<lambda>landed. ret (sum_list landed))))"


section \<open>The write path as a function\<close>

definition sealed_broker ::
    "env \<Rightarrow> bytes \<Rightarrow> int \<Rightarrow> uuid \<Rightarrow> nat \<Rightarrow> broker_transaction_write \<Rightarrow> broker_tx_row" where
  "sealed_broker e dek kv u i w = \<lparr>b_user_id = u, b_activity_id = bw_activity_id w,
     b_transaction_type = bw_transaction_type w, b_transaction_time = bw_transaction_time w,
     b_order_id = bw_order_id w,
     b_raw_ciphertext = aes_enc e dek (urandom e i 12) (json_dumps (bw_raw_payload w))
       (Some (broker_transaction_associated_data ''raw_ciphertext'' u (bw_activity_id w))),
     b_raw_nonce = urandom e i 12, b_key_version = kv\<rparr>"

lemma broker_table_simps [simp]:
  "tb_rows broker_transactions_table = t_broker_transactions"
  "tb_put broker_transactions_table xs d = t_broker_transactions_update (\<lambda>_. xs) d"
  "tb_owner broker_transactions_table = b_user_id"
  "tb_parents broker_transactions_table d r = has_user d (b_user_id r)"
  "tb_check broker_transactions_table r = typed (int2 (b_key_version r))"
  by (simp_all add: broker_transactions_table_def)

lemma broker_values_run:
  "broker_values e dek kv u w s =
    (Inr (sealed_broker e dek kv u (s_draws s) w), s\<lparr>s_draws := s_draws s + 1\<rparr>)"
  by (simp add: broker_values_def op_run encrypt_field_def draw_def sealed_broker_def)

interpretation broker_bs: batch_store broker_transactions_table broker_tx_row_key "broker_values e"
    "sealed_broker e" "\<lambda>_. 1" "insert_broker_chunk e" "\<lambda>_. True" for e
  by unfold_locales
    (simp_all add: broker_values_run insert_broker_chunk_def op_run broker_transaction_init_def
      typed_def sealed_broker_def split: prod.split sum.split)

lemma insert_broker_batch:
  "insert_broker_transactions e u ws = write_batch (insert_broker_chunk e) broker_chunk_size e u ws"
  by (simp add: insert_broker_transactions_def write_batch_def broker_current_dek_eq)

lemma keeps_insert_broker [keeps_intros]:
  "keeps same_tx (insert_broker_transactions e v ws)"
  "keeps (confined u) (insert_broker_transactions e v ws)"
  unfolding insert_broker_transactions_def insert_broker_chunk_def broker_values_def
    broker_transaction_init_def broker_current_dek_eq
  by (intro keeps_intros)+

text \<open>What a stored element decrypts to, under the key of its own version.\<close>

definition stored_raw :: "env \<Rightarrow> db \<Rightarrow> broker_tx_row \<Rightarrow> bytes option" where
  "stored_raw e d r = (case dek_in e d (b_user_id r) (b_key_version r) of
     None \<Rightarrow> None
   | Some dek \<Rightarrow> aes_dec e dek (b_raw_nonce r) (b_raw_ciphertext r)
       (Some (broker_transaction_associated_data ''raw_ciphertext'' (b_user_id r) (b_activity_id r))))"

definition broker_view :: "env \<Rightarrow> db \<Rightarrow> broker_tx_row \<Rightarrow>
    uuid \<times> string \<times> string \<times> datetime \<times> string option \<times> bytes option" where
  "broker_view e d r = (b_user_id r, b_activity_id r, b_transaction_type r, b_transaction_time r,
     b_order_id r, stored_raw e d r)"

definition write_view :: "uuid \<Rightarrow> broker_transaction_write \<Rightarrow>
    uuid \<times> string \<times> string \<times> datetime \<times> string option \<times> bytes option" where
  "write_view u w = (u, bw_activity_id w, bw_transaction_type w, bw_transaction_time w,
     bw_order_id w, Some (json_dumps (bw_raw_payload w)))"

lemma broker_view_sealed:
  assumes "aead_correct e" "dek_in e d u kv = Some dek"
  shows "broker_view e d (sealed_broker e dek kv u i w) = write_view u w"
  using assms by (simp add: broker_view_def write_view_def stored_raw_def sealed_broker_def aead_correctD)

text \<open>The activities of \<open>u\<close> that are already stored.\<close>

definition own_activities :: "db \<Rightarrow> uuid \<Rightarrow> string set" where
  "own_activities d u =
     b_activity_id ` set (filter (\<lambda>r. b_user_id r = u) (t_broker_transactions d))"

lemma fresh_sealed:
  "map (broker_view e d) (fresh broker_tx_row_key (taken broker_transactions_table broker_tx_row_key d')
      (sealed_batch (sealed_broker e dek kv u) (\<lambda>_. 1) n ws)) =
    map (write_view u) (fresh bw_activity_id (own_activities d' u) ws)"
  if "aead_correct e" "dek_in e d u kv = Some dek"
proof -
  let ?f = "\<lambda>(i, w). sealed_broker e dek kv u i w"
  let ?T = "taken broker_transactions_table broker_tx_row_key d'"
  have k: "(broker_tx_row_key \<circ> ?f) = (\<lambda>(i, w). (u, bw_activity_id w))"
    by (auto simp: broker_tx_row_key_def sealed_broker_def)
  have "fresh (\<lambda>(i, w). (u, bw_activity_id w)) ?T (numbered (\<lambda>_. 1) n ws) =
      fresh (bw_activity_id \<circ> snd) (own_activities d' u) (numbered (\<lambda>_. 1) n ws)"
    by (rule fresh_cong)
      (auto simp: taken_def own_activities_def broker_tx_row_key_def image_iff)
  then have "fresh broker_tx_row_key ?T (sealed_batch (sealed_broker e dek kv u) (\<lambda>_. 1) n ws) =
      map ?f (fresh (bw_activity_id \<circ> snd) (own_activities d' u) (numbered (\<lambda>_. 1) n ws))"
    by (simp add: sealed_batch_def fresh_map k)
  moreover have "fresh bw_activity_id (own_activities d' u) ws =
      map snd (fresh (bw_activity_id \<circ> snd) (own_activities d' u) (numbered (\<lambda>_. 1) n ws))"
    using fresh_map [of bw_activity_id _ snd "numbered (\<lambda>_. 1) n ws"] by simp
  ultimately show ?thesis
    using that by (simp add: o_def case_prod_unfold broker_view_sealed)
qed

text \<open>
  The broker's own copy is kept verbatim and first-write-wins. A successful insert appends, for the
  session's user, exactly one row per activity that was not stored yet (the first element of a batch
  for an activity counts), with its plaintext columns as written and a ciphertext that decrypts, under
  the key of the row's own version and bound to that user and activity, to \<open>json.dumps\<close> of the
  vendor's element; no stored row changes, and the count returned is the number of rows that landed.
\<close>

theorem insert_broker_transactions_stores:
  assumes "aead_correct e" "as_user u s" "keys_distinct (s_db s)"
    "insert_broker_transactions e u ws s = (Inr n, s')"
  shows "\<exists>new. t_broker_transactions (s_db s') = t_broker_transactions (s_db s) @ new \<and> length new = n \<and>
    map (broker_view e (s_db s')) new =
      map (write_view u) (fresh bw_activity_id (own_activities (s_db s) u) ws)"
proof (cases "ws = []")
  case True
  with assms(4) show ?thesis by (simp add: insert_broker_transactions_def op_run)
next
  case False
  have "0 < broker_chunk_size" by (simp add: broker_chunk_size_def)
  from broker_bs.write_result [OF this assms(2,3) False assms(4) [unfolded insert_broker_batch]]
  obtain dek kv
    where d: "dek_in e (s_db s) u kv = Some dek"
      and n: "n = length (landed_batch broker_transactions_table broker_tx_row_key
        (sealed_broker e dek kv u) (\<lambda>_. 1) s ws)"
      and s': "s' = after_batch broker_transactions_table broker_tx_row_key
        (sealed_broker e dek kv u) (\<lambda>_. 1) s ws"
    by blast
  have d': "dek_in e (s_db s') u kv = Some dek"
    using d by (simp add: s' after_batch_def dek_in_def key_rows_def)
  have "map (broker_view e (s_db s')) (landed_batch broker_transactions_table broker_tx_row_key
        (sealed_broker e dek kv u) (\<lambda>_. 1) s ws) =
      map (write_view u) (fresh bw_activity_id (own_activities (s_db s) u) ws)"
    unfolding landed_batch_def by (rule fresh_sealed [OF assms(1) d'])
  moreover have "t_broker_transactions (s_db s') = t_broker_transactions (s_db s) @
      landed_batch broker_transactions_table broker_tx_row_key (sealed_broker e dek kv u) (\<lambda>_. 1) s ws"
    by (simp add: s' after_batch_def)
  ultimately show ?thesis using n by blast
qed

definition demo_elements :: "broker_transaction_write list" where
  "demo_elements = [\<lparr>bw_activity_id = ''11'', bw_transaction_type = ''TRADE'', bw_transaction_time = 5,
     bw_order_id = Some ''1006'', bw_raw_payload = JObj [(''activityId'', JInt 11)]\<rparr>,
   \<lparr>bw_activity_id = ''11'', bw_transaction_type = ''TRADE'', bw_transaction_time = 5,
     bw_order_id = Some ''1006'', bw_raw_payload = JNull\<rparr>]"

lemma demo_insert_broker: "\<exists>s'. insert_broker_transactions demo_env demo_user demo_elements demo_sess = (Inr 1, s')"
proof -
  have "0 < broker_chunk_size" by (simp add: broker_chunk_size_def)
  moreover have "has_user (s_db demo_sess) demo_user" by simp
  ultimately have "write_batch (insert_broker_chunk demo_env) broker_chunk_size demo_env demo_user
      demo_elements demo_sess = (Inr (length (landed_batch broker_transactions_table broker_tx_row_key
        (sealed_broker demo_env demo_dek 1 demo_user) (\<lambda>_. 1) demo_sess demo_elements)),
      after_batch broker_transactions_table broker_tx_row_key
        (sealed_broker demo_env demo_dek 1 demo_user) (\<lambda>_. 1) demo_sess demo_elements)"
    by (intro broker_bs.write_ok [OF _ demo_as_user demo_current_dek]) simp_all
  then show ?thesis
    by (simp add: insert_broker_batch landed_batch_def taken_def demo_db_def empty_db_def
        demo_elements_def sealed_batch_def broker_tx_row_key_def sealed_broker_def)
qed

theorem insert_broker_transactions_stores_witness:
  "\<exists>s' new. insert_broker_transactions demo_env demo_user demo_elements demo_sess = (Inr 1, s') \<and>
    t_broker_transactions (s_db s') = new \<and>
    map (broker_view demo_env (s_db s')) new =
      [(demo_user, ''11'', ''TRADE'', 5, Some ''1006'', Some (json_dumps (JObj [(''activityId'', JInt 11)])))]"
proof -
  obtain s' where r: "insert_broker_transactions demo_env demo_user demo_elements demo_sess = (Inr 1, s')"
    using demo_insert_broker by blast
  have k: "keys_distinct (s_db demo_sess)" by simp
  from insert_broker_transactions_stores [OF demo_aead_correct demo_as_user k r] r show ?thesis
    by (auto simp: own_activities_def demo_db_def empty_db_def demo_elements_def write_view_def)
qed

end
