(* ===== verification/Schwab_Sync.thy ===== *)
theory Schwab_Sync
  imports Schwab_Extract Connection_Laws Broker_Transactions Fill_Laws
begin

text \<open>
  The shell of \<open>ingest/schwab_sync.py\<close>: \<open>sync_user\<close> pulls one user's windows and lands both tables inside
  the caller's transaction; \<open>sync_all_connected_users\<close> fans out one job per connection.
\<close>

record sync_outcome =
  so_broker_transactions_landed :: nat
  so_fills_landed :: nat
  so_skip_reasons :: "skip_reason list"

definition no_outcome :: sync_outcome where
  "no_outcome = \<lparr>so_broker_transactions_landed = 0, so_fills_landed = 0, so_skip_reasons = []\<rparr>"

text \<open>The rows one response asks to write: the raw copies, the fills, and the reasons for what is skipped.\<close>

definition broker_row_of :: "json \<Rightarrow> transaction \<Rightarrow> broker_transaction_write" where
  "broker_row_of raw_element t = \<lparr>bw_activity_id = tx_activity_id t, bw_transaction_type = tx_type t,
     bw_transaction_time = tx_time t, bw_order_id = tx_order_id t, bw_raw_payload = raw_element\<rparr>"

definition broker_rows :: "json list \<Rightarrow> transaction list \<Rightarrow> broker_transaction_write list" where
  "broker_rows raw_elements transactions = map2 broker_row_of raw_elements transactions"

definition fill_rows :: "transaction list \<Rightarrow> fill_write list" where
  "fill_rows transactions = concat (map (\<lambda>t. fst (extract_fills t)) transactions)"

definition reasons_of :: "transaction list \<Rightarrow> skip_reason list" where
  "reasons_of transactions = concat (map (\<lambda>t. snd (extract_fills t)) transactions)"

text \<open>A response validated: the raw elements and the typed ones, or the \<open>ValidationError\<close>.\<close>

definition validate_response :: "env \<Rightarrow> json \<Rightarrow> exn + json list \<times> transaction list" where
  "validate_response e response = (case response of
     JArr raw_elements \<Rightarrow>
       (case validate_all (transaction_of e) raw_elements of
          None \<Rightarrow> Inl ValidationError | Some transactions \<Rightarrow> Inr (raw_elements, transactions))
   | _ \<Rightarrow> Inl ValidationError)"

text \<open>The body of the loop over the windows; \<open>n\<close> is the number of calls so far.\<close>

definition sync_window ::
    "env \<Rightarrow> schwab_auth \<Rightarrow> uuid \<Rightarrow> string \<Rightarrow> nat \<Rightarrow> datetime \<times> datetime \<Rightarrow>
     sync_outcome \<times> token_holder \<Rightarrow> (sync_outcome \<times> token_holder) op" where
  "sync_window e auth user_id account_hash n window acc =
     (let (start, end) = window; (outcome, holder) = acc;
          (response, holder') = get_transactions auth n holder account_hash start end
      in op_bind (op_from response) (\<lambda>response.
         op_bind (op_from (validate_response e response)) (\<lambda>(raw_elements, transactions).
         op_bind (insert_broker_transactions e user_id (broker_rows raw_elements transactions)) (\<lambda>landed.
         op_bind (insert_fills e user_id (fill_rows transactions)) (\<lambda>fills.
         ret (\<lparr>so_broker_transactions_landed = so_broker_transactions_landed outcome + landed,
               so_fills_landed = so_fills_landed outcome + fills,
               so_skip_reasons = so_skip_reasons outcome @ reasons_of transactions\<rparr>, holder'))))))"

fun sync_all_windows ::
    "env \<Rightarrow> schwab_auth \<Rightarrow> uuid \<Rightarrow> string \<Rightarrow> nat \<Rightarrow> (datetime \<times> datetime) list \<Rightarrow>
     sync_outcome \<times> token_holder \<Rightarrow> (sync_outcome \<times> token_holder) op" where
  "sync_all_windows e auth user_id account_hash n [] acc = ret acc"
| "sync_all_windows e auth user_id account_hash n (w # ws) acc =
     op_bind (sync_window e auth user_id account_hash n w acc)
       (sync_all_windows e auth user_id account_hash (Suc n) ws)"

definition sync_user ::
    "env \<Rightarrow> settings \<Rightarrow> schwab_auth \<Rightarrow> uuid \<Rightarrow> datetime \<Rightarrow> sync_outcome op" where
  "sync_user e st auth user_id now =
     op_seq (set_current_user (uuid_str user_id))
     (op_seq (advisory_xact_lock (hashtext e (uuid_str user_id)))
     (op_bind (read_connection e user_id) (\<lambda>connection.
     (case connection of
        None \<Rightarrow> raise ConnectionNotFound
      | Some connection \<Rightarrow>
         (case sync_windows (cr_last_synced_at connection) now st of
            None \<Rightarrow> raise Diverges
          | Some windows \<Rightarrow>
              schwab_client_for_user e auth user_id (\<lambda>holder.
                sync_all_windows e auth user_id (cr_account_hash connection) 0 windows
                  (no_outcome, holder)))))))"

text \<open>
  \<open>defer_async\<close> runs on the queue's own connection and commits by itself: the job is there for
  everyone, whatever the session does next.
\<close>

definition defer_async :: "job_row \<Rightarrow> unit op" where
  "defer_async job = (\<lambda>s. (Inr (), s\<lparr>
     s_committed := t_procrastinate_jobs_update (\<lambda>js. js @ [job]) (s_committed s),
     s_db := t_procrastinate_jobs_update (\<lambda>js. js @ [job]) (s_db s)\<rparr>))"

definition scheduled_job :: "uuid \<Rightarrow> job_row" where
  "scheduled_job user_id = \<lparr>j_task = ''sync_user'', j_user_id = uuid_str user_id, j_trigger = None\<rparr>"

definition sync_all_connected_users :: "uuid list op" where
  "sync_all_connected_users =
     op_bind (sel schwab_connections_table (\<lambda>_. True)) (\<lambda>rows.
     (let user_ids = map c_user_id rows
      in op_bind (op_map (\<lambda>user_id. defer_async (scheduled_job user_id)) user_ids) (\<lambda>_. ret user_ids)))"


section \<open>Isolation\<close>

lemma keeps_insert_fills [keeps_intros]:
  "keeps same_tx (insert_fills e v fs)" "keeps (confined u) (insert_fills e v fs)"
  unfolding insert_fills_def insert_fills_chunked_def insert_fill_chunk_def fill_values_def
    encrypt_amount_def fill_init_def Let_def
  by (intro keeps_intros)+

lemma keeps_sync_window [keeps_intros]:
  "keeps same_tx (sync_window e auth v h n w acc)"
  "keeps (confined u) (sync_window e auth v h n w acc)"
  unfolding sync_window_def Let_def by (intro keeps_intros)+

lemma keeps_sync_all_windows [keeps_intros]:
  "keeps same_tx (sync_all_windows e auth v h n ws acc)"
  "keeps (confined u) (sync_all_windows e auth v h n ws acc)"
  by (induction ws arbitrary: n acc)
    (auto intro!: tx.keeps_bind tx.keeps_ret conf.keeps_bind conf.keeps_ret keeps_sync_window)

lemma keeps_sync_body:
  "keeps same_tx (op_bind (read_connection e v) (\<lambda>connection.
     (case connection of None \<Rightarrow> raise ConnectionNotFound
      | Some connection \<Rightarrow> (case sync_windows (cr_last_synced_at connection) now st of
            None \<Rightarrow> raise Diverges
          | Some windows \<Rightarrow> schwab_client_for_user e auth v (\<lambda>holder.
              sync_all_windows e auth v (cr_account_hash connection) 0 windows (no_outcome, holder))))))"
  "keeps (confined u) (op_bind (read_connection e v) (\<lambda>connection.
     (case connection of None \<Rightarrow> raise ConnectionNotFound
      | Some connection \<Rightarrow> (case sync_windows (cr_last_synced_at connection) now st of
            None \<Rightarrow> raise Diverges
          | Some windows \<Rightarrow> schwab_client_for_user e auth v (\<lambda>holder.
              sync_all_windows e auth v (cr_account_hash connection) 0 windows (no_outcome, holder))))))"
  by (intro keeps_intros)+

lemma sync_user_confined:
  assumes "s_role s = App"
  shows "others u (s_db (snd (sync_user e st auth u now s))) = others u (s_db s) \<and>
    s_committed (snd (sync_user e st auth u now s)) = s_committed s \<and>
    s_role (snd (sync_user e st auth u now s)) = App \<and> s_draws s \<le> s_draws (snd (sync_user e st auth u now s))"
proof (cases "s_aborted s")
  case True
  then show ?thesis
    using assms by (simp add: sync_user_def op_run set_current_user_def on_live_def)
next
  case False
  let ?t = "s\<lparr>s_user_guc := Some (uuid_str u)\<rparr>"
  let ?m = "op_seq (advisory_xact_lock (hashtext e (uuid_str u))) (op_bind (read_connection e u) (\<lambda>connection.
     (case connection of None \<Rightarrow> raise ConnectionNotFound
      | Some connection \<Rightarrow> (case sync_windows (cr_last_synced_at connection) now st of
            None \<Rightarrow> raise Diverges
          | Some windows \<Rightarrow> schwab_client_for_user e auth u (\<lambda>holder.
              sync_all_windows e auth u (cr_account_hash connection) 0 windows (no_outcome, holder))))))"
  have run: "sync_user e st auth u now s = ?m ?t"
    using False by (simp add: sync_user_def op_seq_def op_bind_def set_current_user_def on_live_def)
  have "keeps same_tx ?m" "keeps (confined u) ?m"
    using keeps_sync_body by (auto intro!: tx.keeps_seq conf.keeps_seq keeps_tx_lock confined_lock)
  then have "same_tx ?t (snd (?m ?t))" "confined u ?t (snd (?m ?t))"
    by (simp_all add: keeps_def)
  then show ?thesis
    using assms unfolding run by (simp add: same_tx_def confined_def)
qed


text \<open>
  C30: One user's sync is that user's alone. On a session of the application role, and whatever the vendor
  answers, the run succeeds or fails without touching any row of another user in any isolated table,
  without making anything durable, and without leaving the role.
\<close>

theorem sync_user_isolated:
  assumes "s_role s = App"
  shows "others u (s_db (snd (sync_user e st auth u now s))) = others u (s_db s) \<and>
    s_committed (snd (sync_user e st auth u now s)) = s_committed s \<and>
    s_role (snd (sync_user e st auth u now s)) = App"
  using sync_user_confined [OF assms] by simp

section \<open>What a run writes\<close>

text \<open>
  Both tables only grow, by as many rows as are reported; accounts, data keys and recorded runs stay.
\<close>

definition grown :: "sess \<Rightarrow> nat \<Rightarrow> nat \<Rightarrow> sess \<Rightarrow> bool" where
  "grown s b f s' \<longleftrightarrow> (\<exists>nb nf. t_broker_transactions (s_db s') = t_broker_transactions (s_db s) @ nb \<and>
     length nb = b \<and> t_fills (s_db s') = t_fills (s_db s) @ nf \<and> length nf = f) \<and>
     t_users (s_db s') = t_users (s_db s) \<and> t_user_data_keys (s_db s') = t_user_data_keys (s_db s) \<and>
     t_sync_runs (s_db s') = t_sync_runs (s_db s)"

lemma grown_refl: "grown s 0 0 s"
  by (simp add: grown_def)

lemma grown_trans: "grown s b f t \<Longrightarrow> grown t c g v \<Longrightarrow> grown s (b + c) (f + g) v"
  unfolding grown_def by fastforce

lemma insert_fills_grown:
  assumes "as_user u s" "keys_distinct (s_db s)" "insert_fills e u fs s = (Inr n, s')"
  shows "grown s 0 n s'"
proof (cases "fs = []")
  case True
  with assms show ?thesis by (simp add: insert_fills_def insert_fills_chunked_def op_run grown_refl)
next
  case False
  from insert_fills_chunked_result [OF _ assms(1,2) False assms(3) [unfolded insert_fills_def]]
  obtain dek kv where "n = length (landed_fills e dek kv u s fs)" "s' = after_fills e dek kv u s fs"
    by (auto simp: fill_chunk_size_def)
  then show ?thesis by (simp add: grown_def after_fills_def)
qed

lemma insert_broker_grown:
  assumes "as_user u s" "keys_distinct (s_db s)" "insert_broker_transactions e u ws s = (Inr n, s')"
  shows "grown s n 0 s' \<and> as_user u s' \<and> keys_distinct (s_db s')"
proof (cases "ws = []")
  case True
  with assms show ?thesis by (simp add: insert_broker_transactions_def op_run grown_refl)
next
  case False
  have k: "0 < broker_chunk_size" by (simp add: broker_chunk_size_def)
  note w = assms(3) [unfolded insert_broker_batch]
  from broker_bs.write_result [OF k assms(1,2) False w] obtain dek kv where
    "n = length (landed_batch broker_transactions_table broker_tx_row_key (sealed_broker e dek kv u) (\<lambda>_. 1) s ws)"
    "s' = after_batch broker_transactions_table broker_tx_row_key (sealed_broker e dek kv u) (\<lambda>_. 1) s ws"
    by blast
  then have "grown s n 0 s'" by (simp add: grown_def after_batch_def)
  with broker_bs.write_frame [OF k assms(1,2) w] show ?thesis by simp
qed

lemma sync_window_grown:
  assumes "as_user u s" "keys_distinct (s_db s)"
    "sync_window e auth u h n w (out, holder) s = (Inr (out', holder'), s')"
  shows "\<exists>b f. so_broker_transactions_landed out' = so_broker_transactions_landed out + b \<and>
    so_fills_landed out' = so_fills_landed out + f \<and> grown s b f s' \<and> as_user u s' \<and> keys_distinct (s_db s')"
proof -
  obtain b f raws txs t where
    b: "insert_broker_transactions e u (broker_rows raws txs) s = (Inr b, t)" and
    f: "insert_fills e u (fill_rows txs) t = (Inr f, s')" and
    o: "so_broker_transactions_landed out' = so_broker_transactions_landed out + b"
      "so_fills_landed out' = so_fills_landed out + f"
    using assms(3)
    by (auto simp: sync_window_def op_run Let_def split: prod.splits sum.splits)
  from insert_broker_grown [OF assms(1,2) b] have t: "grown s b 0 t" "as_user u t" "keys_distinct (s_db t)"
    by simp_all
  from insert_fills_grown [OF t(2,3) f] have "grown t 0 f s'" .
  with t(1) have "grown s b f s'" using grown_trans by fastforce
  with insert_fills_frame [OF t(2,3) f] o show ?thesis by blast
qed

lemma sync_all_windows_grown:
  assumes "as_user u s" "keys_distinct (s_db s)"
    "sync_all_windows e auth u h n ws (out, holder) s = (Inr (out', holder'), s')"
  shows "\<exists>b f. so_broker_transactions_landed out' = so_broker_transactions_landed out + b \<and>
    so_fills_landed out' = so_fills_landed out + f \<and> grown s b f s' \<and> as_user u s' \<and> keys_distinct (s_db s')"
  using assms
proof (induction ws arbitrary: n out holder s)
  case Nil
  then show ?case by (auto simp: op_run intro: grown_refl)
next
  case (Cons w ws)
  obtain o1 h1 t where
    w: "sync_window e auth u h n w (out, holder) s = (Inr (o1, h1), t)" and
    r: "sync_all_windows e auth u h (Suc n) ws (o1, h1) t = (Inr (out', holder'), s')"
    using Cons.prems(3) by (auto simp: op_run split: prod.splits sum.splits)
  from sync_window_grown [OF Cons.prems(1,2) w] obtain b f where
    a: "so_broker_transactions_landed o1 = so_broker_transactions_landed out + b"
      "so_fills_landed o1 = so_fills_landed out + f" "grown s b f t" "as_user u t" "keys_distinct (s_db t)"
    by blast
  from Cons.IH [OF a(4,5) r] obtain b' f' where
    "so_broker_transactions_landed out' = so_broker_transactions_landed o1 + b'"
    "so_fills_landed out' = so_fills_landed o1 + f'" "grown t b' f' s'" "as_user u s'" "keys_distinct (s_db s')"
    by blast
  with a grown_trans [OF a(3)] show ?case
    by (intro exI [of _ "b + b'"] exI [of _ "f + f'"]) simp
qed

lemma read_connection_session:
  assumes "as_user u s" "read_connection e u s = (r, s')"
  shows "s' = s"
  using assms(2)
  by (auto simp: read_connection_def op_run sel_connection_as [OF assms(1)] dek_for_version_def
      sel_key_version_as [OF assms(1)] one_or_none_def unwrap_dek_def decrypt_field_def
      split: list.splits option.splits)

lemma persist_token_grown:
  assumes "as_user u s" "keys_distinct (s_db s)" "persist_token e u h s = (Inr x, s')"
  shows "grown s 0 0 s' \<and> as_user u s'"
proof (cases "th_wrote h")
  case False
  with assms(1,3) show ?thesis by (simp add: persist_token_def op_run grown_refl)
next
  case True
  then obtain w dek kv t where w: "wrapped_token_of e (th_token h) = Some w"
    and c: "current_dek e u s = (Inr (dek, kv), t)"
    using assms(3)
    by (auto simp: persist_token_def connection_current_dek_eq op_run split: option.splits prod.splits sum.splits)
  from current_dek_as [OF assms(1,2) c] have "t = s" by simp
  from persist_token_result [OF assms(1,2) True w c [unfolded this]] assms(1,3) show ?thesis
    by (auto simp: grown_def)
qed

text \<open>The context manager around a body that keeps the session the user's.\<close>

lemma client_grown:
  assumes "as_user u s" "schwab_client_for_user e auth u body s = (Inr x, s')"
    and "\<And>h y h' t t'. as_user u t \<Longrightarrow> s_db t = s_db s \<Longrightarrow> body h t = (Inr (y, h'), t') \<Longrightarrow>
      grown t (b y) (f y) t' \<and> as_user u t' \<and> keys_distinct (s_db t')"
  shows "grown s (b x) (f x) s' \<and> as_user u s'"
proof -
  let ?t = "s\<lparr>s_locks := hashtext e (uuid_str u) # s_locks s\<rparr>"
  have t: "as_user u ?t" "s_db ?t = s_db s" using assms(1) by (simp_all add: as_user_def)
  have lock: "advisory_xact_lock (hashtext e (uuid_str u)) s = (Inr (), ?t)"
    using assms(1) by (simp add: advisory_xact_lock_def on_live_def as_user_def)
  obtain c t1 where c: "read_connection e u ?t = (Inr (Some c), t1)"
    using assms(2) by (auto simp: schwab_client_for_user_def op_run lock split: prod.splits sum.splits option.splits)
  have t1: "t1 = ?t" by (rule read_connection_session [OF t(1) c])
  obtain h h' t2 where bd: "body h ?t = (Inr (x, h'), t2)" and p: "persist_token e u h' t2 = (Inr (), s')"
    using assms(2) c unfolding t1
    by (auto simp: schwab_client_for_user_def op_run lock Let_def split: prod.splits sum.splits)
  from assms(3) [OF t bd] have "grown ?t (b x) (f x) t2" "as_user u t2" "keys_distinct (s_db t2)" by simp_all
  with persist_token_grown [OF this(2,3) p] have "grown ?t (b x) (f x) s'" "as_user u s'"
    using grown_trans by fastforce+
  then show ?thesis by (simp add: grown_def)
qed

lemma sync_user_grown:
  assumes "s_role s = App" "keys_distinct (s_db s)" "sync_user e st auth u now s = (Inr out, s')"
  shows "grown s (so_broker_transactions_landed out) (so_fills_landed out) s' \<and>
    hashtext e (uuid_str u) \<in> set (s_locks s') \<and> as_user u s'"
proof -
  let ?t = "s\<lparr>s_user_guc := Some (uuid_str u), s_locks := hashtext e (uuid_str u) # s_locks s\<rparr>"
  have live: "\<not> s_aborted s"
    using assms(3) by (auto simp: sync_user_def op_run set_current_user_def on_live_def split: if_splits)
  then have t: "as_user u ?t" "keys_distinct (s_db ?t)" using assms(1,2) by (simp_all add: as_user_def)
  have guc: "set_current_user (uuid_str u) s = (Inr (), s\<lparr>s_user_guc := Some (uuid_str u)\<rparr>)"
    and lock: "advisory_xact_lock (hashtext e (uuid_str u)) (s\<lparr>s_user_guc := Some (uuid_str u)\<rparr>) = (Inr (), ?t)"
    using live by (simp_all add: set_current_user_def advisory_xact_lock_def on_live_def)
  obtain c t1 ws where c: "read_connection e u ?t = (Inr (Some c), t1)"
    and m: "schwab_client_for_user e auth u (\<lambda>holder.
        sync_all_windows e auth u (cr_account_hash c) 0 ws (no_outcome, holder)) t1 = (Inr out, s')"
    using assms(3)
    by (auto simp: sync_user_def op_run guc lock split: prod.splits sum.splits option.splits)
  have t1: "t1 = ?t" by (rule read_connection_session [OF t(1) c])
  have "grown ?t (so_broker_transactions_landed out) (so_fills_landed out) s' \<and> as_user u s'"
  proof (rule client_grown [OF t(1) m [unfolded t1]])
    fix h y h' v v'
    assume v: "as_user u v" "s_db v = s_db ?t"
      "sync_all_windows e auth u (cr_account_hash c) 0 ws (no_outcome, h) v = (Inr (y, h'), v')"
    with t(2) have "keys_distinct (s_db v)" by simp
    from sync_all_windows_grown [OF v(1) this v(3)]
    show "grown v (so_broker_transactions_landed y) (so_fills_landed y) v' \<and> as_user u v' \<and>
        keys_distinct (s_db v')"
      by (auto simp: no_outcome_def)
  qed
  then have g: "grown s (so_broker_transactions_landed out) (so_fills_landed out) s'" "as_user u s'"
    by (simp_all add: grown_def)
  have "keeps same_tx (schwab_client_for_user e auth u (\<lambda>holder.
      sync_all_windows e auth u (cr_account_hash c) 0 ws (no_outcome, holder)))"
    by (intro keeps_intros)
  from keepsD [OF this m [unfolded t1]] have "set (s_locks ?t) \<subseteq> set (s_locks s')"
    by (simp add: same_tx_def)
  with g show ?thesis by simp
qed

text \<open>
  What a successful sync reports is what it wrote. Both tables only grow (no stored transaction and
  no stored fill is changed or lost, and accounts, data keys and recorded runs are untouched), by exactly the two counts of the outcome, summed over all
  windows, and the user's advisory lock is held from before the connection is read to the end.
\<close>

theorem sync_user_reports:
  assumes "s_role s = App" "keys_distinct (s_db s)" "sync_user e st auth u now s = (Inr out, s')"
  shows "grown s (so_broker_transactions_landed out) (so_fills_landed out) s' \<and>
    hashtext e (uuid_str u) \<in> set (s_locks s')"
  using sync_user_grown [OF assms] by simp

text \<open>
  One element that does not validate stops the whole sync of its window. The typed boundary checks
  the response as one list, so such an element (an order id sent as a number, say) raises before any
  row of the window is written, and no valid element next to it lands.
\<close>

theorem bad_element_stops_window:
  assumes "get_transactions auth n holder h start until = (Inr (JArr raws), holder')"
    "x \<in> set raws" "transaction_of e x = None"
  shows "sync_window e auth u h n (start, until) (out, holder) s = (Inl ValidationError, s)"
proof -
  have "validate_all (transaction_of e) raws = None"
    using assms(2,3) by (induction raws) (auto split: option.splits)
  then show ?thesis
    using assms(1) by (simp add: sync_window_def op_run validate_response_def)
qed

end
