(* ===== verification/Sync_Runs.thy ===== *)
theory Sync_Runs
  imports Schwab_Sync
begin

text \<open>
  \<open>ingest/sync_runs.py\<close>: the record of what ran, what landed and what failed. The classified codes are an
  enumeration of their own, so that no text of an exception can reach the table.
\<close>

datatype sync_trigger = Scheduled | Manual

datatype sync_status = Succeeded | Failed

datatype sync_error =
    ErrConnectionNotFound | ErrVendorAuthFailed | ErrVendorRateLimited | ErrVendorPayloadUnparseable | ErrUnknown

definition sync_trigger_value :: "sync_trigger \<Rightarrow> string" where
  "sync_trigger_value t = (case t of Scheduled \<Rightarrow> ''scheduled'' | Manual \<Rightarrow> ''manual'')"

definition sync_trigger_of :: "string \<Rightarrow> sync_trigger option" where
  "sync_trigger_of v = (if v = ''scheduled'' then Some Scheduled else if v = ''manual'' then Some Manual else None)"

definition sync_status_value :: "sync_status \<Rightarrow> string" where
  "sync_status_value t = (case t of Succeeded \<Rightarrow> ''succeeded'' | Failed \<Rightarrow> ''failed'')"

definition sync_status_of :: "string \<Rightarrow> sync_status option" where
  "sync_status_of v = (if v = ''succeeded'' then Some Succeeded else if v = ''failed'' then Some Failed else None)"

definition sync_error_value :: "sync_error \<Rightarrow> string" where
  "sync_error_value x = (case x of
     ErrConnectionNotFound \<Rightarrow> ''connection_not_found''
   | ErrVendorAuthFailed \<Rightarrow> ''vendor_auth_failed''
   | ErrVendorRateLimited \<Rightarrow> ''vendor_rate_limited''
   | ErrVendorPayloadUnparseable \<Rightarrow> ''vendor_payload_unparseable''
   | ErrUnknown \<Rightarrow> ''unknown'')"

definition sync_error_of :: "string \<Rightarrow> sync_error option" where
  "sync_error_of v =
     (if v = ''connection_not_found'' then Some ErrConnectionNotFound
      else if v = ''vendor_auth_failed'' then Some ErrVendorAuthFailed
      else if v = ''vendor_rate_limited'' then Some ErrVendorRateLimited
      else if v = ''vendor_payload_unparseable'' then Some ErrVendorPayloadUnparseable
      else if v = ''unknown'' then Some ErrUnknown else None)"

lemma enum_values [simp]:
  "sync_trigger_of (sync_trigger_value t) = Some t"
  "sync_status_of (sync_status_value v) = Some v"
  "sync_error_of (sync_error_value x) = Some x"
  by (cases t; cases v; cases x; simp add: sync_trigger_of_def sync_trigger_value_def sync_status_of_def
      sync_status_value_def sync_error_of_def sync_error_value_def)+

definition classify_sync_error :: "exn \<Rightarrow> sync_error" where
  "classify_sync_error x = (case x of
     ConnectionNotFound \<Rightarrow> ErrConnectionNotFound
   | ValidationError \<Rightarrow> ErrVendorPayloadUnparseable
   | HTTPStatusError status_code \<Rightarrow>
       (if status_code \<in> {401, 403} then ErrVendorAuthFailed
        else if status_code = 429 then ErrVendorRateLimited else ErrUnknown)
   | _ \<Rightarrow> ErrUnknown)"

record sync_run_record =
  rr_id :: uuid
  rr_user_id :: uuid
  rr_started_at :: datetime
  rr_finished_at :: datetime
  rr_trigger :: sync_trigger
  rr_status :: sync_status
  rr_fills_landed :: "int option"
  rr_broker_transactions_landed :: "int option"
  rr_error_code :: "sync_error option"

definition record_sync_run ::
    "env \<Rightarrow> uuid \<Rightarrow> datetime \<Rightarrow> datetime \<Rightarrow> sync_trigger \<Rightarrow> sync_status \<Rightarrow> int option \<Rightarrow> int option \<Rightarrow>
     sync_error option \<Rightarrow> unit op" where
  "record_sync_run e user_id started_at finished_at trigger status fills_landed
       broker_transactions_landed error_code =
     op_bind (draw_uuid e) (\<lambda>i. ins sync_runs_table \<lparr>r_id = i, r_user_id = user_id,
       r_started_at = started_at, r_finished_at = finished_at,
       r_trigger = sync_trigger_value trigger, r_status = sync_status_value status,
       r_fills_landed = fills_landed, r_broker_transactions_landed = broker_transactions_landed,
       r_error_code = map_option sync_error_value error_code\<rparr>)"

text \<open>A stored row with its texts read back as members; an unknown text is the enum's \<open>ValueError\<close>.\<close>

definition sync_run_record_of :: "sync_run_row \<Rightarrow> sync_run_record op" where
  "sync_run_record_of row =
     (case (sync_trigger_of (r_trigger row), sync_status_of (r_status row),
            (case r_error_code row of None \<Rightarrow> Some None | Some c \<Rightarrow> map_option Some (sync_error_of c))) of
        (Some t, Some v, Some x) \<Rightarrow> ret \<lparr>rr_id = r_id row, rr_user_id = r_user_id row,
          rr_started_at = r_started_at row, rr_finished_at = r_finished_at row, rr_trigger = t, rr_status = v,
          rr_fills_landed = r_fills_landed row,
          rr_broker_transactions_landed = r_broker_transactions_landed row, rr_error_code = x\<rparr>
      | _ \<Rightarrow> raise ValueError)"

definition read_sync_runs :: "uuid \<Rightarrow> nat \<Rightarrow> sync_run_record list op" where
  "read_sync_runs user_id limit =
     op_bind (sel sync_runs_table (\<lambda>r. r_user_id r = user_id)) (\<lambda>rows.
     op_map sync_run_record_of (take limit (sort_key (\<lambda>r. - r_started_at r) rows)))"


section \<open>Recording and reading\<close>

lemma runs_table_simps [simp]:
  "tb_rows sync_runs_table = t_sync_runs"
  "tb_put sync_runs_table xs d = t_sync_runs_update (\<lambda>_. xs) d"
  "tb_owner sync_runs_table = r_user_id" "tb_grants sync_runs_table = [SELECT, INSERT, DELETE]"
  "tb_parents sync_runs_table d r = has_user d (r_user_id r)" "tb_check sync_runs_table = sync_run_row_check"
  "tb_clash sync_runs_table q r \<longleftrightarrow> r_id q = r_id r"
  by (simp_all add: sync_runs_table_def)

lemma keeps_record [keeps_intros]:
  "keeps same_tx (record_sync_run e v a b t st f g x)" "keeps (confined u) (record_sync_run e v a b t st f g x)"
  unfolding record_sync_run_def by (intro keeps_intros)+

definition run_row ::
    "uuid \<Rightarrow> uuid \<Rightarrow> datetime \<Rightarrow> datetime \<Rightarrow> sync_trigger \<Rightarrow> sync_status \<Rightarrow> int option \<Rightarrow> int option \<Rightarrow>
     sync_error option \<Rightarrow> sync_run_row" where
  "run_row i u a b t v f g x = \<lparr>r_id = i, r_user_id = u, r_started_at = a, r_finished_at = b,
     r_trigger = sync_trigger_value t, r_status = sync_status_value v, r_fills_landed = f,
     r_broker_transactions_landed = g, r_error_code = map_option sync_error_value x\<rparr>"

text \<open>The identifiers the database draws are new to the table.\<close>

definition new_run_ids :: "env \<Rightarrow> nat \<Rightarrow> db \<Rightarrow> bool" where
  "new_run_ids e i d \<longleftrightarrow> (\<forall>n \<ge> i. \<not> list_ex (\<lambda>q. r_id q = gen_uuid e n) (t_sync_runs d))"

lemma new_run_ids_later: "new_run_ids e n d \<Longrightarrow> n \<le> m \<Longrightarrow> new_run_ids e m d"
  by (auto simp: new_run_ids_def)

lemma record_sync_run_as:
  assumes "as_user u s" "has_user (s_db s) u" "new_run_ids e (s_draws s) (s_db s)"
    "pred_option int4 f" "pred_option int4 g"
  shows "record_sync_run e u a b t v f g x s = (Inr (), s\<lparr>s_draws := Suc (s_draws s),
    s_db := t_sync_runs_update (\<lambda>rs. rs @ [run_row (gen_uuid e (s_draws s)) u a b t v f g x]) (s_db s)\<rparr>)"
proof -
  let ?row = "run_row (gen_uuid e (s_draws s)) u a b t v f g x"
  let ?s = "s\<lparr>s_draws := Suc (s_draws s)\<rparr>"
  have i: "as_user u ?s" using assms(1) by simp
  have c: "sync_run_row_check ?row = None"
    using assms(4,5) by (cases t; cases v) (simp_all add: sync_run_row_check_def run_row_def
        sync_trigger_value_def sync_status_value_def)
  have "ins sync_runs_table ?row ?s = (Inr (), ?s\<lparr>s_db := t_sync_runs_update (\<lambda>_. t_sync_runs (s_db s) @ [?row]) (s_db s)\<rparr>)"
    using runs_tb.ins_as [OF i, of ?row] c assms(2,3) by (simp add: run_row_def new_run_ids_def)
  then show ?thesis
    by (simp add: record_sync_run_def op_run draw_uuid_def run_row_def)
qed

definition run_record_of_row ::
    "uuid \<Rightarrow> uuid \<Rightarrow> datetime \<Rightarrow> datetime \<Rightarrow> sync_trigger \<Rightarrow> sync_status \<Rightarrow> int option \<Rightarrow> int option \<Rightarrow>
     sync_error option \<Rightarrow> sync_run_record" where
  "run_record_of_row i u a b t v f g x = \<lparr>rr_id = i, rr_user_id = u, rr_started_at = a, rr_finished_at = b,
     rr_trigger = t, rr_status = v, rr_fills_landed = f, rr_broker_transactions_landed = g, rr_error_code = x\<rparr>"

lemma sync_run_record_of_row:
  "sync_run_record_of (run_row i u a b t v f g x) s = (Inr (run_record_of_row i u a b t v f g x), s)"
  by (cases x) (simp_all add: sync_run_record_of_def run_row_def run_record_of_row_def op_run)

lemma first_of_sort_key:
  assumes "\<forall>y \<in> set xs. k x < (k y :: int)"
  shows "take 1 (sort_key k (xs @ [x])) = [x]"
proof -
  obtain y ys where y: "sort_key k (xs @ [x]) = y # ys"
    by (cases "sort_key k (xs @ [x])") (auto dest: arg_cong [where f = length])
  have "sorted (map k (y # ys))" unfolding y [symmetric] by simp
  moreover have "set (y # ys) = set (xs @ [x])" unfolding y [symmetric] by simp
  then have "x \<in> set (y # ys)" "y \<in> set (xs @ [x])" by auto
  ultimately have "k y \<le> k x" by auto
  with assms \<open>y \<in> set (xs @ [x])\<close> have "y = x" by auto
  with y show ?thesis by simp
qed

text \<open>
  A recorded run is what the next read shows first. After \<open>record_sync_run\<close> for a run started later
  than all of the user's earlier ones, asking for the latest run gives exactly that run, with its
  trigger, status, counts (absent counts stay absent) and error code read back as recorded.
\<close>

theorem record_then_read_runs:
  assumes "as_user u s" "has_user (s_db s) u" "new_run_ids e (s_draws s) (s_db s)"
    "pred_option int4 f" "pred_option int4 g"
    "\<forall>q \<in> set (t_sync_runs (s_db s)). r_user_id q = u \<longrightarrow> r_started_at q < a"
  shows "\<exists>i s'. record_sync_run e u a b t v f g x s = (Inr (), s') \<and>
    read_sync_runs u 1 s' = (Inr [run_record_of_row i u a b t v f g x], s')"
proof -
  let ?row = "run_row (gen_uuid e (s_draws s)) u a b t v f g x"
  let ?s = "s\<lparr>s_draws := Suc (s_draws s), s_db := t_sync_runs_update (\<lambda>rs. rs @ [?row]) (s_db s)\<rparr>"
  let ?own = "filter (\<lambda>r. r_user_id r = u) (t_sync_runs (s_db s))"
  have i: "as_user u ?s" using assms(1) by simp
  have u: "r_user_id ?row = u" "r_started_at ?row = a" by (simp_all add: run_row_def)
  have "sel sync_runs_table (\<lambda>r. r_user_id r = u) ?s = (Inr (?own @ [?row]), ?s)"
    using runs_tb.sel_as [OF i, of "\<lambda>r. r_user_id r = u"] u by simp
  moreover have "take 1 (sort_key (\<lambda>r. - r_started_at r) (?own @ [?row])) = [?row]"
    by (rule first_of_sort_key) (use assms(6) u in auto)
  ultimately have "read_sync_runs u 1 ?s =
      (Inr [run_record_of_row (gen_uuid e (s_draws s)) u a b t v f g x], ?s)"
    unfolding read_sync_runs_def
    by (simp add: op_run sync_run_record_of_row del: take_Suc_Cons)
  with record_sync_run_as [OF assms(1-5)] show ?thesis by blast
qed

lemma demo_new_run_ids [simp]: "new_run_ids e n demo_db"
  by (simp add: new_run_ids_def demo_db_def empty_db_def)

theorem record_then_read_runs_witness:
  "\<exists>i s'. record_sync_run demo_env demo_user 5 6 Manual Failed None None (Some ErrUnknown) demo_sess = (Inr (), s') \<and>
    read_sync_runs demo_user 1 s' =
      (Inr [run_record_of_row i demo_user 5 6 Manual Failed None None (Some ErrUnknown)], s')"
proof -
  have "\<forall>q \<in> set (t_sync_runs (s_db demo_sess)). r_user_id q = demo_user \<longrightarrow> r_started_at q < 5"
    by (simp add: demo_db_def empty_db_def)
  then show ?thesis by (intro record_then_read_runs) simp_all
qed


section \<open>What reaches the classification\<close>

text \<open>
  A refused vendor call is not classified as one. The adapter reads a response's body whatever its
  status, so an answer of 401, 403 or 429 whose body is a JSON object fails validation like any
  malformed payload: the window raises \<open>ValidationError\<close>, and the run is recorded as an unparseable
  payload, never as failed authorisation or a rate limit.
\<close>

theorem http_error_is_unparseable:
  assumes "lib_transactions (sa_lib auth) n (holder_read h) account_hash start until =
    (Inr \<lparr>rs_status = status_code, rs_json = Some (JObj kvs)\<rparr>, written)"
  shows "\<exists>x. sync_window e auth u account_hash n (start, until) (out, h) s = (Inl x, s) \<and>
    classify_sync_error x = ErrVendorPayloadUnparseable"
  using assms
  by (simp add: sync_window_def get_transactions_def response_json_def validate_response_def op_run
      classify_sync_error_def)

definition unauthorized_auth :: schwab_auth where
  "unauthorized_auth = \<lparr>sa_credentials = \<lparr>sc_api_key = ''k'', sc_app_secret = ''s'', sc_callback_url = ''u''\<rparr>,
     sa_lib = \<lparr>lib_auth_context = (\<lambda>k c t. t), lib_received_url = (\<lambda>c t u. (Inr (), [])),
       lib_access_functions = (\<lambda>c j. (Inr (), [])), lib_account_numbers = Inl RuntimeError,
       lib_transactions = (\<lambda>n j h a b. (Inr \<lparr>rs_status = 401,
         rs_json = Some (JObj [(''message'', JStr ''Unauthorized'')])\<rparr>, []))\<rparr>\<rparr>"

theorem http_error_is_unparseable_witness:
  "\<exists>x. sync_window demo_env unauthorized_auth demo_user ''hash'' 0 (0, 1) (no_outcome, holder_init JNull) demo_sess =
      (Inl x, demo_sess) \<and> classify_sync_error x = ErrVendorPayloadUnparseable"
  by (rule http_error_is_unparseable) (simp add: unauthorized_auth_def)

end
