(* ===== verification/Routes_Connections.thy ===== *)
theory Routes_Connections
  imports Settings_Values Routes_Identity Sync_Runs Connection_Laws Schwab_Sync
begin

text \<open>
  \<open>api/routes_connections.py\<close> and \<open>api/job_queue.py\<close>: connecting a broker account and asking for a sync.
  The adapter is built by the dependency \<open>get_schwab_auth\<close> from the settings and the vendor library.
\<close>

definition oauth_state_ttl :: timedelta where "oauth_state_ttl = td_days 1 div 96"
definition sync_runs_limit :: nat where "sync_runs_limit = 50"

definition connect :: "env \<Rightarrow> settings \<Rightarrow> schwab_lib \<Rightarrow> string option \<Rightarrow> datetime \<Rightarrow> datetime \<Rightarrow> string op" where
  "connect e st lib cookie now later =
     op_bind (get_current_user e cookie now) (\<lambda>user.
     op_bind (op_from (get_schwab_auth st lib)) (\<lambda>auth.
     op_bind (issue_token e (au_user_id user) OauthState oauth_state_ttl later) (\<lambda>raw_state.
     op_seq commit (ret (build_authorize_url auth raw_state)))))"

text \<open>The write of the callback, in the context of the user the state named.\<close>

definition store_callback :: "env \<Rightarrow> schwab_auth \<Rightarrow> string \<Rightarrow> string \<Rightarrow> uuid \<Rightarrow> unit op" where
  "store_callback e auth url state user_id =
     op_bind require_rls_context (\<lambda>_.
     op_bind (op_from (exchange_callback e auth url state)) (\<lambda>exchanged_token.
     op_bind (op_from (get_account_numbers auth)) (\<lambda>account_entries.
     (case account_entries of
        [entry] \<Rightarrow> upsert_connection e user_id exchanged_token (an_hash_value entry)
      | _ \<Rightarrow> raise (HTTPException 409 ''Conflict'')))))"

definition callback :: "env \<Rightarrow> settings \<Rightarrow> schwab_lib \<Rightarrow> datetime \<Rightarrow> string \<Rightarrow> string \<Rightarrow> unit op" where
  "callback e st lib now url state =
     op_bind (op_from (get_schwab_auth st lib)) (\<lambda>auth.
     op_bind (consume_token e state OauthState now) (\<lambda>user_id.
     (case user_id of
        None \<Rightarrow> raise (HTTPException 400 ''Bad Request'')
      | Some user_id \<Rightarrow>
          op_seq (set_current_user (uuid_str user_id))
          (op_seq (store_callback e auth url state user_id) commit))))"

record connection_response =
  cn_health :: string
  cn_expires_at :: datetime
  cn_last_synced_at :: "datetime option"
  cn_reauth_notified_at :: "datetime option"

definition connection :: "env \<Rightarrow> string option \<Rightarrow> datetime \<Rightarrow> datetime \<Rightarrow> connection_response op" where
  "connection e cookie now later =
     op_bind (get_current_user e cookie now) (\<lambda>user.
     op_bind (read_connection e (au_user_id user)) (\<lambda>found.
     (case found of
        None \<Rightarrow> raise (HTTPException 404 ''not found'')
      | Some c \<Rightarrow>
          (let (health, expires_at) = derive_connection_health (cr_token_created_at c) later
           in ret \<lparr>cn_health = connection_health_value health, cn_expires_at = expires_at,
             cn_last_synced_at = cr_last_synced_at c, cn_reauth_notified_at = cr_reauth_notified_at c\<rparr>))))"

definition defer_manual_sync :: "uuid \<Rightarrow> unit op" where
  "defer_manual_sync user_id = defer_async \<lparr>j_task = ''sync_user'', j_user_id = uuid_str user_id,
     j_trigger = Some (sync_trigger_value Manual)\<rparr>"

definition sync :: "env \<Rightarrow> settings \<Rightarrow> string option \<Rightarrow> datetime \<Rightarrow> datetime \<Rightarrow> unit op" where
  "sync e st cookie now later =
     op_bind (get_current_user e cookie now) (\<lambda>user.
     op_bind (read_connection e (au_user_id user)) (\<lambda>found.
     (case found of
        None \<Rightarrow> raise (HTTPException 404 ''not found'')
      | Some _ \<Rightarrow>
          op_bind (read_sync_runs (au_user_id user) 1) (\<lambda>recent.
          if list_ex (\<lambda>run. later - rr_started_at run < schwab_sync_cooldown_seconds st * 1000000) recent
          then raise (HTTPException 429 ''cooldown active'')
          else defer_manual_sync (au_user_id user)))))"

record sync_run_response =
  sr_started_at :: datetime
  sr_finished_at :: datetime
  sr_trigger :: string
  sr_status :: string
  sr_fills_landed :: "int option"
  sr_broker_transactions_landed :: "int option"
  sr_error_code :: "string option"

definition sync_run_response_of :: "sync_run_record \<Rightarrow> sync_run_response" where
  "sync_run_response_of run = \<lparr>sr_started_at = rr_started_at run, sr_finished_at = rr_finished_at run,
     sr_trigger = sync_trigger_value (rr_trigger run), sr_status = sync_status_value (rr_status run),
     sr_fills_landed = rr_fills_landed run,
     sr_broker_transactions_landed = rr_broker_transactions_landed run,
     sr_error_code = map_option sync_error_value (rr_error_code run)\<rparr>"

definition sync_runs :: "env \<Rightarrow> string option \<Rightarrow> datetime \<Rightarrow> sync_run_response list op" where
  "sync_runs e cookie now =
     op_bind (get_current_user e cookie now) (\<lambda>user.
     op_bind (read_sync_runs (au_user_id user) sync_runs_limit) (\<lambda>records.
     ret (map sync_run_response_of records)))"

end
