(* ===== verification/Identity_Laws.thy ===== *)
theory Identity_Laws
  imports Routes_Identity
begin

text \<open>
  The account routes as functions: what each answers and commits, from the sessions, tokens and users
  that are stored. identity_ok collects what the unique constraints and foreign keys of the schema give.
\<close>

definition identity_ok :: "db \<Rightarrow> bool" where
  "identity_ok d \<longleftrightarrow> sessions_distinct d \<and> tokens_distinct d \<and> users_ok d \<and>
     list_all (\<lambda>r. has_user d (st_user_id r)) (t_setup_tokens d)"

lemma identity_okD:
  assumes "identity_ok d"
  shows "sessions_distinct d" "tokens_distinct d" "users_ok d" "distinct (map u_id (t_users d))"
    "distinct (map u_username (t_users d))"
  using assms by (simp_all add: identity_ok_def users_ok_def)

lemma find_SomeD: "find P xs = Some x \<Longrightarrow> x \<in> set xs \<and> P x"
  by (auto simp: find_Some_iff)

lemma has_user_iff: "has_user d u \<longleftrightarrow> u \<in> set (map u_id (t_users d))"
  by (auto simp: has_user_def list_ex_iff)

text \<open>A request's session.\<close>

definition request :: "server \<Rightarrow> sess" where
  "request sv = new_session App (sv_db sv) (sv_draws sv)"

lemma request_simps [simp]:
  "live (request sv)" "s_db (request sv) = sv_db sv" "s_committed (request sv) = sv_db sv"
  "s_draws (request sv) = sv_draws sv"
  by (simp_all add: request_def new_session_def live_def)

lemma with_request:
  "with_session App m sv = (let (x, s) = m (request sv) in (x, \<lparr>sv_db = s_committed s, sv_draws = s_draws s\<rparr>))"
  by (simp add: with_session_def request_def)

text \<open>The dependency, once the cookie names a user.\<close>

lemma get_current_user_in:
  assumes "identity_ok (s_db s)" "live s" "logged_in e (s_db s) token now = Some u" "user_in (s_db s) u = Some r"
  shows "get_current_user e (Some token) now s =
    (Inr \<lparr>au_user_id = u, au_is_admin = u_is_admin r\<rparr>, as_caller r s)"
  using assms(3,4) by (simp add: get_current_user_run [OF assms(2) identity_okD(1,3) [OF assms(1)]])

lemma user_in_id: "identity_ok d \<Longrightarrow> user_in d u = Some r \<Longrightarrow> u_id r = u \<and> r \<in> set (t_users d)"
  using user_in_Some identity_okD(4) by blast

text \<open>A caller is a stored user.\<close>

lemma logged_in_user:
  assumes "identity_ok d" "logged_in e d token now = Some u"
  obtains r where "user_in d u = Some r" "u_id r = u"
proof -
  from assms(2) obtain row where "row \<in> set (t_sessions d)" "ss_user_id row = u"
    by (auto simp: logged_in_def dest: find_SomeD)
  then have "has_user d u" using assms(1) by (auto simp: identity_ok_def users_ok_def list_all_iff)
  then obtain r where "user_in d u = Some r" using has_user_in identity_okD(4) [OF assms(1)] by blast
  with user_in_id [OF assms(1) this] that show ?thesis by blast
qed


section \<open>Positions\<close>

definition positions_distinct :: "db \<Rightarrow> bool" where
  "positions_distinct d \<longleftrightarrow> distinct (map p_id (t_positions d))"

lemma sel_positions_as:
  assumes "as_user u s"
  shows "sel positions_table P s = (Inr (filter (\<lambda>r. p_user_id r = u \<and> P r) (t_positions (s_db s))), s)"
  using positions_tb.sel_as [OF assms] by (simp add: positions_table_def)

lemma positions_law:
  assumes "identity_ok (sv_db sv)" "positions_distinct (sv_db sv)"
  shows "with_session App (list_positions e cookie now) sv =
      ((case Option.bind cookie (\<lambda>token. logged_in e (sv_db sv) token now) of
          None \<Rightarrow> Inl (HTTPException 401 ''not authenticated'')
        | Some u \<Rightarrow> Inr (map position_response_of (filter (\<lambda>r. p_user_id r = u) (t_positions (sv_db sv))))), sv) \<and>
    with_session App (get_position e cookie now pid) sv =
      ((case Option.bind cookie (\<lambda>token. logged_in e (sv_db sv) token now) of
          None \<Rightarrow> Inl (HTTPException 401 ''not authenticated'')
        | Some u \<Rightarrow> (case find (\<lambda>r. p_user_id r = u \<and> p_id r = pid) (t_positions (sv_db sv)) of
            None \<Rightarrow> Inl (HTTPException 404 ''not found'') | Some r \<Rightarrow> Inr (position_response_of r))), sv)"
proof (cases "Option.bind cookie (\<lambda>token. logged_in e (sv_db sv) token now)")
  case None
  then have "get_current_user e cookie now (request sv) =
      (Inl (HTTPException 401 ''not authenticated''), request sv)"
    using get_current_user_run [of "request sv" e cookie now] identity_okD [OF assms(1)] by simp
  with None show ?thesis by (simp add: with_request list_positions_def get_position_def op_bind_def)
next
  case (Some u)
  then obtain token where c: "cookie = Some token" "logged_in e (sv_db sv) token now = Some u"
    by (auto simp: bind_eq_Some_conv)
  obtain r where r: "user_in (sv_db sv) u = Some r" "u_id r = u" by (rule logged_in_user [OF assms(1) c(2)])
  let ?t = "as_caller r (request sv)"
  have g: "get_current_user e cookie now (request sv) = (Inr \<lparr>au_user_id = u, au_is_admin = u_is_admin r\<rparr>, ?t)"
    using get_current_user_in [of "request sv"] assms(1) c r(1) by simp
  have a: "as_user u ?t" using as_caller_as_user [of "request sv" r] r(2) by simp
  have "filter (\<lambda>q. p_user_id q = u \<and> p_id q = pid) (t_positions (sv_db sv)) =
      (case find (\<lambda>q. p_user_id q = u \<and> p_id q = pid) (t_positions (sv_db sv)) of None \<Rightarrow> [] | Some x \<Rightarrow> [x])"
    using assms(2) unfolding positions_distinct_def by (rule filter_key_find) simp
  with Some show ?thesis
    by (simp add: with_request list_positions_def get_position_def op_bind_def g sel_positions_as [OF a]
        one_or_none_def ret_def raise_def split: option.split)
qed


text \<open>
  C24: The position routes show the caller's rows and no others. With no user in their queries, the list
  is exactly the positions of the user the cookie names, in the order of the table, and asking for one position answers
  it when it is the caller's and \<open>404\<close> otherwise, whether the row is another user's or does not exist; a
  cookie that names nobody gets \<open>401\<close>. Neither route changes anything.
\<close>

theorem positions_isolated:
  assumes "identity_ok (sv_db sv)" "positions_distinct (sv_db sv)"
  shows "with_session App (list_positions e cookie now) sv =
      ((case Option.bind cookie (\<lambda>token. logged_in e (sv_db sv) token now) of
          None \<Rightarrow> Inl (HTTPException 401 ''not authenticated'')
        | Some u \<Rightarrow> Inr (map position_response_of (filter (\<lambda>r. p_user_id r = u) (t_positions (sv_db sv))))), sv) \<and>
    with_session App (get_position e cookie now pid) sv =
      ((case Option.bind cookie (\<lambda>token. logged_in e (sv_db sv) token now) of
          None \<Rightarrow> Inl (HTTPException 401 ''not authenticated'')
        | Some u \<Rightarrow> (case find (\<lambda>r. p_user_id r = u \<and> p_id r = pid) (t_positions (sv_db sv)) of
            None \<Rightarrow> Inl (HTTPException 404 ''not found'') | Some r \<Rightarrow> Inr (position_response_of r))), sv)"
  using assms by (rule positions_law)

section \<open>Passwords\<close>

definition set_password :: "uuid \<Rightarrow> string \<Rightarrow> db \<Rightarrow> db" where
  "set_password u h d = t_users_update (\<lambda>_. map (\<lambda>r. if u_id r = u then r\<lparr>u_password_hash := Some h\<rparr> else r)
     (t_users d)) d"

lemma set_password_keys:
  "map u_id (t_users (set_password u h d)) = map u_id (t_users d)"
  "map u_username (t_users (set_password u h d)) = map u_username (t_users d)"
  "t_sessions (set_password u h d) = t_sessions d" "t_setup_tokens (set_password u h d) = t_setup_tokens d"
  by (simp_all add: set_password_def o_def if_distrib [of u_id] if_distrib [of u_username] cong: if_cong)

lemma has_user_set_password [simp]: "has_user (set_password u h d) v = has_user d v"
  by (simp only: has_user_iff set_password_keys)

lemma identity_ok_set_password [simp]: "identity_ok (set_password u h d) = identity_ok d"
  by (simp add: identity_ok_def sessions_distinct_def tokens_distinct_def users_ok_def set_password_keys)

lemma user_in_set_password:
  assumes "identity_ok d" "user_in d u = Some r"
  shows "user_in (set_password u h d) u = Some (r\<lparr>u_password_hash := Some h\<rparr>)"
proof -
  have "identity_ok (set_password u h d)" using assms(1) by simp
  moreover have "r\<lparr>u_password_hash := Some h\<rparr> \<in> set (t_users (set_password u h d))"
    using user_in_id [OF assms] by (force simp: set_password_def)
  ultimately show ?thesis
    using user_in_id [OF assms] by (simp add: user_in_Some identity_okD)
qed

lemma upd_password:
  assumes "as_user u s" "user_in (s_db s) u = Some r"
  shows "upd users_table (\<lambda>r. u_id r = u) (\<lambda>r. r\<lparr>u_password_hash := Some h\<rparr>) s =
    (Inr 1, s\<lparr>s_db := set_password u h (s_db s)\<rparr>)"
  using upd_user_as [OF assms(1), of "\<lambda>r. r\<lparr>u_password_hash := Some h\<rparr>"] filter_user [OF assms(2)]
  by (simp add: set_password_def)

lemma without_token_keeps:
  "t_users (without_token e raw p now d) = t_users d" "t_sessions (without_token e raw p now d) = t_sessions d"
  "has_user (without_token e raw p now d) u = has_user d u" "user_in (without_token e raw p now d) u = user_in d u"
  by (simp_all add: without_token_def has_user_def user_in_def)

lemma identity_ok_without_token: "identity_ok d \<Longrightarrow> identity_ok (without_token e raw p now d)"
  by (auto simp: identity_ok_def sessions_distinct_def tokens_distinct_def users_ok_def without_token_keeps
      list_all_iff) (simp_all add: without_token_def distinct_map_filter)

end
