(* ===== verification/Identity_Promises.thy ===== *)
theory Identity_Promises
  imports Identity_Laws
begin

text \<open>
  What the account routes promise across requests: a password set with a one-time token logs in, a login
  answers for its user until it expires or is logged out, and a refused login tells nothing.
\<close>

section \<open>Setting a password\<close>

definition setup_user :: "env \<Rightarrow> db \<Rightarrow> string \<Rightarrow> datetime \<Rightarrow> datetime \<Rightarrow> uuid option" where
  "setup_user e d raw now later = (case token_user e d raw Setup now of
     Some u \<Rightarrow> Some u | None \<Rightarrow> token_user e d raw PasswordReset later)"

text \<open>The database after the token is gone, whichever of the two purposes it had.\<close>

definition without_setup :: "env \<Rightarrow> string \<Rightarrow> datetime \<Rightarrow> datetime \<Rightarrow> db \<Rightarrow> db" where
  "without_setup e raw now later d = (case token_user e d raw Setup now of
     Some u \<Rightarrow> without_token e raw Setup now d | None \<Rightarrow> without_token e raw PasswordReset later d)"

lemma without_token_none: "token_user e d raw p now = None \<Longrightarrow> without_token e raw p now d = d"
proof -
  assume "token_user e d raw p now = None"
  then have "filter (\<lambda>r. \<not> usable e raw p now r) (t_setup_tokens d) = t_setup_tokens d"
    by (auto simp: token_user_def find_None_iff filter_id_conv)
  then show ?thesis by (cases d) (simp add: without_token_def)
qed

lemma without_setup_keeps:
  "t_users (without_setup e raw now later d) = t_users d" "t_sessions (without_setup e raw now later d) = t_sessions d"
  "user_in (without_setup e raw now later d) u = user_in d u"
  "identity_ok d \<Longrightarrow> identity_ok (without_setup e raw now later d)"
  by (auto simp: without_setup_def without_token_keeps identity_ok_without_token split: option.split)

lemma committed_again [simp]:
  "live s \<Longrightarrow> s_db (committed (committed s)\<lparr>s_db := d\<rparr>) = d"
  by simp

lemma setup_consumes:
  assumes "identity_ok (s_db s)" "live s"
  obtains t where "live t" "s_db t = without_setup e raw now later (s_db s)" "s_committed t = s_db t" "s_draws t = s_draws s"
    "op_bind (consume_token e raw Setup now) (\<lambda>first.
       op_bind (case first of Some u \<Rightarrow> ret (Some u) | None \<Rightarrow> consume_token e raw PasswordReset later) f) s =
     f (setup_user e (s_db s) raw now later) t"
proof (cases "token_user e (s_db s) raw Setup now")
  case (Some u)
  let ?t = "committed (s\<lparr>s_db := without_token e raw Setup now (s_db s)\<rparr>)"
  have "live ?t" using assms(2) by (simp add: live_def)
  with Some that [of ?t] show ?thesis
    by (simp add: op_bind_def consume_token_run [OF assms(2) identity_okD(2) [OF assms(1)]] ret_def
        setup_user_def without_setup_def)
next
  case None
  let ?s = "committed (s\<lparr>s_db := without_token e raw Setup now (s_db s)\<rparr>)"
  have d: "s_db ?s = s_db s" using without_token_none [OF None] by simp
  have l: "live ?s" using assms(2) by (simp add: live_def)
  have "tokens_distinct (s_db ?s)" using identity_okD(2) [OF assms(1)] d by simp
  note c = consume_token_run [OF l this, of e raw PasswordReset later]
  let ?t = "committed (?s\<lparr>s_db := without_token e raw PasswordReset later (s_db ?s)\<rparr>)"
  have "live ?t" using l by (simp add: live_def)
  moreover have "s_db ?t = without_setup e raw now later (s_db s)"
    unfolding committed_simps by (simp add: without_setup_def None d without_token_none)
  moreover have "op_bind (consume_token e raw Setup now) (\<lambda>first.
       op_bind (case first of Some u \<Rightarrow> ret (Some u) | None \<Rightarrow> consume_token e raw PasswordReset later) f) s =
     f (setup_user e (s_db s) raw now later) ?t"
    by (simp only: op_bind_def consume_token_run [OF assms(2) identity_okD(2) [OF assms(1)]] None c
        sum.case prod.case option.case setup_user_def d)
  ultimately show ?thesis by (intro that [of ?t]) simp_all
qed

lemma assign_password_run:
  assumes "live s" "user_in (s_db s) u = Some r"
  shows "op_seq (set_current_user (uuid_str u)) (op_bind require_rls_context (\<lambda>_.
     op_bind (hash_password e password) (\<lambda>password_hash.
     op_bind (upd users_table (\<lambda>r. u_id r = u) (\<lambda>r. r\<lparr>u_password_hash := Some password_hash\<rparr>)) (\<lambda>rowcount.
     if rowcount \<noteq> 1 then raise RuntimeError else commit)))) s =
   (Inr (), committed (s\<lparr>s_user_guc := Some (uuid_str u), s_draws := Suc (s_draws s),
     s_db := set_password u (argon2_hash e (s_draws s) password) (s_db s)\<rparr>))"
proof -
  let ?s = "s\<lparr>s_user_guc := Some (uuid_str u)\<rparr>"
  let ?t = "?s\<lparr>s_draws := Suc (s_draws s)\<rparr>"
  have "as_user u ?s" using as_user_set [OF assms(1)] by simp
  then have a: "as_user u ?t" and r: "require_rls_context ?s = (Inr u, ?s)"
    by (simp_all add: require_rls_context_as)
  have "upd users_table (\<lambda>r. u_id r = u) (\<lambda>r. r\<lparr>u_password_hash := Some h\<rparr>) ?t =
      (Inr 1, ?t\<lparr>s_db := set_password u h (s_db s)\<rparr>)" for h
    using upd_password [OF a, of r h] assms(2) by simp
  moreover have "commit (?t\<lparr>s_db := d\<rparr>) = (Inr (), committed (?t\<lparr>s_db := d\<rparr>))" for d
    using assms(1) by (intro commit_live) simp
  ultimately show ?thesis
    by (simp add: op_seq_def op_bind_def set_current_user_live [OF assms(1)] r hash_password_def)
qed

lemma setup_account_run:
  assumes "identity_ok (sv_db sv)" "12 \<le> code_points password" "setup_user e (sv_db sv) raw now later = Some u"
    "user_in (sv_db sv) u = Some r"
  shows "with_session App (setup_account e now later raw password) sv = (Inr (),
    \<lparr>sv_db = set_password u (argon2_hash e (sv_draws sv) password) (without_setup e raw now later (sv_db sv)),
     sv_draws = Suc (sv_draws sv)\<rparr>)"
proof -
  let ?f = "\<lambda>user_id. case user_id of None \<Rightarrow> raise (HTTPException 400 ''Bad Request'')
    | Some u \<Rightarrow> op_seq (set_current_user (uuid_str u)) (op_bind require_rls_context (\<lambda>_.
       op_bind (hash_password e password) (\<lambda>password_hash.
       op_bind (upd users_table (\<lambda>r. u_id r = u) (\<lambda>r. r\<lparr>u_password_hash := Some password_hash\<rparr>)) (\<lambda>rowcount.
       if rowcount \<noteq> 1 then raise RuntimeError else commit))))"
  have i: "identity_ok (s_db (request sv))" using assms(1) by simp
  obtain t where t: "live t" "s_db t = without_setup e raw now later (sv_db sv)" "s_draws t = sv_draws sv"
    "op_bind (consume_token e raw Setup now) (\<lambda>first.
       op_bind (case first of Some u \<Rightarrow> ret (Some u) | None \<Rightarrow> consume_token e raw PasswordReset later) ?f) (request sv) =
     ?f (setup_user e (sv_db sv) raw now later) t"
    by (rule setup_consumes [OF i, of e raw now later ?f]) simp_all
  have "user_in (s_db t) u = Some r" using assms(4) by (simp add: t(2) without_setup_keeps)
  note p = assign_password_run [OF t(1) this, of e password]
  have "setup_account e now later raw password (request sv) = ?f (Some u) t"
    using assms(2) by (simp only: setup_account_def t(4) assms(3) not_less [symmetric] if_False)
  also have "\<dots> = (Inr (), committed (t\<lparr>s_user_guc := Some (uuid_str u), s_draws := Suc (s_draws t),
     s_db := set_password u (argon2_hash e (s_draws t) password) (s_db t)\<rparr>))"
    unfolding option.case by (rule p)
  finally show ?thesis by (simp add: with_request t(2,3))
qed


section \<open>Logging in\<close>

definition user_named :: "db \<Rightarrow> string \<Rightarrow> user_row option" where
  "user_named d name = find (\<lambda>r. u_username r = name) (t_users d)"

text \<open>The stored hash the password verifies against.\<close>

definition proves :: "env \<Rightarrow> db \<Rightarrow> string \<Rightarrow> string \<Rightarrow> (uuid \<times> string) option" where
  "proves e d name password = (case user_named d name of None \<Rightarrow> None
     | Some r \<Rightarrow> (case u_password_hash r of None \<Rightarrow> None
       | Some h \<Rightarrow> if verify_password e h password then Some (u_id r, h) else None))"

lemma login_lookup_run:
  assumes "live s" "identity_ok (s_db s)"
  shows "op_bind (login_lookup name) one_or_none s =
    (Inr (map_option (\<lambda>r. (u_id r, u_password_hash r)) (user_named (s_db s) name)), s)"
proof -
  have f: "filter (\<lambda>r. u_username r = name) (t_users (s_db s)) = (case user_named (s_db s) name of
      None \<Rightarrow> [] | Some x \<Rightarrow> [x])"
    unfolding user_named_def by (rule filter_key_find [OF identity_okD(5) [OF assms(2)]]) simp
  show ?thesis using assms(1)
    by (simp add: op_bind_def login_lookup_def live_def f one_or_none_def ret_def split: option.split)
qed

lemma login_bind:
  "op_bind (login_lookup name) (\<lambda>rows. op_bind (one_or_none rows) f) = op_bind (op_bind (login_lookup name) one_or_none) f"
  by (auto simp: op_bind_def fun_eq_iff split: prod.split sum.split)

text \<open>
  A refused login tells nothing. Whether the name is unknown, the account was never set up or the
  password is wrong, the answer is the same \<open>401\<close> and the server's data are as they were: the three cases
  cannot be told apart by answer or effect.
\<close>

theorem login_refused:
  assumes "identity_ok (sv_db sv)" "proves e (sv_db sv) name password = None"
  shows "with_session App (login e dummy now name password) sv = (Inl (HTTPException 401 ''invalid credentials''), sv)"
proof -
  have i: "identity_ok (s_db (request sv))" using assms(1) by simp
  show ?thesis
    using assms(2) login_lookup_run [OF _ i, of name]
    by (auto simp: with_request login_def login_bind op_bind_def [of "op_bind (login_lookup name) one_or_none"]
        proves_def reject_login_def op_run split: option.splits if_splits)
qed

definition session_row_of :: "env \<Rightarrow> nat \<Rightarrow> uuid \<Rightarrow> datetime \<Rightarrow> session_row" where
  "session_row_of e n u expires_at = \<lparr>ss_id = gen_uuid e (Suc n),
     ss_token_hash = hash_token e (token_urlsafe (urandom e n 32)), ss_user_id = u, ss_expires_at = expires_at\<rparr>"

definition new_sessions :: "env \<Rightarrow> nat \<Rightarrow> db \<Rightarrow> bool" where
  "new_sessions e i d \<longleftrightarrow> (\<forall>n \<ge> i. \<not> list_ex (\<lambda>q. ss_id q = gen_uuid e n \<or>
     ss_token_hash q = hash_token e (token_urlsafe (urandom e n 32))) (t_sessions d))"

definition with_new_session :: "session_row \<Rightarrow> db \<Rightarrow> db" where
  "with_new_session r = t_sessions_update (\<lambda>rs. rs @ [r])"

lemma open_session_run:
  assumes "live s" "has_user (s_db s) u" "new_sessions e (s_draws s) (s_db s)"
  shows "op_bind (generate_token e) (\<lambda>raw_token. op_bind (draw_uuid e) (\<lambda>i.
     op_seq (ins sessions_table \<lparr>ss_id = i, ss_token_hash = hash_token e raw_token, ss_user_id = u,
       ss_expires_at = expires_at\<rparr>) (op_seq commit (ret raw_token)))) s =
   (Inr (token_urlsafe (urandom e (s_draws s) 32)), committed (s\<lparr>s_draws := s_draws s + 2,
      s_db := with_new_session (session_row_of e (s_draws s) u expires_at) (s_db s)\<rparr>))"
proof -
  let ?row = "session_row_of e (s_draws s) u expires_at"
  let ?s = "s\<lparr>s_draws := s_draws s + 2\<rparr>"
  have n: "ss_id q \<noteq> gen_uuid e (Suc (s_draws s))" "ss_token_hash q \<noteq> hash_token e (token_urlsafe (urandom e (s_draws s) 32))"
    if "q \<in> set (t_sessions (s_db s))" for q
    using assms(3) that by (auto simp: new_sessions_def list_ex_iff)
  have "\<not> list_ex (\<lambda>q. tb_clash sessions_table q ?row) (tb_rows sessions_table (s_db s))"
    by (auto simp: sessions_table_def list_ex_iff session_row_of_def dest: n)
  moreover have "tb_parents sessions_table (s_db s) ?row"
    using assms(2) by (simp add: sessions_table_def session_row_of_def)
  moreover have "live ?s" using assms(1) by simp
  ultimately have i: "ins sessions_table ?row ?s = (Inr (), ?s\<lparr>s_db := with_new_session ?row (s_db s)\<rparr>)"
    using sessions_tb.ins_live [of ?s ?row] by (simp add: sessions_table_def with_new_session_def)
  have "commit (?s\<lparr>s_db := d\<rparr>) = (Inr (), committed (?s\<lparr>s_db := d\<rparr>))" for d
    using assms(1) by (intro commit_live) simp
  with i show ?thesis
    by (simp add: op_bind_def op_seq_def generate_token_run draw_uuid_def ret_def session_row_of_def)
qed

lemma identity_ok_new_session:
  assumes "identity_ok d" "has_user d u" "new_sessions e n d"
  shows "identity_ok (with_new_session (session_row_of e n u x) d)"
proof -
  have "has_user (with_new_session r d) v = has_user d v" for r v
    by (simp add: with_new_session_def has_user_def)
  moreover have "hash_token e (token_urlsafe (urandom e n 32)) \<notin> ss_token_hash ` set (t_sessions d)"
  proof
    assume "hash_token e (token_urlsafe (urandom e n 32)) \<in> ss_token_hash ` set (t_sessions d)"
    then obtain q where "q \<in> set (t_sessions d)" "ss_token_hash q = hash_token e (token_urlsafe (urandom e n 32))"
      by auto
    with assms(3) show False by (auto simp: new_sessions_def list_ex_iff)
  qed
  ultimately show ?thesis using assms(1,2)
    by (auto simp: identity_ok_def sessions_distinct_def tokens_distinct_def users_ok_def
        with_new_session_def session_row_of_def)
qed

text \<open>The possible rehash leaves the users as they are, but for the hash.\<close>

lemma rehash_run:
  assumes "as_user u s" "user_in (s_db s) u = Some r"
  shows "\<exists>n d. (if b then op_bind (hash_password e password) (\<lambda>password_hash.
      op_bind (upd users_table (\<lambda>r. u_id r = u) (\<lambda>r. r\<lparr>u_password_hash := Some password_hash\<rparr>)) (\<lambda>rowcount.
      if rowcount \<noteq> 1 then raise RuntimeError else ret ())) else ret ()) s =
    (Inr (), s\<lparr>s_draws := n, s_db := d\<rparr>) \<and> s_draws s \<le> n \<and> (d = s_db s \<or> (\<exists>h. d = set_password u h (s_db s)))"
proof (cases b)
  case True
  let ?s = "s\<lparr>s_draws := Suc (s_draws s)\<rparr>"
  have "upd users_table (\<lambda>r. u_id r = u) (\<lambda>r. r\<lparr>u_password_hash := Some h\<rparr>) ?s =
      (Inr 1, ?s\<lparr>s_db := set_password u h (s_db s)\<rparr>)" for h
    using upd_password [of u ?s r h] assms by simp
  then show ?thesis using True
    by (intro exI [of _ "Suc (s_draws s)"] exI [of _ "set_password u (argon2_hash e (s_draws s) password) (s_db s)"])
      (auto simp: op_bind_def hash_password_def ret_def)
next
  case False
  then show ?thesis by (intro exI [of _ "s_draws s"] exI [of _ "s_db s"]) (simp add: ret_def)
qed

text \<open>A login that proves the password commits a session of the user, good for thirty days.\<close>

lemma login_run:
  assumes "identity_ok (sv_db sv)" "proves e (sv_db sv) name password = Some (u, h)" "new_sessions e (sv_draws sv) (sv_db sv)"
  shows "\<exists>n d. with_session App (login e dummy now name password) sv =
    (Inr (token_urlsafe (urandom e n 32)), \<lparr>sv_db = with_new_session
       (session_row_of e n u (now + session_cookie_ttl)) d, sv_draws = n + 2\<rparr>) \<and> sv_draws sv \<le> n \<and>
    (d = sv_db sv \<or> (\<exists>h. d = set_password u h (sv_db sv)))"
proof -
  have i: "identity_ok (s_db (request sv))" using assms(1) by simp
  from assms(2) obtain r where r: "user_named (sv_db sv) name = Some r" "u_password_hash r = Some h"
    "verify_password e h password" "u_id r = u" by (auto simp: proves_def split: option.splits if_splits)
  then have m: "r \<in> set (t_users (sv_db sv))" by (auto simp: user_named_def dest: find_SomeD)
  then have ui: "user_in (sv_db sv) u = Some r" using assms(1) r(4) by (simp add: user_in_Some identity_okD)
  have hu: "has_user (sv_db sv) u" using m r(4) by (auto simp: has_user_iff)
  let ?s = "(request sv)\<lparr>s_user_guc := Some (uuid_str u)\<rparr>"
  have a: "as_user u ?s" using as_user_set [of "request sv" u] by simp
  obtain n d where re: "(if needs_rehash e h then op_bind (hash_password e password) (\<lambda>password_hash.
      op_bind (upd users_table (\<lambda>r. u_id r = u) (\<lambda>r. r\<lparr>u_password_hash := Some password_hash\<rparr>)) (\<lambda>rowcount.
      if rowcount \<noteq> 1 then raise RuntimeError else ret ())) else ret ()) ?s = (Inr (), ?s\<lparr>s_draws := n, s_db := d\<rparr>)"
    and d: "d = sv_db sv \<or> (\<exists>h. d = set_password u h (sv_db sv))" and n: "sv_draws sv \<le> n"
    using rehash_run [OF a, of r "needs_rehash e h" e password] ui by auto
  let ?t = "?s\<lparr>s_draws := n, s_db := d\<rparr>"
  have "has_user d u" "new_sessions e n d"
    using d hu n assms(3) by (auto simp: new_sessions_def set_password_keys)
  then have o: "op_bind (generate_token e) (\<lambda>raw_token. op_bind (draw_uuid e) (\<lambda>i.
     op_seq (ins sessions_table \<lparr>ss_id = i, ss_token_hash = hash_token e raw_token, ss_user_id = u,
       ss_expires_at = now + session_cookie_ttl\<rparr>) (op_seq commit (ret raw_token)))) ?t =
   (Inr (token_urlsafe (urandom e n 32)), committed (?t\<lparr>s_draws := n + 2,
      s_db := with_new_session (session_row_of e n u (now + session_cookie_ttl)) d\<rparr>))"
    using open_session_run [of ?t u e] by simp
  have "login e dummy now name password (request sv) = (Inr (token_urlsafe (urandom e n 32)), committed (?t\<lparr>s_draws := n + 2,
      s_db := with_new_session (session_row_of e n u (now + session_cookie_ttl)) d\<rparr>))"
    using login_lookup_run [OF _ i, of name] r
    by (simp add: login_def login_bind op_bind_def [of "op_bind (login_lookup name) one_or_none"]
        op_seq_def op_bind_def [of "set_current_user (uuid_str u)"] set_current_user_live
        op_bind_def [of "if needs_rehash e h then _ else _"] re o [unfolded op_seq_def])
  then show ?thesis using d n by (auto simp: with_request)
qed


section \<open>The session that follows\<close>

lemma me_run:
  assumes "identity_ok (sv_db sv)" "user_in (sv_db sv) u = Some r" "logged_in e (sv_db sv) token now = Some u"
  shows "with_session App (me e (Some token) now) sv =
    (Inr \<lparr>me_user_id = u, me_username = u_username r, me_is_admin = u_is_admin r\<rparr>, sv)"
proof -
  have g: "get_current_user e (Some token) now (request sv) =
      (Inr \<lparr>au_user_id = u, au_is_admin = u_is_admin r\<rparr>, as_caller r (request sv))"
    using get_current_user_in [of "request sv"] assms by simp
  have i: "u_id r = u" using user_in_id assms(1,2) by blast
  have a: "as_user u (as_caller r (request sv))" using as_caller_as_user [of "request sv" r] i by simp
  have "sel users_table (\<lambda>r. u_id r = u) (as_caller r (request sv)) = (Inr [r], as_caller r (request sv))"
    using sel_own_user [OF a] assms(2) by simp
  with g i show ?thesis by (simp add: with_request me_def op_bind_def one_def ret_def)
qed

lemma me_refused:
  assumes "identity_ok (sv_db sv)" "logged_in e (sv_db sv) token now = None"
  shows "with_session App (me e (Some token) now) sv = (Inl (HTTPException 401 ''not authenticated''), sv)"
  using get_current_user_run [of "request sv" e "Some token" now] identity_okD [OF assms(1)] assms(2)
  by (simp add: with_request me_def op_bind_def)

lemma logged_in_new:
  assumes "new_sessions e n d"
  shows "logged_in e (with_new_session (session_row_of e n u x) d) (token_urlsafe (urandom e n 32)) t =
    (if t < x then Some u else None)"
proof -
  let ?P = "\<lambda>r. ss_token_hash r = hash_token e (token_urlsafe (urandom e n 32)) \<and> ss_expires_at r > t"
  have "find ?P (t_sessions d) = None"
    using assms by (auto simp: find_None_iff new_sessions_def list_ex_iff)
  moreover have "find P (xs @ ys) = (case find P xs of None \<Rightarrow> find P ys | Some y \<Rightarrow> Some y)"
    for P and xs ys :: "session_row list" by (induction xs) simp_all
  ultimately show ?thesis by (simp add: logged_in_def with_new_session_def session_row_of_def)
qed

lemma user_named_Some:
  assumes "identity_ok d" "r \<in> set (t_users d)"
  shows "user_named d (u_username r) = Some r"
proof -
  from assms(2) obtain q where q: "user_named d (u_username r) = Some q"
    by (cases "user_named d (u_username r)") (auto simp: user_named_def find_None_iff)
  then have "q \<in> set (t_users d)" "u_username q = u_username r" by (auto simp: user_named_def dest: find_SomeD)
  with assms identity_okD(5) [OF assms(1)] have "q = r" by (metis distinct_map inj_onD)
  with q show ?thesis by simp
qed

text \<open>
  C21: A password set with a one-time token logs in. Posting a usable setup or reset token with a password
  of at least twelve characters succeeds; logging in with the user's name and that password then succeeds
  and returns a cookie; and with that cookie \<open>/me\<close> answers the user's own id, name and role until thirty
  days after the login, and \<open>401\<close> from that instant on.
\<close>

theorem setup_then_login:
  assumes "identity_ok (sv_db sv)" "argon2_correct e" "12 \<le> code_points password"
    "setup_user e (sv_db sv) raw now later = Some u" "user_in (sv_db sv) u = Some r" "new_sessions e (sv_draws sv) (sv_db sv)"
  shows "\<exists>sv1 cookie sv2. with_session App (setup_account e now later raw password) sv = (Inr (), sv1) \<and>
    with_session App (login e dummy at_login (u_username r) password) sv1 = (Inr cookie, sv2) \<and>
    (\<forall>t. with_session App (me e (Some cookie) t) sv2 =
       (if t < at_login + session_cookie_ttl
        then Inr \<lparr>me_user_id = u, me_username = u_username r, me_is_admin = u_is_admin r\<rparr>
        else Inl (HTTPException 401 ''not authenticated''), sv2))"
proof -
  let ?n = "sv_draws sv"
  let ?h = "argon2_hash e ?n password"
  have n: "with_session App (setup_account e now later raw password) sv = (Inr (),
    \<lparr>sv_db = set_password u ?h (without_setup e raw now later (sv_db sv)), sv_draws = Suc ?n\<rparr>)"
    by (rule setup_account_run [OF assms(1,3,4,5)])
  let ?d1 = "set_password u ?h (without_setup e raw now later (sv_db sv))"
  let ?sv1 = "\<lparr>sv_db = ?d1, sv_draws = Suc ?n\<rparr>"
  let ?r1 = "r\<lparr>u_password_hash := Some ?h\<rparr>"
  have ok1: "identity_ok (sv_db ?sv1)" using assms(1) by (simp add: without_setup_keeps)
  have r1: "user_in ?d1 u = Some ?r1"
    by (rule user_in_set_password) (use assms(1,5) in \<open>simp_all add: without_setup_keeps\<close>)
  have new1: "new_sessions e (sv_draws ?sv1) (sv_db ?sv1)" using assms(6) by (simp add: new_sessions_def set_password_keys without_setup_keeps)
  have "?r1 \<in> set (t_users ?d1)" "u_id ?r1 = u" using user_in_id [OF _ r1] ok1 by simp_all
  then have "proves e (sv_db ?sv1) (u_username r) password = Some (u, ?h)"
    using user_named_Some [of ?d1 ?r1] ok1 assms(2) by (simp add: proves_def verify_password_def argon2_correct_def)
  from login_run [OF ok1 this new1, of dummy at_login] obtain m d where
    l: "with_session App (login e dummy at_login (u_username r) password) ?sv1 = (Inr (token_urlsafe (urandom e m 32)),
      \<lparr>sv_db = with_new_session (session_row_of e m u (at_login + session_cookie_ttl)) d, sv_draws = m + 2\<rparr>)"
    and d: "d = ?d1 \<or> (\<exists>h. d = set_password u h ?d1)" and m: "Suc ?n \<le> m" by auto
  let ?d2 = "with_new_session (session_row_of e m u (at_login + session_cookie_ttl)) d"
  let ?sv2 = "\<lparr>sv_db = ?d2, sv_draws = m + 2\<rparr>"
  have dk: "identity_ok d" "new_sessions e m d" using d m ok1 new1 by (auto simp: new_sessions_def set_password_keys)
  obtain q where q: "user_in d u = Some q" "u_username q = u_username r" "u_is_admin q = u_is_admin r"
    using d r1 user_in_set_password [OF _ r1] ok1 by fastforce
  then have "has_user d u" using user_in_id [OF dk(1) q(1)] by (auto simp: has_user_iff)
  then have "identity_ok (sv_db ?sv2)" using identity_ok_new_session [OF dk(1) _ dk(2)] by simp
  moreover have "user_in (sv_db ?sv2) u = Some q" using q(1) by (simp add: with_new_session_def user_in_def)
  moreover have "logged_in e (sv_db ?sv2) (token_urlsafe (urandom e m 32)) t =
      (if t < at_login + session_cookie_ttl then Some u else None)" for t
    using logged_in_new [OF dk(2)] by simp
  ultimately have "with_session App (me e (Some (token_urlsafe (urandom e m 32))) t) ?sv2 =
      (if t < at_login + session_cookie_ttl
        then Inr \<lparr>me_user_id = u, me_username = u_username r, me_is_admin = u_is_admin r\<rparr>
        else Inl (HTTPException 401 ''not authenticated''), ?sv2)" for t
    using me_run [of ?sv2 u q e] me_refused [of ?sv2 e] q(2,3) by simp
  with n l show ?thesis by blast
qed

text \<open>
  Logging out revokes the cookie and only it. Once a logout has answered, no request with that cookie
  is let in, at whatever time, and every cookie of another hash lets in exactly whom it let in before.
\<close>

theorem logout_revokes:
  assumes "identity_ok (sv_db sv)" "with_session App (logout e (Some token) now) sv = (Inr (), sv')"
  shows "with_session App (me e (Some token) t) sv' = (Inl (HTTPException 401 ''not authenticated''), sv') \<and>
    (hash_token e token' \<noteq> hash_token e token \<longrightarrow>
       logged_in e (sv_db sv') token' t = logged_in e (sv_db sv) token' t)"
proof -
  obtain u r where ur: "logged_in e (sv_db sv) token now = Some u" "user_in (sv_db sv) u = Some r"
  proof (cases "logged_in e (sv_db sv) token now")
    case None
    then have "fst (with_session App (logout e (Some token) now) sv) = Inl (HTTPException 401 ''not authenticated'')"
      using get_current_user_run [of "request sv" e "Some token" now] identity_okD [OF assms(1)]
      by (simp add: with_request logout_def op_bind_def)
    with assms(2) show ?thesis by simp
  next
    case (Some u)
    with logged_in_user [OF assms(1) Some] that show ?thesis by blast
  qed
  let ?t = "as_caller r (request sv)"
  let ?d = "t_sessions_update (filter (\<lambda>r. ss_token_hash r \<noteq> hash_token e token)) (sv_db sv)"
  have g: "get_current_user e (Some token) now (request sv) =
      (Inr \<lparr>au_user_id = u, au_is_admin = u_is_admin r\<rparr>, ?t)"
    using get_current_user_in [of "request sv"] assms(1) ur by simp
  have l: "live ?t" by simp
  have del: "\<exists>n. del sessions_table (\<lambda>r. ss_token_hash r = hash_token e token) ?t = (Inr n, ?t\<lparr>s_db := ?d\<rparr>)"
    using sessions_tb.del_live [OF l] by (simp add: sessions_table_def)
  have "commit (?t\<lparr>s_db := ?d\<rparr>) = (Inr (), committed (?t\<lparr>s_db := ?d\<rparr>))" by (intro commit_live) simp
  with g del assms(2) have sv': "sv_db sv' = ?d"
    by (auto simp: with_request logout_def op_bind_def)
  have "identity_ok ?d"
    using assms(1) by (auto simp: identity_ok_def sessions_distinct_def tokens_distinct_def users_ok_def has_user_def
      distinct_map_filter list_all_iff)
  moreover have "logged_in e ?d token t = None" by (auto simp: logged_in_def find_None_iff)
  moreover have f: "find (\<lambda>r. ss_token_hash r = h \<and> t < ss_expires_at r) (filter (\<lambda>r. ss_token_hash r \<noteq> h') rs) =
      find (\<lambda>r. ss_token_hash r = h \<and> t < ss_expires_at r) rs" if "h \<noteq> h'" for h h' rs
    using that by (induction rs) auto
  note f [of "hash_token e token'" "hash_token e token" "t_sessions (sv_db sv)"]
  ultimately show ?thesis using me_refused [of sv' e token t] by (auto simp: sv' logged_in_def)
qed

end
