(* ===== verification/Connection_Promises.thy ===== *)
theory Connection_Promises
  imports Routes_Connections Identity_Promises
begin

text \<open>
  What the broker routes promise: the callback writes for the user its state names and for nobody else,
  whatever the vendor answers; connecting works end to end; and what a request for a sync puts in the queue.
\<close>

section \<open>The callback writes one user's connection\<close>

text \<open>Nothing but broker connections has changed.\<close>

definition no_connections :: "db \<Rightarrow> db" where
  "no_connections = t_schwab_connections_update (\<lambda>_. [])"

definition only_connections :: "sess \<Rightarrow> sess \<Rightarrow> bool" where
  "only_connections s t \<longleftrightarrow> no_connections (s_db t) = no_connections (s_db s)"

interpretation oc: session_relation only_connections
  by unfold_locales (auto simp: only_connections_def)

lemma keeps_oc_sel: "keeps only_connections (sel tb P)"
  by (auto simp: keeps_def only_connections_def sel_def stmt_def db_fail_def split: sum.split)

lemma keeps_oc_upsert: "keeps only_connections (ins_on_conflict_do_update schwab_connections_table r f)"
  by (auto simp: keeps_def only_connections_def ins_on_conflict_do_update_def stmt_def db_fail_def insert_row_def
      schwab_connections_table_def no_connections_def split: sum.split option.split)

lemma keeps_oc_draw: "keeps only_connections (draw e n)"
  by (simp add: keeps_def draw_def only_connections_def)

lemma keeps_oc_rls: "keeps only_connections require_rls_context"
  by (auto simp: keeps_def require_rls_context_def on_running_def op_run only_connections_def
      split: option.split)

lemma keeps_oc_crypto:
  "keeps only_connections (unwrap_dek e w n k)" "keeps only_connections (encrypt_field e p dek a)"
  unfolding unwrap_dek_def encrypt_field_def
  by (intro keeps_case_option oc.keeps_basic keeps_oc_draw)+

lemma keeps_oc_upsert_connection: "keeps only_connections (upsert_connection e u et ah)"
  unfolding upsert_connection_def connection_current_dek_eq current_dek_def connection_values_def
  by (intro oc.keeps_basic keeps_oc_sel keeps_oc_crypto keeps_oc_upsert keeps_case_prod)

lemma keeps_case_list:
  "keeps R m \<Longrightarrow> (\<And>x. keeps R (f x)) \<Longrightarrow> keeps R (case xs of [x] \<Rightarrow> f x | _ \<Rightarrow> m)"
  by (auto split: list.split)

lemma keeps_store_callback:
  "keeps same_tx (store_callback e auth url state v)" "keeps (confined u) (store_callback e auth url state v)"
  "keeps only_connections (store_callback e auth url state v)"
  unfolding store_callback_def
  by (intro keeps_case_list keeps_intros oc.keeps_basic keeps_oc_rls keeps_oc_upsert_connection)+

lemma commit_cases:
  "commit s = (if s_aborted s then (Inl PendingRollback, s) else (Inr (), committed s))"
  by (simp add: commit_def committed_def)

lemma callback_state:
  assumes "identity_ok (sv_db sv)" "get_schwab_auth st lib = Inr auth"
    "token_user e (sv_db sv) state OauthState now = Some u"
  obtains s where "callback e st lib now url state (request sv) =
      op_bind (store_callback e auth url state u) (\<lambda>_. commit) s"
    "as_user u s" "live s" "s_db s = without_token e state OauthState now (sv_db sv)" "s_committed s = s_db s"
    "s_draws s = sv_draws sv"
proof -
  let ?t = "committed ((request sv)\<lparr>s_db := without_token e state OauthState now (sv_db sv)\<rparr>)"
  have l: "live ?t" using request_simps(1) by (simp add: live_def)
  have c: "consume_token e state OauthState now (request sv) = (Inr (Some u), ?t)"
    using consume_token_run [of "request sv" e state OauthState now] identity_okD(2) [OF assms(1)] assms(3) by simp
  let ?s = "?t\<lparr>s_user_guc := Some (uuid_str u)\<rparr>"
  have "callback e st lib now url state (request sv) = op_bind (store_callback e auth url state u) (\<lambda>_. commit) ?s"
    using set_current_user_live [OF l, of "uuid_str u"]
    by (simp add: callback_def op_seq_def op_bind_def op_from_def assms(2) c)
  moreover have "as_user u ?s" using as_user_set [OF l] by simp
  moreover have "live ?s" using l by simp
  ultimately show ?thesis by (intro that [of ?s]) simp_all
qed

text \<open>
  C22: The callback can only write the connection of the user its state was issued to. Whatever the vendor
  answers and whether or not the request succeeds: a state that is unknown, expired, used or of another
  purpose is answered \<open>400\<close> and changes nothing; a good one is used up for ever, and what is committed
  differs beyond that in nothing but the broker connection of that one user.
\<close>

theorem callback_isolated:
  assumes "identity_ok (sv_db sv)" "get_schwab_auth st lib = Inr auth"
    "with_session App (callback e st lib now url state) sv = (x, sv')"
  shows "case token_user e (sv_db sv) state OauthState now of
      None \<Rightarrow> x = Inl (HTTPException 400 ''Bad Request'') \<and> sv_db sv' = sv_db sv
    | Some u \<Rightarrow> token_user e (sv_db sv') state purpose now' = None \<and>
        no_connections (sv_db sv') = no_connections (without_token e state OauthState now (sv_db sv)) \<and>
        filter (\<lambda>r. c_user_id r \<noteq> u) (t_schwab_connections (sv_db sv')) =
          filter (\<lambda>r. c_user_id r \<noteq> u) (t_schwab_connections (sv_db sv))"
proof (cases "token_user e (sv_db sv) state OauthState now")
  case None
  have "consume_token e state OauthState now (request sv) =
      (Inr None, committed ((request sv)\<lparr>s_db := without_token e state OauthState now (sv_db sv)\<rparr>))"
    using consume_token_run [of "request sv" e state OauthState now] identity_okD(2) [OF assms(1)] None by simp
  with None assms(2,3) show ?thesis
    by (auto simp: with_request callback_def op_bind_def op_from_def raise_def without_token_none)
next
  case (Some u)
  let ?d = "without_token e state OauthState now (sv_db sv)"
  obtain s where s: "callback e st lib now url state (request sv) =
      op_bind (store_callback e auth url state u) (\<lambda>_. commit) s"
    "as_user u s" "s_db s = ?d" "s_committed s = ?d"
    by (rule callback_state [OF assms(1,2) Some]) simp
  obtain y t where y: "store_callback e auth url state u s = (y, t)" by fastforce
  have k: "same_tx s t" "confined u s t" "only_connections s t"
    using keepsD [OF keeps_store_callback(1) y] keepsD [OF keeps_store_callback(2) y]
      keepsD [OF keeps_store_callback(3) y] by simp_all
  have "sv_db sv' = ?d \<or> sv_db sv' = s_db t"
    using assms(3) k(1) s(1,4) y
    by (cases y) (auto simp: with_request op_bind_def commit_cases same_tx_def split: if_splits)
  moreover have "others u (s_db t) = others u ?d"
    using k(2) s(2,3) by (simp add: confined_def as_user_def)
  moreover have "others u ?d = others u (sv_db sv)" by (simp add: others_def without_token_def)
  ultimately have o: "others u (sv_db sv') = others u (sv_db sv)"
    and n: "no_connections (sv_db sv') = no_connections ?d"
    using k(3) s(3) by (auto simp: only_connections_def)
  have "t_setup_tokens (sv_db sv') = t_setup_tokens ?d"
    using arg_cong [OF n, of t_setup_tokens] by (simp add: no_connections_def)
  then have "token_user e (sv_db sv') state purpose now' = token_user e ?d state purpose now'"
    by (simp add: token_user_def)
  moreover have "token_user e ?d state purpose now' = None"
    using token_user_without [OF identity_okD(2) [OF assms(1)]] Some by simp
  moreover have "filter (\<lambda>r. c_user_id r \<noteq> u) (t_schwab_connections (sv_db sv')) =
      filter (\<lambda>r. c_user_id r \<noteq> u) (t_schwab_connections (sv_db sv))"
    using arg_cong [OF o, of t_schwab_connections] by (simp add: others_def)
  ultimately show ?thesis using n Some by simp
qed


section \<open>Connecting, end to end\<close>

lemma get_current_user_request:
  assumes "identity_ok (sv_db sv)" "logged_in e (sv_db sv) token now = Some u"
  obtains r where "get_current_user e (Some token) now (request sv) =
      (Inr \<lparr>au_user_id = u, au_is_admin = u_is_admin r\<rparr>, as_caller r (request sv))"
    "as_user u (as_caller r (request sv))"
proof -
  obtain r where r: "user_in (sv_db sv) u = Some r" "u_id r = u" by (rule logged_in_user [OF assms])
  have "get_current_user e (Some token) now (request sv) =
      (Inr \<lparr>au_user_id = u, au_is_admin = u_is_admin r\<rparr>, as_caller r (request sv))"
    using get_current_user_in [of "request sv"] assms r(1) by simp
  moreover have "as_user u (as_caller r (request sv))" using as_caller_as_user [of "request sv" r] r(2) by simp
  ultimately show ?thesis by (rule that)
qed

lemma connect_run:
  assumes "identity_ok (sv_db sv)" "logged_in e (sv_db sv) token now = Some u" "get_schwab_auth st lib = Inr auth"
    "has_user (sv_db sv) u" "new_tokens e (sv_draws sv) (sv_db sv)"
  shows "with_session App (connect e st lib (Some token) now later) sv =
    (Inr (build_authorize_url auth (token_urlsafe (urandom e (sv_draws sv) 32))),
     \<lparr>sv_db = t_setup_tokens_update (\<lambda>rs. rs @ [token_row e (sv_draws sv) u OauthState (later + oauth_state_ttl)])
        (sv_db sv), sv_draws = sv_draws sv + 2\<rparr>)"
proof -
  obtain r where g: "get_current_user e (Some token) now (request sv) =
      (Inr \<lparr>au_user_id = u, au_is_admin = u_is_admin r\<rparr>, as_caller r (request sv))"
    by (rule get_current_user_request [OF assms(1,2)])
  let ?t = "as_caller r (request sv)"
  have "live ?t" "has_user (s_db ?t) u" "new_tokens e (s_draws ?t) (s_db ?t)" using assms(4,5) by simp_all
  note i = issue_token_run [OF this, of OauthState oauth_state_ttl later]
  have "commit (?t\<lparr>s_draws := n, s_db := d\<rparr>) = (Inr (), committed (?t\<lparr>s_draws := n, s_db := d\<rparr>))" for n d
    by (intro commit_live) simp
  with g i show ?thesis
    by (simp add: with_request connect_def op_bind_def op_seq_def op_from_def assms(3) ret_def)
qed

text \<open>A token just issued names its user until it expires.\<close>

lemma token_user_issued:
  assumes "new_tokens e n d"
  shows "token_user e (t_setup_tokens_update (\<lambda>rs. rs @ [token_row e n u purpose x]) d)
    (token_urlsafe (urandom e n 32)) purpose now = (if now < x then Some u else None)"
proof -
  let ?P = "usable e (token_urlsafe (urandom e n 32)) purpose now"
  have "find ?P (t_setup_tokens d) = None"
    using assms by (auto simp: find_None_iff new_tokens_def list_ex_iff usable_def)
  moreover have "find P (xs @ ys) = (case find P xs of None \<Rightarrow> find P ys | Some y \<Rightarrow> Some y)"
    for P and xs ys :: "setup_token_row list" by (induction xs) simp_all
  ultimately show ?thesis by (simp add: token_user_def usable_def token_row_def)
qed

lemma identity_ok_issued:
  assumes "identity_ok d" "has_user d u" "new_tokens e n d"
  shows "identity_ok (t_setup_tokens_update (\<lambda>rs. rs @ [token_row e n u purpose x]) d)"
proof -
  have "hash_token e (token_urlsafe (urandom e n 32)) \<notin> st_token_hash ` set (t_setup_tokens d)"
  proof
    assume "hash_token e (token_urlsafe (urandom e n 32)) \<in> st_token_hash ` set (t_setup_tokens d)"
    then obtain q where "q \<in> set (t_setup_tokens d)" "st_token_hash q = hash_token e (token_urlsafe (urandom e n 32))"
      by auto
    with assms(3) show False by (auto simp: new_tokens_def list_ex_iff)
  qed
  with assms(1,2) show ?thesis
    by (simp add: identity_ok_def sessions_distinct_def tokens_distinct_def users_ok_def token_row_def has_user_def)
qed

text \<open>Everything the callback's write needs, and what is read afterwards.\<close>

lemma store_callback_run:
  assumes "aead_correct e" "as_user u s" "keys_distinct (s_db s)" "has_user (s_db s) u" "length (conn_of (s_db s) u) \<le> 1"
    "current_dek e u s = (Inr (dek, kv), s)" "int2 kv"
    "exchange_callback e auth url state = Inr et" "get_account_numbers auth = Inr [entry]"
    "validate_json e (json_dumps (et_token et)) = Some (et_token et)"
  obtains s' row kv' where "store_callback e auth url state u s = (Inr (), s')" "as_user u s'" "\<not> s_aborted s'"
    "conn_of (s_db s') u = [row]" "open_connection e (s_db s') row =
      Some \<lparr>cr_user_id = u, cr_account_hash = an_hash_value entry, cr_token = et_token et, cr_token_created_at = et_created_at et,
        cr_last_synced_at = (case conn_of (s_db s) u of [] \<Rightarrow> None | q # _ \<Rightarrow> c_last_synced_at q),
        cr_reauth_notified_at = (case conn_of (s_db s) u of [] \<Rightarrow> None | q # _ \<Rightarrow> c_reauth_notified_at q),
        cr_key_version = kv'\<rparr>"
proof -
  obtain s' where s': "upsert_connection e u et (an_hash_value entry) s = (Inr (), s')"
    using upsert_connection_ok [OF assms(2,6,4,7)] by blast
  have st: "store_callback e auth url state u s = (Inr (), s')"
    using s' assms(8,9) by (simp add: store_callback_def op_bind_def op_from_def require_rls_context_as [OF assms(2)])
  note opens = upsert_opens [OF assms(1,2,3,5,10) s']
  have "\<not> s_aborted s'" using opens(1) by (simp add: as_user_def)
  with opens(2) show ?thesis by (elim exE conjE) (rule that [OF st opens(1)])
qed


text \<open>A user's reads depend on the database alone.\<close>

lemma read_connection_db:
  assumes "as_user u s" "as_user u t" "s_db t = s_db s"
  shows "read_connection e u t = (fst (read_connection e u s), t)"
  by (auto simp: read_connection_def op_bind_def dek_for_version_def sel_connection_as [OF assms(1)]
      sel_connection_as [OF assms(2)] sel_key_version_as [OF assms(1)] sel_key_version_as [OF assms(2)] assms(3)
      one_or_none_def ret_def raise_def unwrap_dek_def decrypt_field_def split: list.split option.split)

text \<open>A logged-in user's connection route, from what reading the connection gives.\<close>

lemma connection_run:
  assumes "identity_ok (sv_db sv)" "logged_in e (sv_db sv) token now = Some u"
    "\<And>s. as_user u s \<Longrightarrow> s_db s = sv_db sv \<Longrightarrow> read_connection e u s = (Inr (Some c), s)"
  shows "with_session App (connection e (Some token) now later) sv =
    (Inr \<lparr>cn_health = connection_health_value (fst (derive_connection_health (cr_token_created_at c) later)),
       cn_expires_at = snd (derive_connection_health (cr_token_created_at c) later),
       cn_last_synced_at = cr_last_synced_at c, cn_reauth_notified_at = cr_reauth_notified_at c\<rparr>, sv)"
proof -
  obtain r where g: "get_current_user e (Some token) now (request sv) =
      (Inr \<lparr>au_user_id = u, au_is_admin = u_is_admin r\<rparr>, as_caller r (request sv))"
    "as_user u (as_caller r (request sv))" by (rule get_current_user_request [OF assms(1,2)])
  have "read_connection e u (as_caller r (request sv)) = (Inr (Some c), as_caller r (request sv))"
    using assms(3) g(2) by simp
  with g(1) show ?thesis
    by (simp add: with_request connection_def op_bind_def split_beta ret_def)
qed


text \<open>The callback with a good state, a token and one account: what it commits.\<close>

lemma callback_stores:
  assumes "aead_correct e" "identity_ok (sv_db sv)" "get_schwab_auth st lib = Inr auth"
    "token_user e (sv_db sv) raw OauthState back = Some u" "has_user (sv_db sv) u" "keys_distinct (sv_db sv)"
    "key_rows (sv_db sv) u = [k]" "unwrapped e k = Some dek" "int2 (dk_key_version k)" "length (conn_of (sv_db sv) u) \<le> 1"
    "exchange_callback e auth url raw = Inr et" "get_account_numbers auth = Inr [entry]"
    "validate_json e (json_dumps (et_token et)) = Some (et_token et)"
  obtains sv' row kv where "with_session App (callback e st lib back url raw) sv = (Inr (), sv')"
    "conn_of (sv_db sv') u = [row]" "open_connection e (sv_db sv') row =
      Some \<lparr>cr_user_id = u, cr_account_hash = an_hash_value entry, cr_token = et_token et, cr_token_created_at = et_created_at et,
        cr_last_synced_at = (case conn_of (sv_db sv) u of [] \<Rightarrow> None | q # _ \<Rightarrow> c_last_synced_at q),
        cr_reauth_notified_at = (case conn_of (sv_db sv) u of [] \<Rightarrow> None | q # _ \<Rightarrow> c_reauth_notified_at q),
        cr_key_version = kv\<rparr>"
    "identity_ok (sv_db sv')" "t_sessions (sv_db sv') = t_sessions (sv_db sv)" "t_users (sv_db sv') = t_users (sv_db sv)"
proof -
  obtain s where s: "callback e st lib back url raw (request sv) =
      op_bind (store_callback e auth url raw u) (\<lambda>_. commit) s"
    "as_user u s" "s_db s = without_token e raw OauthState back (sv_db sv)"
    by (rule callback_state [OF assms(2,3,4), of url]) simp
  have frame: "key_rows (s_db s) u = [k]" "keys_distinct (s_db s)" "has_user (s_db s) u" "conn_of (s_db s) u = conn_of (sv_db sv) u"
    using assms(5,6,7) by (simp_all add: s(3) without_token_def key_rows_def keys_distinct_def has_user_def conn_of_def)
  have len: "length (conn_of (s_db s) u) \<le> 1" using assms(10) frame(4) by simp
  have cd: "current_dek e u s = (Inr (dek, dk_key_version k), s)"
    by (rule current_dek_single [OF s(2) frame(1) assms(8)])
  show ?thesis
  proof (rule store_callback_run [OF assms(1) s(2) frame(2,3) len cd assms(9,11,12,13), unfolded frame(4)])
    fix s' row kv
    assume st: "store_callback e auth url raw u s = (Inr (), s')" "as_user u s'" "\<not> s_aborted s'"
      and row: "conn_of (s_db s') u = [row]" "open_connection e (s_db s') row =
        Some \<lparr>cr_user_id = u, cr_account_hash = an_hash_value entry, cr_token = et_token et, cr_token_created_at = et_created_at et,
          cr_last_synced_at = (case conn_of (sv_db sv) u of [] \<Rightarrow> None | q # _ \<Rightarrow> c_last_synced_at q),
          cr_reauth_notified_at = (case conn_of (sv_db sv) u of [] \<Rightarrow> None | q # _ \<Rightarrow> c_reauth_notified_at q),
          cr_key_version = kv\<rparr>"
    have "no_connections (s_db s') = no_connections (s_db s)"
      using keepsD [OF keeps_store_callback(3) st(1)] by (simp add: only_connections_def)
    from arg_cong [OF this, of t_sessions] arg_cong [OF this, of t_users] arg_cong [OF this, of t_setup_tokens]
    have f: "t_sessions (s_db s') = t_sessions (sv_db sv)" "t_users (s_db s') = t_users (sv_db sv)"
      "t_setup_tokens (s_db s') = t_setup_tokens (s_db s)"
      by (simp_all add: no_connections_def s(3) without_token_def)
    have "identity_ok (s_db s)" using identity_ok_without_token [OF assms(2)] by (simp add: s(3))
    then have "identity_ok (s_db s')"
      by (simp add: identity_ok_def sessions_distinct_def tokens_distinct_def users_ok_def has_user_def f s(3)
          without_token_def)
    moreover have "with_session App (callback e st lib back url raw) sv = (Inr (), \<lparr>sv_db = s_db s', sv_draws = s_draws s'\<rparr>)"
      by (simp only: with_request s(1) op_bind_def st(1,3) sum.case prod.case commit_cases if_False Let_def committed_simps)
    ultimately show ?thesis using row f(1,2) by (intro that [of "\<lparr>sv_db = s_db s', sv_draws = s_draws s'\<rparr>" row kv]) simp_all
  qed
qed

text \<open>
  C35: Connecting works end to end. A logged-in user with one data key asks to connect and is answered the
  authorisation URL of a fresh state; when the vendor redirects back with that state within fifteen minutes,
  its exchange yields a token and exactly one account, then the callback succeeds. The user then has one stored
  connection, which opens to that token with its creation time and to the account's hash (not its number),
  and which keeps the sync and notification times of a connection stored before; and \<open>GET /schwab/connection\<close>
  reports the health of that very token and those times.
\<close>

theorem connect_then_callback:
  assumes "aead_correct e" "identity_ok (sv_db sv)" "logged_in e (sv_db sv) token now = Some u"
    "get_schwab_auth st lib = Inr auth" "new_tokens e (sv_draws sv) (sv_db sv)" "keys_distinct (sv_db sv)"
    "key_rows (sv_db sv) u = [k]" "unwrapped e k = Some dek" "int2 (dk_key_version k)" "length (conn_of (sv_db sv) u) \<le> 1"
    "raw = token_urlsafe (urandom e (sv_draws sv) 32)" "back < later + oauth_state_ttl"
    "exchange_callback e auth url raw = Inr et" "get_account_numbers auth = Inr [entry]"
    "validate_json e (json_dumps (et_token et)) = Some (et_token et)" "logged_in e (sv_db sv) token now' = Some u"
  shows "\<exists>sv1 sv2 row c. with_session App (connect e st lib (Some token) now later) sv =
      (Inr (build_authorize_url auth raw), sv1) \<and>
    with_session App (callback e st lib back url raw) sv1 = (Inr (), sv2) \<and>
    conn_of (sv_db sv2) u = [row] \<and> open_connection e (sv_db sv2) row = Some c \<and>
    cr_user_id c = u \<and> cr_token c = et_token et \<and> cr_token_created_at c = et_created_at et \<and>
    cr_account_hash c = an_hash_value entry \<and>
    cr_last_synced_at c = (case conn_of (sv_db sv) u of [] \<Rightarrow> None | q # _ \<Rightarrow> c_last_synced_at q) \<and>
    cr_reauth_notified_at c = (case conn_of (sv_db sv) u of [] \<Rightarrow> None | q # _ \<Rightarrow> c_reauth_notified_at q) \<and>
    with_session App (connection e (Some token) now' seen) sv2 =
      (Inr \<lparr>cn_health = connection_health_value (fst (derive_connection_health (et_created_at et) seen)),
         cn_expires_at = snd (derive_connection_health (et_created_at et) seen),
         cn_last_synced_at = cr_last_synced_at c, cn_reauth_notified_at = cr_reauth_notified_at c\<rparr>, sv2)"
proof -
  have hu: "has_user (sv_db sv) u"
  proof -
    obtain r where "user_in (sv_db sv) u = Some r" "u_id r = u" by (rule logged_in_user [OF assms(2,3)])
    with user_in_id [OF assms(2) this(1)] show ?thesis by (auto simp: has_user_iff)
  qed
  let ?d1 = "t_setup_tokens_update (\<lambda>rs. rs @ [token_row e (sv_draws sv) u OauthState (later + oauth_state_ttl)]) (sv_db sv)"
  let ?sv1 = "\<lparr>sv_db = ?d1, sv_draws = sv_draws sv + 2\<rparr>"
  have c1: "with_session App (connect e st lib (Some token) now later) sv = (Inr (build_authorize_url auth raw), ?sv1)"
    using connect_run [OF assms(2,3,4) hu assms(5)] assms(11) by simp
  have ok1: "identity_ok (sv_db ?sv1)" using identity_ok_issued [OF assms(2) hu assms(5)] by simp
  have t1: "token_user e (sv_db ?sv1) raw OauthState back = Some u"
    using token_user_issued [OF assms(5)] assms(11,12) by simp
  obtain sv2 row kv where c2: "with_session App (callback e st lib back url raw) ?sv1 = (Inr (), sv2)"
    and row: "conn_of (sv_db sv2) u = [row]" and c: "open_connection e (sv_db sv2) row =
      Some \<lparr>cr_user_id = u, cr_account_hash = an_hash_value entry, cr_token = et_token et, cr_token_created_at = et_created_at et,
        cr_last_synced_at = (case conn_of (sv_db sv) u of [] \<Rightarrow> None | q # _ \<Rightarrow> c_last_synced_at q),
        cr_reauth_notified_at = (case conn_of (sv_db sv) u of [] \<Rightarrow> None | q # _ \<Rightarrow> c_reauth_notified_at q),
        cr_key_version = kv\<rparr>"
    and ok: "identity_ok (sv_db sv2)" "t_sessions (sv_db sv2) = t_sessions (sv_db sv)" "t_users (sv_db sv2) = t_users (sv_db sv)"
    by (rule callback_stores [OF assms(1) ok1 assms(4) t1 _ _ _ assms(8,9) _ assms(13,14,15)])
      (use hu assms(6,7,10) in \<open>simp_all add: key_rows_def keys_distinct_def has_user_def conn_of_def\<close>)
  have l2: "logged_in e (sv_db sv2) token now' = Some u" using assms(16) by (simp add: logged_in_def ok)
  have "with_session App (connection e (Some token) now' seen) sv2 =
      (Inr \<lparr>cn_health = connection_health_value (fst (derive_connection_health (et_created_at et) seen)),
         cn_expires_at = snd (derive_connection_health (et_created_at et) seen),
         cn_last_synced_at = (case conn_of (sv_db sv) u of [] \<Rightarrow> None | q # _ \<Rightarrow> c_last_synced_at q),
         cn_reauth_notified_at = (case conn_of (sv_db sv) u of [] \<Rightarrow> None | q # _ \<Rightarrow> c_reauth_notified_at q)\<rparr>, sv2)"
  proof (rule connection_run [OF ok(1) l2, where later = seen, THEN trans])
    show "read_connection e u t = (Inr (Some (the (open_connection e (sv_db sv2) row))), t)" if "as_user u t" "s_db t = sv_db sv2" for t
      using read_connection_as [OF that(1)] row c that(2) by simp
  qed (simp add: c)
  with c1 c2 row c show ?thesis by (intro exI [of _ ?sv1] exI [of _ sv2] exI [of _ row]) simp
qed


section \<open>Asking for a sync\<close>

definition run_readable :: "sync_run_row \<Rightarrow> bool" where
  "run_readable r \<longleftrightarrow> sync_trigger_of (r_trigger r) \<noteq> None \<and> sync_status_of (r_status r) \<noteq> None \<and>
     (case r_error_code r of None \<Rightarrow> True | Some c \<Rightarrow> sync_error_of c \<noteq> None)"

lemma run_readable_read:
  assumes "run_readable r"
  shows "\<exists>x. sync_run_record_of r s = (Inr x, s) \<and> rr_started_at x = r_started_at r"
  using assms by (auto simp: run_readable_def sync_run_record_of_def ret_def split: option.splits)

definition own_runs :: "db \<Rightarrow> uuid \<Rightarrow> sync_run_row list" where
  "own_runs d u = filter (\<lambda>r. r_user_id r = u) (t_sync_runs d)"

definition within_cooldown :: "settings \<Rightarrow> datetime \<Rightarrow> sync_run_row \<Rightarrow> bool" where
  "within_cooldown st later r \<longleftrightarrow> later - r_started_at r < schwab_sync_cooldown_seconds st * 1000000"

text \<open>The newest run decides: it is inside the cooldown exactly when some run is.\<close>

lemma newest_decides:
  assumes "sort_key (\<lambda>r. - r_started_at r) rows = r # rs"
  shows "within_cooldown st later r \<longleftrightarrow> list_ex (within_cooldown st later) rows"
proof -
  have "sorted (map (\<lambda>r. - r_started_at r) (r # rs))" using assms sorted_sort_key by metis
  moreover have "set (r # rs) = set rows" using assms set_sort by metis
  ultimately show ?thesis by (fastforce simp: within_cooldown_def list_ex_iff)
qed

lemma recent_run:
  assumes "as_user u s" "list_all run_readable (own_runs (s_db s) u)"
  shows "\<exists>recent. read_sync_runs u 1 s = (Inr recent, s) \<and>
    list_ex (\<lambda>run. later - rr_started_at run < schwab_sync_cooldown_seconds st * 1000000) recent =
      list_ex (within_cooldown st later) (own_runs (s_db s) u)"
proof -
  have sel: "sel sync_runs_table (\<lambda>r. r_user_id r = u) s = (Inr (own_runs (s_db s) u), s)"
    using runs_tb.sel_as [OF assms(1), of "\<lambda>r. r_user_id r = u"] by (simp add: own_runs_def cong: filter_cong)
  show ?thesis
  proof (cases "sort_key (\<lambda>r. - r_started_at r) (own_runs (s_db s) u)")
    case Nil
    then have "own_runs (s_db s) u = []" by (metis set_sort set_empty)
    then show ?thesis by (simp add: read_sync_runs_def op_bind_def sel ret_def)
  next
    case (Cons r rs)
    then have "r \<in> set (own_runs (s_db s) u)" by (metis list.set_intros(1) set_sort)
    then obtain x where x: "sync_run_record_of r s = (Inr x, s)" "rr_started_at x = r_started_at r"
      using assms(2) run_readable_read [of r s] by (auto simp: list_all_iff)
    with Cons newest_decides [OF Cons] show ?thesis
      by (simp add: read_sync_runs_def op_bind_def sel ret_def within_cooldown_def)
  qed
qed

definition manual_job :: "uuid \<Rightarrow> job_row" where
  "manual_job u = \<lparr>j_task = ''sync_user'', j_user_id = uuid_str u, j_trigger = Some (sync_trigger_value Manual)\<rparr>"

definition queued :: "job_row list \<Rightarrow> server \<Rightarrow> server" where
  "queued js sv = sv\<lparr>sv_db := t_procrastinate_jobs_update (\<lambda>xs. xs @ js) (sv_db sv)\<rparr>"

lemma manual_sync_run:
  assumes "identity_ok (sv_db sv)" "logged_in e (sv_db sv) token now = Some u" "conn_of (sv_db sv) u = [row]"
    "open_connection e (sv_db sv) row = Some c" "list_all run_readable (own_runs (sv_db sv) u)"
  shows "with_session App (sync e st (Some token) now later) sv =
    (if list_ex (within_cooldown st later) (own_runs (sv_db sv) u) then (Inl (HTTPException 429 ''cooldown active''), sv)
     else (Inr (), queued [manual_job u] sv))"
proof -
  obtain r where g: "get_current_user e (Some token) now (request sv) =
      (Inr \<lparr>au_user_id = u, au_is_admin = u_is_admin r\<rparr>, as_caller r (request sv))"
    "as_user u (as_caller r (request sv))" by (rule get_current_user_request [OF assms(1,2)])
  let ?t = "as_caller r (request sv)"
  have rc: "read_connection e u ?t = (Inr (Some c), ?t)"
    using read_connection_as [OF g(2), of row e c] assms(3,4) by simp
  obtain recent where rr: "read_sync_runs u 1 ?t = (Inr recent, ?t)"
    "list_ex (\<lambda>run. later - rr_started_at run < schwab_sync_cooldown_seconds st * 1000000) recent =
      list_ex (within_cooldown st later) (own_runs (sv_db sv) u)"
    using recent_run [OF g(2), of later st] assms(5) by auto
  show ?thesis
    by (simp add: with_request sync_def op_bind_def g(1) rc rr [unfolded One_nat_def] raise_def defer_manual_sync_def defer_async_def
        manual_job_def queued_def)
qed

text \<open>
  What a request for a sync queues. For a logged-in user with a readable connection the route answers
  \<open>429\<close> and queues nothing exactly when one of the user's recorded runs started inside the cooldown, and
  otherwise queues one manual job of that user and changes nothing else; without a connection it is \<open>404\<close>.
\<close>

theorem manual_sync_exact:
  assumes "identity_ok (sv_db sv)" "logged_in e (sv_db sv) token now = Some u"
    "list_all run_readable (own_runs (sv_db sv) u)"
  shows "(case conn_of (sv_db sv) u of
      [] \<Rightarrow> with_session App (sync e st (Some token) now later) sv = (Inl (HTTPException 404 ''not found''), sv)
    | [row] \<Rightarrow> open_connection e (sv_db sv) row \<noteq> None \<longrightarrow>
        with_session App (sync e st (Some token) now later) sv =
          (if list_ex (within_cooldown st later) (own_runs (sv_db sv) u)
           then (Inl (HTTPException 429 ''cooldown active''), sv) else (Inr (), queued [manual_job u] sv))
    | _ \<Rightarrow> True)"
proof (cases "conn_of (sv_db sv) u")
  case Nil
  obtain r where g: "get_current_user e (Some token) now (request sv) =
      (Inr \<lparr>au_user_id = u, au_is_admin = u_is_admin r\<rparr>, as_caller r (request sv))"
    "as_user u (as_caller r (request sv))" by (rule get_current_user_request [OF assms(1,2)])
  with read_connection_none [OF g(2)] Nil show ?thesis
    by (simp add: with_request sync_def op_bind_def raise_def)
next
  case (Cons row rows)
  then show ?thesis using manual_sync_run [OF assms(1,2) _ _ assms(3)] by (auto split: list.split)
qed

fun ask_again :: "env \<Rightarrow> settings \<Rightarrow> string \<Rightarrow> datetime \<Rightarrow> datetime \<Rightarrow> nat \<Rightarrow> server \<Rightarrow> (exn + unit) list \<times> server" where
  "ask_again e st token now later 0 sv = ([], sv)"
| "ask_again e st token now later (Suc n) sv =
     (let (x, sv1) = with_session App (sync e st (Some token) now later) sv;
          (xs, sv2) = ask_again e st token now later n sv1
      in (x # xs, sv2))"

text \<open>
  C34: The cooldown looks at finished runs only. As long as the worker has recorded no run, every further
  request is accepted: \<open>n\<close> requests in a row at the same instant queue \<open>n\<close> jobs, whatever the cooldown.
\<close>

theorem cooldown_not_held:
  assumes "identity_ok (sv_db sv)" "logged_in e (sv_db sv) token now = Some u" "conn_of (sv_db sv) u = [row]"
    "open_connection e (sv_db sv) row = Some c" "list_all run_readable (own_runs (sv_db sv) u)"
    "\<not> list_ex (within_cooldown st later) (own_runs (sv_db sv) u)"
  shows "ask_again e st token now later n sv = (replicate n (Inr ()), queued (replicate n (manual_job u)) sv)"
  using assms
proof (induction n arbitrary: sv)
  case 0
  then show ?case by (simp add: queued_def)
next
  case (Suc n)
  let ?sv1 = "queued [manual_job u] sv"
  have s1: "with_session App (sync e st (Some token) now later) sv = (Inr (), ?sv1)"
    using manual_sync_run [OF Suc.prems(1-5)] Suc.prems(6) by simp
  have "identity_ok (sv_db ?sv1)" "logged_in e (sv_db ?sv1) token now = Some u" "conn_of (sv_db ?sv1) u = [row]"
    "open_connection e (sv_db ?sv1) row = Some c" "own_runs (sv_db ?sv1) u = own_runs (sv_db sv) u"
    using Suc.prems(1-4)
    by (simp_all add: queued_def identity_ok_def sessions_distinct_def tokens_distinct_def users_ok_def has_user_def
        logged_in_def conn_of_def open_connection_def dek_in_def key_rows_def own_runs_def)
  with Suc.IH [of ?sv1] Suc.prems(5,6)
  have "ask_again e st token now later n ?sv1 = (replicate n (Inr ()), queued (replicate n (manual_job u)) ?sv1)" by simp
  moreover have "queued (replicate n (manual_job u)) ?sv1 = queued (replicate (Suc n) (manual_job u)) sv"
    by (simp add: queued_def o_def)
  ultimately show ?case by (simp add: s1)
qed

end
