(* ===== verification/Create_Admin.thy ===== *)
theory Create_Admin
  imports Setup_Tokens
begin

text \<open>
  \<open>tools/create_admin.py\<close>: the bootstrap. On the superuser engine, under an advisory lock, it refuses when
  an administrator is stored already, and otherwise stores one with a setup token and prints the token.
\<close>

definition admin_token_ttl :: timedelta where "admin_token_ttl = td_days 7"

text \<open>\<open>main(username)\<close>; \<open>None\<close> is the refusal, the return value 1.\<close>

definition create_admin :: "env \<Rightarrow> datetime \<Rightarrow> string \<Rightarrow> string option op" where
  "create_admin e now username =
     op_seq (advisory_xact_lock (hashtext e ''morai:create_admin''))
     (op_bind (sel users_table u_is_admin) (\<lambda>existing_admin.
      if existing_admin \<noteq> [] then ret None
      else op_bind (draw_uuid e) (\<lambda>i.
        op_seq (ins users_table \<lparr>u_id = i, u_username = username, u_password_hash = None, u_is_admin = True\<rparr>)
        (op_bind (issue_token e i Setup admin_token_ttl now) (\<lambda>raw_token.
         op_seq commit (ret (Some raw_token)))))))"

text \<open>The script: exit code, the token it prints to stdout, and the text it prints to stderr.\<close>

datatype script_result = Exit nat "string option" string | Traceback exn

definition refusal :: string where
  "refusal = ''Refusing: an admin already exists. This is a bootstrap tool, not an admin-management tool.''"

definition usage :: string where
  "usage = ''Usage: uv run python tools/create_admin.py <username>''"

definition create_admin_script :: "env \<Rightarrow> datetime \<Rightarrow> string list \<Rightarrow> server \<Rightarrow> script_result \<times> server" where
  "create_admin_script e now argv sv =
     (case argv of
        [_, username] \<Rightarrow> (case with_session Superuser (create_admin e now username) sv of
            (Inl x, sv') \<Rightarrow> (Traceback x, sv')
          | (Inr None, sv') \<Rightarrow> (Exit 1 None refusal, sv')
          | (Inr (Some raw_token), sv') \<Rightarrow> (Exit 0 (Some raw_token) [], sv'))
      | _ \<Rightarrow> (Exit 2 None usage, sv))"


section \<open>What the script does\<close>

lemma ins_super:
  "super s \<Longrightarrow> ins tb r s = (case insert_row tb (\<lambda>_. True) r (s_db s) of
     Inl x \<Rightarrow> (Inl x, s\<lparr>s_aborted := True\<rparr>) | Inr (y, d) \<Rightarrow> (Inr y, s\<lparr>s_db := d\<rparr>))"
  by (simp add: ins_def stmt_super) (simp add: insert_row_def row_writable_def row_visible_def super_def)

lemma issue_token_super:
  assumes "super s" "has_user (s_db s) u" "new_tokens e (s_draws s) (s_db s)"
  shows "issue_token e u purpose ttl now s =
    (Inr (token_urlsafe (urandom e (s_draws s) 32)), s\<lparr>s_draws := s_draws s + 2,
      s_db := t_setup_tokens_update (\<lambda>rs. rs @ [token_row e (s_draws s) u purpose (now + ttl)]) (s_db s)\<rparr>)"
proof -
  let ?s = "s\<lparr>s_draws := s_draws s + 2\<rparr>"
  let ?row = "token_row e (s_draws s) u purpose (now + ttl)"
  have su: "super ?s" using assms(1) by simp
  have "\<not> list_ex (\<lambda>q. st_id q = st_id ?row \<or> st_token_hash q = st_token_hash ?row) (t_setup_tokens (s_db s))"
    using assms(3) by (auto simp: new_tokens_def list_ex_iff token_row_def)
  then have "ins setup_tokens_table ?row ?s =
      (Inr (), ?s\<lparr>s_db := t_setup_tokens_update (\<lambda>rs. rs @ [?row]) (s_db s)\<rparr>)"
    using assms(2) by (subst ins_super [OF su]) (simp add: insert_row_def setup_tokens_table_def token_row_def)
  then show ?thesis
    by (simp add: issue_token_def op_bind_def op_seq_def generate_token_run draw_uuid_def ret_def token_row_def)
qed

definition has_admin :: "db \<Rightarrow> bool" where
  "has_admin d = list_ex u_is_admin (t_users d)"

definition admin_row :: "uuid \<Rightarrow> string \<Rightarrow> user_row" where
  "admin_row i username = \<lparr>u_id = i, u_username = username, u_password_hash = None, u_is_admin = True\<rparr>"

text \<open>A second administrator cannot be bootstrapped.\<close>

lemma create_admin_refused:
  assumes "has_admin (sv_db sv)"
  shows "create_admin_script e now [prog, username] sv = (Exit 1 None refusal, sv)"
proof -
  let ?s = "new_session Superuser (sv_db sv) (sv_draws sv)"
  let ?t = "s_locks_update (\<lambda>ks. hashtext e ''morai:create_admin'' # ks) ?s"
  have "super ?t" by (simp add: super_def new_session_def)
  then have "sel users_table u_is_admin ?t = (Inr (filter u_is_admin (t_users (sv_db sv))), ?t)"
    by (simp add: sel_super) (simp add: users_table_def new_session_def)
  moreover have "filter u_is_admin (t_users (sv_db sv)) \<noteq> []"
    using assms by (auto simp: has_admin_def list_ex_iff filter_empty_conv)
  ultimately show ?thesis
    by (simp add: create_admin_script_def with_session_def create_admin_def op_run advisory_xact_lock_def on_live_def)
      (simp add: new_session_def op_run)
qed

lemma create_admin_law:
  assumes "\<not> has_admin (sv_db sv)" "\<not> list_ex (\<lambda>r. u_username r = username) (t_users (sv_db sv))"
    "\<not> has_user (sv_db sv) (gen_uuid e (sv_draws sv))" "new_tokens e (sv_draws sv) (sv_db sv)"
  shows "\<exists>raw sv'. create_admin_script e now [prog, username] sv = (Exit 0 (Some raw) [], sv') \<and>
    sv_db sv' = t_setup_tokens_update (\<lambda>rs. rs @ [token_row e (Suc (sv_draws sv)) (gen_uuid e (sv_draws sv)) Setup (now + td_days 7)])
      (t_users_update (\<lambda>rs. rs @ [admin_row (gen_uuid e (sv_draws sv)) username]) (sv_db sv)) \<and>
    raw = token_urlsafe (urandom e (Suc (sv_draws sv)) 32) \<and>
    create_admin_script e later [prog', username'] sv' = (Exit 1 None refusal, sv')"
proof -
  let ?s = "new_session Superuser (sv_db sv) (sv_draws sv)"
  let ?l = "s_locks_update (\<lambda>ks. hashtext e ''morai:create_admin'' # ks) ?s"
  let ?t = "?l\<lparr>s_draws := Suc (sv_draws sv)\<rparr>"
  let ?i = "gen_uuid e (sv_draws sv)"
  let ?d = "t_users_update (\<lambda>rs. rs @ [admin_row ?i username]) (sv_db sv)"
  let ?v = "?t\<lparr>s_db := ?d\<rparr>"
  have su: "super ?l" "super ?t" "super ?v" by (simp_all add: super_def new_session_def)
  have q: "sel users_table u_is_admin ?l = (Inr [], ?l)"
    using assms(1) by (simp add: sel_super [OF su(1)])
      (simp add: users_table_def new_session_def has_admin_def list_ex_iff filter_empty_conv)
  have "\<not> list_ex (\<lambda>r. u_id r = ?i \<or> u_username r = username) (t_users (sv_db sv))"
    using assms(2,3) by (auto simp: has_user_def list_ex_iff)
  then have i: "ins users_table (admin_row ?i username) ?t = (Inr (), ?v)"
    by (simp add: ins_super [OF su(2)])
      (simp add: insert_row_def users_table_def new_session_def admin_row_def)
  have h: "has_user (s_db ?v) ?i" "new_tokens e (s_draws ?v) (s_db ?v)"
    using assms(4) by (simp_all add: has_user_def admin_row_def new_tokens_def)
  let ?w = "?v\<lparr>s_draws := Suc (sv_draws sv) + 2,
      s_db := t_setup_tokens_update (\<lambda>rs. rs @ [token_row e (Suc (sv_draws sv)) ?i Setup (now + td_days 7)]) ?d\<rparr>"
  have k: "issue_token e ?i Setup admin_token_ttl now ?v = (Inr (token_urlsafe (urandom e (Suc (sv_draws sv)) 32)), ?w)"
    using issue_token_super [OF su(3) h, of Setup admin_token_ttl now] by (simp add: admin_token_ttl_def)
  have s: "\<not> s_aborted ?s" "s_draws ?s = sv_draws sv" by (simp_all add: new_session_def)
  have "create_admin e now username ?s = (Inr (Some (token_urlsafe (urandom e (Suc (sv_draws sv)) 32))), committed ?w)"
    using q i k s
    by (simp add: create_admin_def op_bind_def op_seq_def ret_def advisory_xact_lock_def on_live_def draw_uuid_def
        admin_row_def commit_def committed_def)
  then have c: "create_admin_script e now [prog, username] sv =
      (Exit 0 (Some (token_urlsafe (urandom e (Suc (sv_draws sv)) 32))) [], \<lparr>sv_db = s_db ?w, sv_draws = s_draws ?w\<rparr>)"
    by (simp add: create_admin_script_def with_session_def)
  have "has_admin (s_db ?w)" by (simp add: has_admin_def admin_row_def)
  then have "create_admin_script e later [prog', username'] \<lparr>sv_db = s_db ?w, sv_draws = s_draws ?w\<rparr> =
      (Exit 1 None refusal, \<lparr>sv_db = s_db ?w, sv_draws = s_draws ?w\<rparr>)"
    by (intro create_admin_refused) simp
  with c show ?thesis
    by (intro exI [of _ "token_urlsafe (urandom e (Suc (sv_draws sv)) 32)"]
        exI [of _ "\<lparr>sv_db = s_db ?w, sv_draws = s_draws ?w\<rparr>"]) simp
qed

text \<open>
  C8: The bootstrap makes one administrator, once. On a server without an administrator, and with a new
  username, the script exits with 0 and prints the setup token of the account it has just stored, an
  administrator without a password; the token is good for a week, and nothing else changes. Run again,
  at any time and for any username, the script exits with 1, prints no token but the refusal, to stderr, and
  changes nothing.
\<close>

theorem create_admin_once:
  assumes "\<not> has_admin (sv_db sv)" "\<not> list_ex (\<lambda>r. u_username r = username) (t_users (sv_db sv))"
    "\<not> has_user (sv_db sv) (gen_uuid e (sv_draws sv))" "new_tokens e (sv_draws sv) (sv_db sv)"
  shows "\<exists>raw sv'. create_admin_script e now [prog, username] sv = (Exit 0 (Some raw) [], sv') \<and>
    sv_db sv' = t_setup_tokens_update (\<lambda>rs. rs @ [token_row e (Suc (sv_draws sv)) (gen_uuid e (sv_draws sv)) Setup (now + td_days 7)])
      (t_users_update (\<lambda>rs. rs @ [admin_row (gen_uuid e (sv_draws sv)) username]) (sv_db sv)) \<and>
    raw = token_urlsafe (urandom e (Suc (sv_draws sv)) 32) \<and>
    create_admin_script e later [prog', username'] sv' = (Exit 1 None refusal, sv')"
  using assms by (rule create_admin_law)

theorem create_admin_once_witness:
  "\<exists>raw sv'. create_admin_script demo_env 0 [''create_admin.py'', ''alice''] \<lparr>sv_db = empty_db, sv_draws = 0\<rparr> =
     (Exit 0 (Some raw) [], sv') \<and>
   create_admin_script demo_env 5 [''create_admin.py'', ''bob''] sv' = (Exit 1 None refusal, sv')"
proof -
  let ?sv = "\<lparr>sv_db = empty_db, sv_draws = 0\<rparr>"
  have "\<not> has_admin (sv_db ?sv)" "\<not> list_ex (\<lambda>r. u_username r = ''alice'') (t_users (sv_db ?sv))"
    "\<not> has_user (sv_db ?sv) (gen_uuid demo_env (sv_draws ?sv))" "new_tokens demo_env (sv_draws ?sv) (sv_db ?sv)"
    by (simp_all add: has_admin_def has_user_def new_tokens_def empty_db_def)
  from create_admin_once [OF this, where prog = "''create_admin.py''" and prog' = "''create_admin.py''"
      and username' = "''bob''" and now = 0 and later = 5]
  show ?thesis by blast
qed

end
