(* ===== verification/Intact.thy ===== *)
theory Intact
  imports Stored_Tables Op_Logic Connection_Promises Create_Admin Fill_Reads
begin

text \<open>
  The invariant of the whole database. Beyond the schema: every data key is version 1 and opens under
  the master key, everything encrypted opens under its owner's key, at most one user is an administrator
  and administrators hold no data key, every stored run reads back, the trail was written by
  administrators, and no password-reset token is stored without an entry of the trail naming its user.
\<close>

section \<open>The invariant\<close>

text \<open>A stored key was wrapped under the master key, and so opens under it.\<close>

definition key_opens :: "env \<Rightarrow> data_key_row \<Rightarrow> bool" where
  "key_opens e k \<longleftrightarrow> unwrapped e k \<noteq> None \<and>
     (\<exists>dek. dk_wrapped_dek k = aes_enc e (master_key_bytes e) (dk_wrap_nonce k) dek None)"

definition keys_open :: "env \<Rightarrow> db \<Rightarrow> bool" where
  "keys_open e d = list_all (\<lambda>k. dk_key_version k = 1 \<and> key_opens e k) (t_user_data_keys d)"

definition fills_open :: "env \<Rightarrow> db \<Rightarrow> bool" where
  "fills_open e d = list_all (\<lambda>r. \<exists>rc. opens e d (f_user_id r) r rc) (t_fills d)"

definition broker_opens :: "env \<Rightarrow> db \<Rightarrow> broker_tx_row \<Rightarrow> bool" where
  "broker_opens e d r \<longleftrightarrow> (\<exists>dek. dek_in e d (b_user_id r) (b_key_version r) = Some dek \<and>
     aes_dec e dek (b_raw_nonce r) (b_raw_ciphertext r)
       (Some (broker_transaction_associated_data ''raw_ciphertext'' (b_user_id r) (b_activity_id r))) \<noteq> None)"

definition connection_opens :: "env \<Rightarrow> db \<Rightarrow> connection_row \<Rightarrow> bool" where
  "connection_opens e d r \<longleftrightarrow> (\<exists>dek. dek_in e d (c_user_id r) (c_key_version r) = Some dek \<and>
     aes_dec e dek (c_account_hash_nonce r) (c_account_hash_ciphertext r)
       (Some (connection_associated_data ''account_hash_ciphertext'' (c_user_id r))) \<noteq> None \<and>
     aes_dec e dek (c_token_nonce r) (c_token_ciphertext r)
       (Some (connection_associated_data ''token_ciphertext'' (c_user_id r))) \<noteq> None)"

definition sealed :: "env \<Rightarrow> db \<Rightarrow> bool" where
  "sealed e d \<longleftrightarrow> keys_open e d \<and> fills_open e d \<and> list_all (broker_opens e d) (t_broker_transactions d) \<and>
     list_all (connection_opens e d) (t_schwab_connections d)"

definition admin_in :: "db \<Rightarrow> uuid \<Rightarrow> bool" where
  "admin_in d u = list_ex (\<lambda>r. u_id r = u \<and> u_is_admin r) (t_users d)"

definition one_admin :: "db \<Rightarrow> bool" where
  "one_admin d \<longleftrightarrow> length (filter u_is_admin (t_users d)) \<le> 1"

definition admins_keyless :: "db \<Rightarrow> bool" where
  "admins_keyless d = list_all (\<lambda>k. \<not> admin_in d (dk_user_id k)) (t_user_data_keys d)"

definition trail_ok :: "db \<Rightarrow> bool" where
  "trail_ok d = list_all (\<lambda>a. admin_in d (al_reader_id a)) (t_audit_log d)"

definition resets_audited :: "db \<Rightarrow> bool" where
  "resets_audited d = list_all (\<lambda>t. st_purpose t = token_purpose_value PasswordReset \<longrightarrow>
     list_ex (\<lambda>a. al_subject_id a = st_user_id t) (t_audit_log d)) (t_setup_tokens d)"

definition runs_readable :: "db \<Rightarrow> bool" where
  "runs_readable d = list_all run_readable (t_sync_runs d)"

text \<open>Legs and events hang on positions of their own user.\<close>

definition placed :: "db \<Rightarrow> bool" where
  "placed d \<longleftrightarrow>
     list_all (\<lambda>l. list_all (\<lambda>p. p_id p = l_position_id l \<longrightarrow> p_user_id p = l_user_id l) (t_positions d)) (t_legs d) \<and>
     list_all (\<lambda>v. list_all (\<lambda>p. p_id p = e_position_id v \<longrightarrow> p_user_id p = e_user_id v) (t_positions d)) (t_events d)"

lemma placed_own: "placed d \<Longrightarrow> own_positions d u"
  by (auto simp: placed_def own_positions_def list_all_iff list_ex_iff)

definition intact :: "env \<Rightarrow> db \<Rightarrow> bool" where
  "intact e d \<longleftrightarrow> db_ok d \<and> sealed e d \<and> one_admin d \<and> admins_keyless d \<and> trail_ok d \<and> resets_audited d \<and>
     runs_readable d \<and> placed d"

text \<open>
  A session on such a database: what is committed is intact, and so is its own view while it is usable;
  \<open>C\<close> is what the operation has learnt about that view.
\<close>

definition under :: "env \<Rightarrow> (db \<Rightarrow> bool) \<Rightarrow> sess \<Rightarrow> bool" where
  "under e C s \<longleftrightarrow> intact e (s_committed s) \<and> (s_aborted s \<or> intact e (s_db s) \<and> C (s_db s))"

abbreviation sound :: "env \<Rightarrow> sess \<Rightarrow> bool" where
  "sound e \<equiv> under e (\<lambda>_. True)"

lemma intact_empty: "intact e empty_db"
  by (simp add: intact_def db_ok_def table_ok_def unclashed_def fit_def table_defs empty_db_def sealed_def
      keys_open_def fills_open_def one_admin_def admins_keyless_def trail_ok_def resets_audited_def
      runs_readable_def placed_def)


section \<open>Updates of one table\<close>

lemma dek_in_update [simp]:
  "dek_in e (t_users_update fa d) = dek_in e d" "dek_in e (t_sessions_update fb d) = dek_in e d"
  "dek_in e (t_setup_tokens_update fc d) = dek_in e d" "dek_in e (t_audit_log_update fd d) = dek_in e d"
  "dek_in e (t_fills_update fe d) = dek_in e d" "dek_in e (t_schwab_connections_update ff d) = dek_in e d"
  "dek_in e (t_broker_transactions_update fg d) = dek_in e d" "dek_in e (t_sync_runs_update fh d) = dek_in e d"
  "dek_in e (t_procrastinate_jobs_update fi d) = dek_in e d"
  by (simp_all add: fun_eq_iff dek_in_def key_rows_def)

lemma opens_update [simp]:
  "opens e (t_users_update fa d) = opens e d" "opens e (t_sessions_update fb d) = opens e d"
  "opens e (t_setup_tokens_update fc d) = opens e d" "opens e (t_audit_log_update fd d) = opens e d"
  "opens e (t_fills_update fe d) = opens e d" "opens e (t_schwab_connections_update ff d) = opens e d"
  "opens e (t_broker_transactions_update fg d) = opens e d" "opens e (t_sync_runs_update fh d) = opens e d"
  "opens e (t_procrastinate_jobs_update fi d) = opens e d"
  by (simp_all add: fun_eq_iff opens_def)

lemmas intact_parts = sealed_def keys_open_def fills_open_def broker_opens_def [abs_def] connection_opens_def [abs_def] one_admin_def
  admins_keyless_def trail_ok_def resets_audited_def runs_readable_def placed_def admin_in_def

lemma intactD:
  assumes "intact e d"
  shows "db_ok d" "sealed e d" "one_admin d" "admins_keyless d" "trail_ok d" "resets_audited d"
    "runs_readable d" "placed d"
  using assms by (simp_all add: intact_def)

text \<open>Tables the rest of the invariant does not look at.\<close>

lemma intact_sessions: "intact e d \<Longrightarrow> db_ok (t_sessions_update f d) \<Longrightarrow> intact e (t_sessions_update f d)"
  by (simp add: intact_def intact_parts)

lemma intact_jobs: "intact e d \<Longrightarrow> intact e (t_procrastinate_jobs_update f d)"
  by (simp add: intact_def intact_parts db_ok_def table_ok_def fit_def table_defs)

text \<open>A row more in one of the others.\<close>

lemma intact_token:
  assumes "intact e d" "db_ok (t_setup_tokens_update (\<lambda>_. t_setup_tokens d @ [t]) d)"
    "st_purpose t \<noteq> token_purpose_value PasswordReset \<or> list_ex (\<lambda>a. al_subject_id a = st_user_id t) (t_audit_log d)"
  shows "intact e (t_setup_tokens_update (\<lambda>_. t_setup_tokens d @ [t]) d)"
  using assms by (auto simp: intact_def intact_parts)

lemma intact_tokens_removed:
  assumes "intact e d" "db_ok (t_setup_tokens_update (\<lambda>_. filter P (t_setup_tokens d)) d)"
  shows "intact e (t_setup_tokens_update (\<lambda>_. filter P (t_setup_tokens d)) d)"
  using assms by (simp add: intact_def intact_parts list_all_iff)

lemma intact_audit:
  assumes "intact e d" "db_ok (t_audit_log_update (\<lambda>_. t_audit_log d @ [a]) d)" "admin_in d (al_reader_id a)"
  shows "intact e (t_audit_log_update (\<lambda>_. t_audit_log d @ [a]) d)"
  using assms by (auto simp: intact_def intact_parts list_all_iff)

lemma intact_run:
  assumes "intact e d" "db_ok (t_sync_runs_update (\<lambda>_. t_sync_runs d @ [r]) d)" "run_readable r"
  shows "intact e (t_sync_runs_update (\<lambda>_. t_sync_runs d @ [r]) d)"
  using assms by (simp add: intact_def intact_parts)

lemma intact_fill:
  assumes "intact e d" "db_ok (t_fills_update (\<lambda>_. t_fills d @ [r]) d)" "\<exists>rc. opens e d (f_user_id r) r rc"
  shows "intact e (t_fills_update (\<lambda>_. t_fills d @ [r]) d)"
  using assms by (simp add: intact_def intact_parts)

lemma intact_broker:
  assumes "intact e d" "db_ok (t_broker_transactions_update (\<lambda>_. t_broker_transactions d @ [r]) d)" "broker_opens e d r"
  shows "intact e (t_broker_transactions_update (\<lambda>_. t_broker_transactions d @ [r]) d)"
  using assms by (simp add: intact_def intact_parts)

lemma intact_connections:
  assumes "intact e d" "db_ok (t_schwab_connections_update (\<lambda>_. rs) d)" "list_all (connection_opens e d) rs"
  shows "intact e (t_schwab_connections_update (\<lambda>_. rs) d)"
  using assms by (simp add: intact_def intact_parts)

text \<open>A user's row whose identity and rights stay.\<close>

lemma intact_users_map:
  assumes "intact e d" "\<And>r. u_id (g r) = u_id r" "\<And>r. u_username (g r) = u_username r" "\<And>r. u_is_admin (g r) = u_is_admin r"
  shows "intact e (t_users_update (\<lambda>_. map g (t_users d)) d)"
proof -
  have "db_ok (tb_put users_table (map g (tb_rows users_table d)) d)"
    using intactD(1) [OF assms(1)] by (rule users_st.map_ok) (simp_all add: users_table_def assms)
  then have "db_ok (t_users_update (\<lambda>_. map g (t_users d)) d)" by (simp add: users_table_def)
  moreover have "admin_in (t_users_update (\<lambda>_. map g (t_users d)) d) u = admin_in d u" for u
    by (simp add: admin_in_def list_ex_iff assms)
  moreover have "one_admin (t_users_update (\<lambda>_. map g (t_users d)) d) = one_admin d"
    by (simp add: one_admin_def filter_map o_def assms)
  ultimately show ?thesis
    using assms(1)
    by (simp add: intact_def sealed_def keys_open_def fills_open_def broker_opens_def [abs_def]
        connection_opens_def [abs_def] admins_keyless_def trail_ok_def resets_audited_def runs_readable_def
        placed_def)
qed

text \<open>An account without a key is added, an administrator only when there is none.\<close>

lemma intact_user:
  assumes "intact e d" "db_ok (t_users_update (\<lambda>_. t_users d @ [r]) d)" "\<not> has_user d (u_id r)"
    "u_is_admin r \<Longrightarrow> \<not> list_ex u_is_admin (t_users d)"
  shows "intact e (t_users_update (\<lambda>_. t_users d @ [r]) d)"
proof -
  let ?d = "t_users_update (\<lambda>_. t_users d @ [r]) d"
  have "dk_user_id k \<noteq> u_id r" if "k \<in> set (t_user_data_keys d)" for k
    using that assms(3) intactD(1) [OF assms(1)]
    by (auto simp: db_ok_def table_ok_def fit_def user_data_keys_table_def list_all_iff)
  then have "admins_keyless ?d"
    using intactD(4) [OF assms(1)] by (fastforce simp: admins_keyless_def admin_in_def list_all_iff)
  moreover have "trail_ok ?d"
    using intactD(5) [OF assms(1)] by (auto simp: trail_ok_def admin_in_def list_all_iff)
  moreover have "one_admin ?d"
    using intactD(3) [OF assms(1)] assms(4) by (auto simp: one_admin_def list_ex_iff filter_empty_conv)
  ultimately show ?thesis
    using assms(1,2)
    by (simp add: intact_def sealed_def keys_open_def fills_open_def broker_opens_def [abs_def]
        connection_opens_def [abs_def] resets_audited_def runs_readable_def placed_def)
qed

section \<open>Keys\<close>

lemma dek_in_single:
  assumes "dek_in e d u v = Some dek"
  obtains k where "filter (\<lambda>r. dk_key_version r = v) (key_rows d u) = [k]" "k \<in> set (t_user_data_keys d)"
    "dk_user_id k = u" "dk_key_version k = v" "unwrapped e k = Some dek"
proof -
  from assms obtain k where k: "filter (\<lambda>r. dk_key_version r = v) (key_rows d u) = [k]"
    by (auto simp: dek_in_def split: list.splits)
  have "list_all (\<lambda>r. dk_key_version r = v \<and> r \<in> set (key_rows d u)) (filter (\<lambda>r. dk_key_version r = v) (key_rows d u))"
    by (simp add: list_all_iff)
  then have "dk_key_version k = v" "k \<in> set (key_rows d u)" by (simp_all add: k)
  moreover from this(2) have "k \<in> set (t_user_data_keys d)" "dk_user_id k = u" by (simp_all add: key_rows_def)
  moreover have "unwrapped e k = Some dek" using assms k by (simp add: dek_in_def)
  ultimately show ?thesis using k that by simp
qed

lemma dek_in_append:
  assumes "dek_in e d u v = Some dek" "\<not> list_ex (\<lambda>q. tb_clash user_data_keys_table q r) (t_user_data_keys d)"
  shows "dek_in e (t_user_data_keys_update (\<lambda>_. t_user_data_keys d @ [r]) d) u v = Some dek"
proof -
  obtain k where k: "filter (\<lambda>r. dk_key_version r = v) (key_rows d u) = [k]" "k \<in> set (t_user_data_keys d)"
    "dk_user_id k = u" "dk_key_version k = v" "unwrapped e k = Some dek"
    by (rule dek_in_single [OF assms(1)])
  then have "\<not> (dk_user_id r = u \<and> dk_key_version r = v)"
    using assms(2) by (auto simp: user_data_keys_table_def list_ex_iff)
  with k show ?thesis by (auto simp: dek_in_def key_rows_def)
qed

lemma sealed_keys_mono:
  assumes "sealed e d" "keys_open e d'" "t_fills d' = t_fills d" "t_broker_transactions d' = t_broker_transactions d"
    "t_schwab_connections d' = t_schwab_connections d"
    "\<And>u v dek. dek_in e d u v = Some dek \<Longrightarrow> dek_in e d' u v = Some dek"
  shows "sealed e d'"
proof -
  have "opens e d u r rc \<Longrightarrow> opens e d' u r rc" for u r rc
    unfolding opens_def using assms(6) by blast
  moreover have "broker_opens e d r \<Longrightarrow> broker_opens e d' r" for r
    unfolding broker_opens_def using assms(6) by blast
  moreover have "connection_opens e d r \<Longrightarrow> connection_opens e d' r" for r
    unfolding connection_opens_def using assms(6) by blast
  ultimately show ?thesis
    using assms(1-5) unfolding sealed_def fills_open_def list_all_iff by metis
qed

lemma intact_key:
  assumes "intact e d" "db_ok (t_user_data_keys_update (\<lambda>_. t_user_data_keys d @ [k]) d)"
    "\<not> list_ex (\<lambda>q. tb_clash user_data_keys_table q k) (t_user_data_keys d)"
    "dk_key_version k = 1" "key_opens e k" "\<not> admin_in d (dk_user_id k)"
  shows "intact e (t_user_data_keys_update (\<lambda>_. t_user_data_keys d @ [k]) d)"
proof -
  let ?d = "t_user_data_keys_update (\<lambda>_. t_user_data_keys d @ [k]) d"
  have "keys_open e ?d" using intactD(2) [OF assms(1)] assms(4,5) by (simp add: sealed_def keys_open_def)
  then have "sealed e ?d"
    by (rule sealed_keys_mono [OF intactD(2) [OF assms(1)]]) (simp_all add: dek_in_append assms(3))
  with assms show ?thesis
    by (simp add: intact_def one_admin_def admins_keyless_def trail_ok_def resets_audited_def runs_readable_def
        placed_def admin_in_def)
qed

lemma dek_in_version:
  assumes "keys_open e d" "dek_in e d u v = Some dek"
  shows "v = 1"
proof -
  from assms(2) obtain k where "k \<in> set (t_user_data_keys d)" "dk_key_version k = v"
    by (rule dek_in_single)
  with assms(1) show ?thesis by (auto simp: keys_open_def list_all_iff)
qed

lemma dek_in_row:
  assumes "keys_distinct d" "r \<in> set (t_user_data_keys d)" "unwrapped e r = Some dek"
  shows "dek_in e d (dk_user_id r) (dk_key_version r) = Some dek"
proof -
  have "r \<in> set (key_rows d (dk_user_id r))" using assms(2) by (simp add: key_rows_def)
  from keys_distinct_version [OF assms(1) this] assms(3) show ?thesis by (simp add: dek_in_def)
qed


section \<open>What the schema gives the other theories\<close>

lemma db_ok_keys: "db_ok d \<Longrightarrow> keys_distinct d"
  using unclashed_key [of user_data_keys_table "\<lambda>r. (dk_user_id r, dk_key_version r)" "t_user_data_keys d"]
  by (simp add: db_ok_def table_ok_def keys_distinct_def user_data_keys_table_def)

lemma db_ok_identity:
  assumes "db_ok d"
  shows "identity_ok d"
proof -
  have s: "distinct (map ss_token_hash (t_sessions d))"
    using unclashed_distinct [of sessions_table "t_sessions d" ss_token_hash] assms
    by (simp add: db_ok_def table_ok_def sessions_table_def)
  have t: "distinct (map st_token_hash (t_setup_tokens d))"
    using unclashed_distinct [of setup_tokens_table "t_setup_tokens d" st_token_hash] assms
    by (simp add: db_ok_def table_ok_def setup_tokens_table_def)
  have u: "distinct (map u_id (t_users d))" "distinct (map u_username (t_users d))"
    using unclashed_distinct [of users_table "t_users d" u_id] unclashed_distinct [of users_table "t_users d" u_username] assms
    by (simp_all add: db_ok_def table_ok_def users_table_def)
  have "list_all (\<lambda>r. has_user d (ss_user_id r)) (t_sessions d)"
    "list_all (\<lambda>r. has_user d (st_user_id r)) (t_setup_tokens d)"
    using assms by (simp_all add: db_ok_def table_ok_def fit_def sessions_table_def setup_tokens_table_def list_all_iff)
  with s t u show ?thesis by (simp add: identity_ok_def sessions_distinct_def tokens_distinct_def users_ok_def)
qed

end
