(* ===== verification/Sync_Promises.thy ===== *)
theory Sync_Promises
  imports Schwab_Sync
begin

text \<open>
  That a sync returns: with a vendor that serves valid elements, a connection that opens and a positive
  window range, \<open>sync_user\<close> succeeds. And the concrete vendor the witnesses run against.
\<close>

definition good_holder :: "env \<Rightarrow> token_holder \<Rightarrow> bool" where
  "good_holder e h \<longleftrightarrow> th_wrote h \<longrightarrow> wrapped_token_of e (th_token h) \<noteq> None"

text \<open>A vendor that answers every call with elements that validate, and rotates only to readable tokens.\<close>

definition vendor_serves :: "env \<Rightarrow> schwab_auth \<Rightarrow> string \<Rightarrow> bool" where
  "vendor_serves e auth account_hash \<longleftrightarrow>
     (\<forall>h. good_holder e h \<longrightarrow> fst (build_client auth h) = Inr () \<and> good_holder e (snd (build_client auth h))) \<and>
     (\<forall>n h a b. good_holder e h \<longrightarrow>
       (\<exists>response raws txs. fst (get_transactions auth n h account_hash a b) = Inr response \<and>
          validate_response e response = Inr (raws, txs) \<and>
          list_all (\<lambda>fw. int2 (fw_leg_index fw)) (fill_rows txs)) \<and>
       good_holder e (snd (get_transactions auth n h account_hash a b)))"

text \<open>A session ready to write for \<open>u\<close>: the user exists and holds one data key that unwraps.\<close>

definition ready :: "env \<Rightarrow> uuid \<Rightarrow> data_key_row \<Rightarrow> bytes \<Rightarrow> sess \<Rightarrow> bool" where
  "ready e u k dek s \<longleftrightarrow> as_user u s \<and> has_user (s_db s) u \<and> key_rows (s_db s) u = [k] \<and>
     unwrapped e k = Some dek \<and> int2 (dk_key_version k)"

lemma ready_dek: "ready e u k dek s \<Longrightarrow> current_dek e u s = (Inr (dek, dk_key_version k), s)"
  by (simp add: ready_def current_dek_single)

lemma insert_broker_ready:
  assumes "ready e u k dek s"
  shows "\<exists>n s'. insert_broker_transactions e u ws s = (Inr n, s') \<and> ready e u k dek s'"
proof -
  let ?s' = "after_batch broker_transactions_table broker_tx_row_key
    (sealed_broker e dek (dk_key_version k) u) (\<lambda>_. 1) s ws"
  have "insert_broker_transactions e u ws s =
      (Inr (length (landed_batch broker_transactions_table broker_tx_row_key
        (sealed_broker e dek (dk_key_version k) u) (\<lambda>_. 1) s ws)), ?s')"
    unfolding insert_broker_batch
    using assms ready_dek [OF assms]
    by (intro broker_bs.write_ok) (simp_all add: ready_def broker_chunk_size_def)
  moreover have "ready e u k dek ?s'"
    using assms by (simp add: ready_def after_batch_def key_rows_def has_user_def)
  ultimately show ?thesis by blast
qed

lemma insert_fills_ready:
  assumes "ready e u k dek s" "list_all (\<lambda>fw. int2 (fw_leg_index fw)) fws"
  shows "\<exists>n s'. insert_fills e u fws s = (Inr n, s') \<and> ready e u k dek s'"
proof -
  have "insert_fills e u fws s = (Inr (length (landed_fills e dek (dk_key_version k) u s fws)),
      after_fills e dek (dk_key_version k) u s fws)"
    unfolding insert_fills_def
    using assms ready_dek [OF assms(1)]
    by (intro insert_fills_chunked_run) (simp_all add: ready_def fill_chunk_size_def list_all_iff)
  moreover have "ready e u k dek (after_fills e dek (dk_key_version k) u s fws)"
    using assms by (simp add: ready_def key_rows_def)
  ultimately show ?thesis by blast
qed

lemma sync_window_ready:
  assumes "ready e u k dek s" "vendor_serves e auth acct" "good_holder e h"
  shows "\<exists>out' h' s'. sync_window e auth u acct n w (out, h) s = (Inr (out', h'), s') \<and>
    good_holder e h' \<and> ready e u k dek s'"
proof -
  obtain a b where w: "w = (a, b)" by fastforce
  obtain response raws txs where g: "fst (get_transactions auth n h acct a b) = Inr response"
    and v: "validate_response e response = Inr (raws, txs)"
    and i: "list_all (\<lambda>fw. int2 (fw_leg_index fw)) (fill_rows txs)"
    and h': "good_holder e (snd (get_transactions auth n h acct a b))"
    using assms(2,3) unfolding vendor_serves_def by blast
  obtain h1 where get: "get_transactions auth n h acct a b = (Inr response, h1)"
    using g by (metis prod.collapse)
  obtain m t where b: "insert_broker_transactions e u (broker_rows raws txs) s = (Inr m, t)"
    and t: "ready e u k dek t"
    using insert_broker_ready [OF assms(1)] by blast
  obtain f s' where "insert_fills e u (fill_rows txs) t = (Inr f, s')" "ready e u k dek s'"
    using insert_fills_ready [OF t i] by blast
  with get v b h' w show ?thesis by (simp add: sync_window_def op_run)
qed

lemma sync_all_windows_ready:
  assumes "ready e u k dek s" "vendor_serves e auth acct" "good_holder e h"
  shows "\<exists>out' h' s'. sync_all_windows e auth u acct n ws (out, h) s = (Inr (out', h'), s') \<and>
    good_holder e h' \<and> ready e u k dek s'"
  using assms
proof (induction ws arbitrary: n out h s)
  case (Cons w ws)
  obtain o1 h1 t where w: "sync_window e auth u acct n w (out, h) s = (Inr (o1, h1), t)"
    and "good_holder e h1" "ready e u k dek t"
    using sync_window_ready [OF Cons.prems] by blast
  from Cons.IH [OF this(3) Cons.prems(2) this(2)] w show ?case by (auto simp: op_run)
qed (auto simp: op_run)

lemma persist_token_ready:
  assumes "ready e u k dek s" "good_holder e h"
  shows "\<exists>s'. persist_token e u h s = (Inr (), s')"
  using assms ready_dek [OF assms(1)]
  by (auto simp: persist_token_def connection_current_dek_eq op_run good_holder_def encrypt_field_def
      draw_def connections_tb.upd_as ready_def split: option.split)

lemma sync_user_returns:
  assumes "s_role s = App" "\<not> s_aborted s" "has_user (s_db s) u" "key_rows (s_db s) u = [k]"
    "unwrapped e k = Some dek" "int2 (dk_key_version k)"
    "conn_of (s_db s) u = [row]" "open_connection e (s_db s) row = Some c"
    "0 < schwab_tx_max_range_days st" "vendor_serves e auth (cr_account_hash c)"
  shows "\<exists>out s'. sync_user e st auth u now s = (Inr out, s')"
proof -
  let ?g = "s\<lparr>s_user_guc := Some (uuid_str u)\<rparr>"
  let ?l = "\<lambda>t. t\<lparr>s_locks := hashtext e (uuid_str u) # s_locks t\<rparr>"
  have guc: "set_current_user (uuid_str u) s = (Inr (), ?g)"
    using assms(2) by (simp add: set_current_user_def on_live_def)
  have lock: "advisory_xact_lock (hashtext e (uuid_str u)) t = (Inr (), ?l t)" if "\<not> s_aborted t" for t
    using that by (simp add: advisory_xact_lock_def on_live_def)
  have t: "ready e u k dek (?l ?g)" "ready e u k dek (?l (?l ?g))"
    using assms(1-6) by (simp_all add: ready_def as_user_def)
  have c: "read_connection e u (?l ?g) = (Inr (Some c), ?l ?g)"
    "read_connection e u (?l (?l ?g)) = (Inr (Some c), ?l (?l ?g))"
    using t assms(7,8) by (auto simp: ready_def intro!: read_connection_as)
  obtain ws where ws: "sync_windows (cr_last_synced_at c) now st = Some ws"
    using sync_windows_total [OF assms(9)] by blast
  let ?h = "holder_init (wrapped_json c)"
  have "good_holder e ?h" by (simp add: good_holder_def holder_init_def)
  then obtain h1 where b: "build_client auth ?h = (Inr (), h1)" and h1: "good_holder e h1"
    using assms(10) unfolding vendor_serves_def by (metis prod.collapse)
  obtain out h2 t2 where s: "sync_all_windows e auth u (cr_account_hash c) 0 ws (no_outcome, h1) (?l (?l ?g)) =
      (Inr (out, h2), t2)" and h2: "good_holder e h2" "ready e u k dek t2"
    using sync_all_windows_ready [OF t(2) assms(10) h1] by blast
  obtain s' where "persist_token e u h2 t2 = (Inr (), s')"
    using persist_token_ready [OF h2(2,1)] by blast
  with guc lock c ws b s assms(2) show ?thesis
    by (simp add: sync_user_def schwab_client_for_user_def op_run)
qed

text \<open>
  C33: A sync returns. On a live session of the application role, for a user who exists, holds one data
  key and has a connection that opens, with a positive range and a vendor that serves valid elements
  for that connection's account, \<open>sync_user\<close> gives an outcome.
\<close>

theorem sync_user_succeeds:
  assumes "s_role s = App" "\<not> s_aborted s" "has_user (s_db s) u" "key_rows (s_db s) u = [k]"
    "unwrapped e k = Some dek" "int2 (dk_key_version k)"
    "conn_of (s_db s) u = [row]" "open_connection e (s_db s) row = Some c"
    "0 < schwab_tx_max_range_days st" "vendor_serves e auth (cr_account_hash c)"
  shows "\<exists>out s'. sync_user e st auth u now s = (Inr out, s')"
  using assms by (rule sync_user_returns)


section \<open>A concrete vendor\<close>

definition demo_element :: json where
  "demo_element = JObj [(''activityId'', JStr ''11''), (''type'', JStr ''TRADE''), (''time'', JInt 5),
     (''orderId'', JStr ''1006''), (''transferItems'', JArr [JObj [
       (''instrument'', JObj [(''symbol'', JStr ''SPX C1''), (''assetType'', JStr ''OPTION'')]),
       (''amount'', JInt 3), (''price'', JInt 12), (''positionEffect'', JStr ''OPENING'')]])]"

definition demo_lib :: "json \<Rightarrow> schwab_lib" where
  "demo_lib element = \<lparr>lib_auth_context = (\<lambda>k c t. ''https://'' @ t),
     lib_received_url = (\<lambda>c t u. (Inr (), [JObj [(''creation_timestamp'', JInt 5), (''token'', JStr ''tok'')]])),
     lib_access_functions = (\<lambda>c j. (Inr (), [])),
     lib_account_numbers = Inr \<lparr>rs_status = 200, rs_json = Some (JArr [JObj
       [(''accountNumber'', JStr ''1''), (''hashValue'', JStr ''hash'')]])\<rparr>,
     lib_transactions = (\<lambda>n j h a b. (Inr \<lparr>rs_status = 200, rs_json = Some (JArr [element])\<rparr>, []))\<rparr>"

definition demo_auth :: "json \<Rightarrow> schwab_auth" where
  "demo_auth element = \<lparr>sa_credentials = \<lparr>sc_api_key = ''k'', sc_app_secret = ''s'', sc_callback_url = ''u''\<rparr>,
     sa_lib = demo_lib element\<rparr>"

lemma demo_get_transactions:
  "get_transactions (demo_auth element) n h acct a b = (Inr (JArr [element]), h)"
  by (simp add: get_transactions_def demo_auth_def demo_lib_def response_json_def)

definition demo_transaction :: transaction where
  "demo_transaction = \<lparr>tx_activity_id = ''11'', tx_type = ''TRADE'', tx_time = 5, tx_order_id = Some ''1006'',
     tx_transfer_items = [\<lparr>ti_instrument = Some \<lparr>in_symbol = Some ''SPX C1'', in_asset_type = Some ''OPTION''\<rparr>,
       ti_amount = Some (Dec False 3 0), ti_price = Some (Dec False 12 0), ti_cost = None,
       ti_position_effect = Some ''OPENING''\<rparr>]\<rparr>"

lemma demo_transaction_of: "transaction_of demo_env demo_element = Some demo_transaction"
  by (simp add: transaction_of_def demo_element_def as_str_def optional_def as_list_def activity_id_of_def
      transfer_item_of_def instrument_of_def demo_env_def demo_transaction_def)

lemma demo_fill_rows: "fill_rows [demo_transaction] =
    [\<lparr>fw_order_id = ''1006'', fw_occ_symbol = ''SPXC1'', fw_leg_index = 0, fw_execution_time = 5,
      fw_position_effect = ''OPENING'', fw_side = ''BUY'', fw_quantity = Some (Dec False 3 0),
      fw_price_usd = Some (Dec False 12 0)\<rparr>]"
  by (simp add: fill_rows_def extract_fills_def demo_transaction_def is_option_item_def extract_leg_def
      direction_def dec_is_zero_def dec_pos_def Let_def)

lemma demo_vendor_serves: "vendor_serves demo_env (demo_auth demo_element) acct"
proof -
  have "validate_response demo_env (JArr [demo_element]) = Inr ([demo_element], [demo_transaction])"
    by (simp add: validate_response_def demo_transaction_of)
  moreover have "list_all (\<lambda>fw. int2 (fw_leg_index fw)) (fill_rows [demo_transaction])"
    by (simp add: demo_fill_rows)
  moreover have "build_client (demo_auth demo_element) h = (Inr (), h)" for h
    by (simp add: build_client_def demo_auth_def demo_lib_def)
  ultimately show ?thesis
    by (auto simp: vendor_serves_def demo_get_transactions)
qed

theorem sync_user_succeeds_witness:
  "\<exists>out s'. sync_user demo_env default_settings (demo_auth demo_element) demo_user 0 demo_conn_sess = (Inr out, s')"
proof (rule sync_user_succeeds)
  show "s_role demo_conn_sess = App" "\<not> s_aborted demo_conn_sess"
    by (simp_all add: demo_conn_sess_def demo_sess_def new_session_def)
  show "has_user (s_db demo_conn_sess) demo_user" "key_rows (s_db demo_conn_sess) demo_user = [demo_key_row]"
    "int2 (dk_key_version demo_key_row)"
    "conn_of (s_db demo_conn_sess) demo_user = [demo_conn_row]"
    "open_connection demo_env (s_db demo_conn_sess) demo_conn_row = Some demo_connection"
    by simp_all
  show "unwrapped demo_env demo_key_row = Some demo_dek" by (rule demo_unwrapped)
  show "0 < schwab_tx_max_range_days default_settings" by (simp add: default_settings_def)
  show "vendor_serves demo_env (demo_auth demo_element) (cr_account_hash demo_connection)"
    by (rule demo_vendor_serves)
qed

lemma demo_conn_app: "s_role demo_conn_sess = App"
  by (simp add: demo_conn_sess_def demo_sess_def new_session_def)

lemma demo_sync_returns:
  "\<exists>out s'. sync_user demo_env default_settings (demo_auth demo_element) demo_user 0 demo_conn_sess = (Inr out, s')"
proof -
  have r: "s_role demo_conn_sess = App" "\<not> s_aborted demo_conn_sess"
    by (simp_all add: demo_conn_sess_def demo_sess_def new_session_def)
  show ?thesis
    using sync_user_returns [of demo_conn_sess demo_user demo_key_row demo_env demo_dek demo_conn_row
        demo_connection default_settings "demo_auth demo_element"] r demo_vendor_serves
    by (simp add: default_settings_def)
qed

theorem sync_user_isolated_witness:
  "others 8 (s_db (snd (sync_user demo_env default_settings (demo_auth JNull) 8 0 demo_conn_sess))) =
     others 8 demo_conn_db \<and>
   s_committed (snd (sync_user demo_env default_settings (demo_auth JNull) 8 0 demo_conn_sess)) =
     s_committed demo_conn_sess"
  using sync_user_isolated [OF demo_conn_app, of 8 demo_env default_settings "demo_auth JNull" 0] by simp

theorem sync_user_reports_witness:
  "\<exists>out s'. sync_user demo_env default_settings (demo_auth demo_element) demo_user 0 demo_conn_sess = (Inr out, s') \<and>
    grown demo_conn_sess (so_broker_transactions_landed out) (so_fills_landed out) s'"
proof -
  obtain out s' where
    r: "sync_user demo_env default_settings (demo_auth demo_element) demo_user 0 demo_conn_sess = (Inr out, s')"
    using demo_sync_returns by blast
  have "keys_distinct (s_db demo_conn_sess)" by simp
  from sync_user_reports [OF demo_conn_app this r] r show ?thesis by blast
qed

text \<open>An order id sent as a number.\<close>

definition demo_numeric_order :: json where
  "demo_numeric_order = JObj [(''activityId'', JInt 11), (''type'', JStr ''TRADE''), (''time'', JInt 5),
     (''orderId'', JInt 1006), (''transferItems'', JArr [])]"

theorem bad_element_stops_window_witness:
  "sync_window demo_env (demo_auth demo_numeric_order) demo_user ''hash'' 0 (0, 1) (no_outcome, holder_init JNull)
     demo_conn_sess = (Inl ValidationError, demo_conn_sess)"
proof -
  have "transaction_of demo_env demo_numeric_order = None"
    by (simp add: transaction_of_def demo_numeric_order_def optional_def as_str_def split: option.split)
  moreover have "demo_numeric_order \<in> set [demo_numeric_order]" by simp
  ultimately show ?thesis by (intro bad_element_stops_window [OF demo_get_transactions])
qed

end
