(* ===== verification/Worker.thy ===== *)
theory Worker
  imports Sync_Runs Sync_Promises Rls Server
begin

text \<open>
  \<open>worker/app.py\<close>: the two jobs of the worker. A job opens its sessions on the server itself, so the
  state is what the server has committed; a session that is left without a commit leaves nothing.
\<close>

definition parse_uuid :: "string \<Rightarrow> uuid op" where
  "parse_uuid t = (case uuid_of_text t of None \<Rightarrow> raise ValueError | Some u \<Rightarrow> ret u)"

text \<open>The handler: roll back, record the failure on a fresh session, raise again.\<close>

definition record_failure ::
    "env \<Rightarrow> role \<Rightarrow> string \<Rightarrow> sync_trigger \<Rightarrow> datetime \<Rightarrow> datetime \<Rightarrow> exn \<Rightarrow> 'a op" where
  "record_failure e maker user_id trigger started_at finished_at exc =
     op_seq rollback
     (op_seq (fresh_session maker
       (op_seq (set_current_user user_id)
       (op_bind (parse_uuid user_id) (\<lambda>u.
        op_seq (record_sync_run e u started_at finished_at trigger Failed None None
          (Some (classify_sync_error exc)))
        commit))))
     (raise exc))"

definition sync_user_task ::
    "env \<Rightarrow> settings \<Rightarrow> schwab_auth \<Rightarrow> role \<Rightarrow> string \<Rightarrow> string \<Rightarrow> datetime \<Rightarrow> datetime \<Rightarrow>
     server \<Rightarrow> (exn + unit) \<times> server" where
  "sync_user_task e st auth maker user_id trigger started_at finished_at sv =
     (case sync_trigger_of trigger of
        None \<Rightarrow> (Inl ValueError, sv)
      | Some trigger \<Rightarrow> with_session maker
          (op_seq assert_connection_cannot_bypass_rls
          (op_bind (op_catch (op_bind (parse_uuid user_id) (\<lambda>u. sync_user e st auth u started_at))
              (record_failure e maker user_id trigger started_at finished_at)) (\<lambda>outcome.
           op_bind (parse_uuid user_id) (\<lambda>u.
           op_seq (record_sync_run e u started_at finished_at trigger Succeeded
             (Some (int (so_fills_landed outcome))) (Some (int (so_broker_transactions_landed outcome))) None)
           (op_bind (upd schwab_connections_table (\<lambda>r. c_user_id r = u)
             (\<lambda>r. r\<lparr>c_last_synced_at := Some started_at\<rparr>)) (\<lambda>_.
           commit)))))) sv)"

text \<open>The fan-out runs on the superuser engine and commits.\<close>

definition sync_all_connected_users_task :: "server \<Rightarrow> (exn + unit) \<times> server" where
  "sync_all_connected_users_task = with_session Superuser (op_bind sync_all_connected_users (\<lambda>_. commit))"


section \<open>The fan-out\<close>

lemma defer_all:
  "op_map (\<lambda>u. defer_async (f u)) us s = (Inr (map (\<lambda>_. ()) us), s\<lparr>
     s_committed := t_procrastinate_jobs_update (\<lambda>js. js @ map f us) (s_committed s),
     s_db := t_procrastinate_jobs_update (\<lambda>js. js @ map f us) (s_db s)\<rparr>)"
  by (induction us arbitrary: s) (simp_all add: op_run defer_async_def)

text \<open>
  The fan-out reaches everyone once. One tick adds to the queue exactly one scheduled job per stored
  connection, in the table's order and whoever owns it, and changes nothing else.
\<close>

theorem fan_out_exact:
  "sync_all_connected_users_task sv = (Inr (), sv\<lparr>sv_db := t_procrastinate_jobs_update
     (\<lambda>js. js @ map (\<lambda>r. scheduled_job (c_user_id r)) (t_schwab_connections (sv_db sv))) (sv_db sv)\<rparr>)"
proof -
  have "sel schwab_connections_table (\<lambda>_. True) (new_session Superuser (sv_db sv) (sv_draws sv)) =
      (Inr (t_schwab_connections (sv_db sv)), new_session Superuser (sv_db sv) (sv_draws sv))"
    by (simp add: sel_def stmt_def new_session_def policy_user_def row_visible_def)
  then show ?thesis
    by (simp add: sync_all_connected_users_task_def with_session_def sync_all_connected_users_def op_run
        defer_all Let_def commit_def new_session_def end_tx_def o_def)
qed


section \<open>One user's job\<close>

definition task_session :: "server \<Rightarrow> sess" where
  "task_session sv = new_session App (sv_db sv) (sv_draws sv)"

lemma task_session_simps [simp]:
  "s_role (task_session sv) = App" "s_db (task_session sv) = sv_db sv" "s_committed (task_session sv) = sv_db sv"
  "\<not> s_aborted (task_session sv)" "s_draws (task_session sv) = sv_draws sv"
  by (simp_all add: task_session_def new_session_def)

lemma gate_passes: "assert_connection_cannot_bypass_rls (task_session sv) = (Inr (), task_session sv)"
  by (simp add: assert_connection_cannot_bypass_rls_def on_running_def op_run role_flags_def)

text \<open>
  The gate comes first. On a connection that can bypass row-level security the job refuses before it
  reads or writes anything, and not even a failed run is recorded.
\<close>

theorem sync_task_refuses_superuser:
  "sync_user_task e st auth Superuser user_id (sync_trigger_value trigger) started_at finished_at sv =
     (Inl RuntimeError, sv)"
  by (simp add: sync_user_task_def with_session_def new_session_def op_run
      assert_connection_cannot_bypass_rls_def on_running_def role_flags_def)

lemma sync_failure_law:
  assumes "fst (sync_user e st auth u started_at (task_session sv)) = Inl x" "x \<noteq> Diverges"
    "has_user (sv_db sv) u" "new_run_ids e (sv_draws sv) (sv_db sv)"
  shows "\<exists>i n. sync_user_task e st auth App (uuid_str u) (sync_trigger_value trigger) started_at finished_at sv =
    (Inl x, \<lparr>sv_db = t_sync_runs_update (\<lambda>rs. rs @ [run_row i u started_at finished_at trigger Failed None None
       (Some (classify_sync_error x))]) (sv_db sv), sv_draws = n\<rparr>)"
proof -
  obtain s1 where s1: "sync_user e st auth u started_at (task_session sv) = (Inl x, s1)"
    using assms(1) by (metis prod.collapse)
  have com: "s_committed s1 = sv_db sv"
    and later: "sv_draws sv \<le> s_draws s1"
    using sync_user_confined [of "task_session sv" u e st auth started_at] by (simp_all add: s1)
  let ?f = "(new_session App (sv_db sv) (s_draws s1))\<lparr>s_user_guc := Some (uuid_str u)\<rparr>"
  have a: "as_user u ?f" by (simp add: as_user_def new_session_def)
  have g: "set_current_user (uuid_str u) (new_session App (sv_db sv) (s_draws s1)) = (Inr (), ?f)"
    by (simp add: set_current_user_def on_live_def new_session_def)
  have p: "pred_option int4 (None :: int option)" by simp
  have "s_db ?f = sv_db sv" "new_run_ids e (s_draws ?f) (sv_db sv)"
    using new_run_ids_later [OF assms(4) later] by (simp_all add: new_session_def)
  with record_sync_run_as [OF a _ _ p p] assms(3,4)
  have r: "record_sync_run e u started_at finished_at trigger Failed None None (Some (classify_sync_error x)) ?f =
      (Inr (), ?f\<lparr>s_draws := Suc (s_draws ?f), s_db := t_sync_runs_update (\<lambda>rs. rs @ [run_row
        (gen_uuid e (s_draws ?f)) u started_at finished_at trigger Failed None None
        (Some (classify_sync_error x))]) (sv_db sv)\<rparr>)"
    by simp
  have pu: "parse_uuid (uuid_str u) = ret u" by (simp add: parse_uuid_def)
  have "(record_failure e App (uuid_str u) trigger started_at finished_at x :: sync_outcome op) s1 = (Inl x,
      (end_tx (s1\<lparr>s_db := sv_db sv\<rparr>))\<lparr>
        s_committed := t_sync_runs_update (\<lambda>rs. rs @ [run_row (gen_uuid e (s_draws s1)) u started_at finished_at
          trigger Failed None None (Some (classify_sync_error x))]) (sv_db sv),
        s_db := t_sync_runs_update (\<lambda>rs. rs @ [run_row (gen_uuid e (s_draws s1)) u started_at finished_at
          trigger Failed None None (Some (classify_sync_error x))]) (sv_db sv),
        s_draws := Suc (s_draws s1)\<rparr>)"
    using g r
    by (simp add: record_failure_def op_run rollback_def com fresh_session_def pu commit_def end_tx_def
        new_session_def)
  then show ?thesis
    using s1 assms(2)
    by (auto simp: sync_user_task_def with_session_def op_run pu gate_passes simp flip: task_session_def)
qed

text \<open>
  C31: A failure leaves its record and nothing else. When the sync of a user raises (and so may have
  written part of its windows), the job raises the same exception, and what is committed afterwards is
  what was committed before plus exactly one failed run of that user: no counts, and the code the
  exception classifies to. No transaction, no fill and no token of the failed attempt survives.
\<close>

theorem sync_task_failure_recorded:
  assumes "fst (sync_user e st auth u started_at (task_session sv)) = Inl x" "x \<noteq> Diverges"
    "has_user (sv_db sv) u" "new_run_ids e (sv_draws sv) (sv_db sv)"
  shows "\<exists>i n. sync_user_task e st auth App (uuid_str u) (sync_trigger_value trigger) started_at finished_at sv =
    (Inl x, \<lparr>sv_db = t_sync_runs_update (\<lambda>rs. rs @ [run_row i u started_at finished_at trigger Failed None None
       (Some (classify_sync_error x))]) (sv_db sv), sv_draws = n\<rparr>)"
  using assms by (rule sync_failure_law)

text \<open>
  C32: A success is committed whole. When the sync of a user returns an outcome, the job succeeds and
  commits, in one transaction, everything the sync wrote, one succeeded run with the outcome's two
  counts, and the start of the run as the connection's last sync time.
\<close>

theorem sync_task_success_recorded:
  assumes "sync_user e st auth u started_at (task_session sv) = (Inr out, s1)"
    "has_user (sv_db sv) u" "keys_distinct (sv_db sv)" "new_run_ids e (sv_draws sv) (sv_db sv)"
    "int4 (int (so_fills_landed out))" "int4 (int (so_broker_transactions_landed out))"
  shows "\<exists>i n. sync_user_task e st auth App (uuid_str u) (sync_trigger_value trigger) started_at finished_at sv =
    (Inr (), \<lparr>sv_db = t_schwab_connections_update
        (map (\<lambda>r. if c_user_id r = u then r\<lparr>c_last_synced_at := Some started_at\<rparr> else r))
        (t_sync_runs_update (\<lambda>rs. rs @ [run_row i u started_at finished_at trigger Succeeded
           (Some (int (so_fills_landed out))) (Some (int (so_broker_transactions_landed out))) None]) (s_db s1)),
      sv_draws = n\<rparr>)"
proof -
  have k: "keys_distinct (s_db (task_session sv))" using assms(3) by simp
  from sync_user_grown [OF task_session_simps(1) k assms(1)]
  have g: "grown (task_session sv) (so_broker_transactions_landed out) (so_fills_landed out) s1"
    and a: "as_user u s1" by simp_all
  have h: "has_user (s_db s1) u" "new_run_ids e (s_draws s1) (s_db s1)"
    using g assms(2) new_run_ids_later [OF assms(4), of "s_draws s1"] sync_user_confined [of "task_session sv" u e st auth started_at]
    by (simp_all add: grown_def has_user_def new_run_ids_def assms(1))
  let ?row = "run_row (gen_uuid e (s_draws s1)) u started_at finished_at trigger Succeeded
      (Some (int (so_fills_landed out))) (Some (int (so_broker_transactions_landed out))) None"
  let ?s2 = "s1\<lparr>s_draws := Suc (s_draws s1), s_db := t_sync_runs_update (\<lambda>rs. rs @ [?row]) (s_db s1)\<rparr>"
  have r: "record_sync_run e u started_at finished_at trigger Succeeded (Some (int (so_fills_landed out)))
      (Some (int (so_broker_transactions_landed out))) None s1 = (Inr (), ?s2)"
    using assms(5,6) by (intro record_sync_run_as [OF a h]) simp_all
  have a2: "as_user u ?s2" using a by simp
  note up = connections_tb.upd_as [OF a2, of "\<lambda>r. r\<lparr>c_last_synced_at := Some started_at\<rparr>" "\<lambda>r. c_user_id r = u"]
  have pu: "parse_uuid (uuid_str u) = ret u" by (simp add: parse_uuid_def)
  let ?last = "\<lambda>r. if c_user_id r = u then r\<lparr>c_last_synced_at := Some started_at\<rparr> else r"
  have eq: "t_sync_runs_update f d\<lparr>t_schwab_connections := map ?last (t_schwab_connections d)\<rparr> =
      t_schwab_connections_update (map ?last) (t_sync_runs_update f d)" for f d
    by (cases d) simp
  have "\<not> s_aborted s1" using a by (simp add: as_user_def)
  with assms(1) r up show ?thesis
    by (auto simp: sync_user_task_def with_session_def op_run pu gate_passes commit_def end_tx_def eq
        simp flip: task_session_def)
qed

definition demo_server :: server where
  "demo_server = \<lparr>sv_db = demo_conn_db, sv_draws = 2\<rparr>"

lemma demo_server_simps [simp]: "sv_db demo_server = demo_conn_db" "new_run_ids e n demo_conn_db"
  by (simp_all add: demo_server_def new_run_ids_def demo_conn_db_def demo_db_def empty_db_def)

text \<open>A quiet day: the vendor has nothing to report.\<close>

definition quiet_auth :: schwab_auth where
  "quiet_auth = (demo_auth JNull)\<lparr>sa_lib := (demo_lib JNull)\<lparr>lib_transactions := (\<lambda>n j h a b.
     (Inr \<lparr>rs_status = 200, rs_json = Some (JArr [])\<rparr>, []))\<rparr>\<rparr>"

lemma quiet_windows: "sync_all_windows e quiet_auth u acct n ws (out, h) s = (Inr (out, h), s)"
proof (induction ws arbitrary: n)
  case (Cons w ws)
  have "sync_window e quiet_auth u acct n w (out, h) s = (Inr (out, h), s)"
    by (cases w) (simp add: sync_window_def get_transactions_def quiet_auth_def op_run response_json_def
        validate_response_def broker_rows_def fill_rows_def reasons_of_def insert_broker_transactions_def
        insert_fills_def insert_fills_chunked_def)
  with Cons show ?case by (simp add: op_run)
qed (simp add: op_run)

lemma quiet_sync:
  "\<exists>s1. sync_user demo_env default_settings quiet_auth demo_user 0 (task_session demo_server) = (Inr no_outcome, s1) \<and>
    s_db s1 = demo_conn_db"
proof -
  let ?g = "(task_session demo_server)\<lparr>s_user_guc := Some (uuid_str demo_user)\<rparr>"
  let ?l = "s_locks_update ((#) (hashtext demo_env (uuid_str demo_user)))"
  have a: "as_user demo_user (?l ?g)" "as_user demo_user (?l (?l ?g))" by (simp_all add: as_user_def)
  have d: "s_db (?l ?g) = demo_conn_db" "s_db (?l (?l ?g)) = demo_conn_db" by simp_all
  have c: "read_connection demo_env demo_user (?l ?g) = (Inr (Some demo_connection), ?l ?g)"
    "read_connection demo_env demo_user (?l (?l ?g)) = (Inr (Some demo_connection), ?l (?l ?g))"
    using read_connection_as [OF a(1)] read_connection_as [OF a(2)] d by simp_all
  obtain ws where ws: "sync_windows (cr_last_synced_at demo_connection) 0 default_settings = Some ws"
    using sync_windows_total [of default_settings] by (auto simp: default_settings_def)
  have b: "build_client quiet_auth h = (Inr (), h)" for h
    by (simp add: build_client_def quiet_auth_def demo_lib_def)
  show ?thesis
    using c ws b
    by (simp add: sync_user_def schwab_client_for_user_def op_run set_current_user_def advisory_xact_lock_def
        on_live_def quiet_windows persist_token_def holder_init_def)
qed

theorem sync_task_success_recorded_witness:
  "\<exists>d n. sync_user_task demo_env default_settings quiet_auth App (uuid_str demo_user) ''manual'' 0 1
     demo_server = (Inr (), \<lparr>sv_db = d, sv_draws = n\<rparr>) \<and>
   map r_status (t_sync_runs d) = [''succeeded''] \<and> map r_fills_landed (t_sync_runs d) = [Some 0] \<and>
   map c_last_synced_at (t_schwab_connections d) = [Some 0]"
proof -
  obtain s1 where r: "sync_user demo_env default_settings quiet_auth demo_user 0 (task_session demo_server) =
      (Inr no_outcome, s1)" and d: "s_db s1 = demo_conn_db"
    using quiet_sync by blast
  have h: "has_user (sv_db demo_server) demo_user" "keys_distinct (sv_db demo_server)"
    "new_run_ids demo_env (sv_draws demo_server) (sv_db demo_server)" "int4 (int (so_fills_landed no_outcome))"
    "int4 (int (so_broker_transactions_landed no_outcome))"
    by (simp_all add: no_outcome_def int4_def)
  have runs: "t_sync_runs (s_db s1) = []" "t_schwab_connections (s_db s1) = [demo_conn_row]"
    "c_user_id demo_conn_row = demo_user"
    by (simp_all add: d demo_conn_db_def demo_db_def empty_db_def demo_conn_row_def)
  from sync_task_success_recorded [OF r h, of Manual 1] runs show ?thesis
    by (auto simp: sync_trigger_value_def run_row_def no_outcome_def sync_status_value_def)
qed

text \<open>A day without a connection: the run fails, and says why.\<close>

theorem sync_task_failure_recorded_witness:
  "\<exists>i n. sync_user_task demo_env default_settings quiet_auth App (uuid_str demo_user) ''scheduled'' 0 1
     \<lparr>sv_db = demo_db, sv_draws = 0\<rparr> =
   (Inl ConnectionNotFound, \<lparr>sv_db = t_sync_runs_update (\<lambda>rs. rs @ [run_row i demo_user 0 1 Scheduled Failed None None
     (Some ErrConnectionNotFound)]) demo_db, sv_draws = n\<rparr>)"
proof -
  let ?sv = "\<lparr>sv_db = demo_db, sv_draws = 0\<rparr>"
  let ?t = "s_locks_update ((#) (hashtext demo_env (uuid_str demo_user)))
      ((task_session ?sv)\<lparr>s_user_guc := Some (uuid_str demo_user)\<rparr>)"
  have a: "as_user demo_user ?t" by (simp add: as_user_def)
  have "conn_of (s_db ?t) demo_user = []" by (simp add: conn_of_def demo_db_def empty_db_def)
  from read_connection_none [OF a this]
  have f: "fst (sync_user demo_env default_settings quiet_auth demo_user 0 (task_session ?sv)) = Inl ConnectionNotFound"
    by (simp add: sync_user_def op_run set_current_user_def advisory_xact_lock_def on_live_def)
  have h: "ConnectionNotFound \<noteq> Diverges" "has_user (sv_db ?sv) demo_user" "new_run_ids demo_env (sv_draws ?sv) (sv_db ?sv)"
    by simp_all
  from sync_task_failure_recorded [OF f h, of Scheduled 1] show ?thesis
    by (simp add: sync_trigger_value_def classify_sync_error_def)
qed

end
