(* ===== verification/Views.thy ===== *)
theory Views
  imports Op_Logic Worker Setup_Tokens
begin

text \<open>
  Invariants of a session that look at the database: one of what is committed, one of the session's own
  view while its transaction is usable. The rules of the statements reduce an operation to what it does
  to the rows of one table.
\<close>

definition views :: "(db \<Rightarrow> bool) \<Rightarrow> (db \<Rightarrow> bool) \<Rightarrow> sess \<Rightarrow> bool" where
  "views P Q s \<longleftrightarrow> P (s_committed s) \<and> (s_aborted s \<or> Q (s_db s))"

lemma views_stmt:
  assumes "\<And>s cu d x d'. Q d \<Longrightarrow> body s cu d = Inr (x, d') \<Longrightarrow> Q d'"
  shows "safe (views P Q) (stmt v tb body)"
proof (rule safeI)
  fix s
  assume u: "views P Q s"
  have "snd (stmt v tb body s) = s \<or> snd (stmt v tb body s) = s\<lparr>s_aborted := True\<rparr> \<or>
      (\<exists>cu x d. \<not> s_aborted s \<and> body s cu (s_db s) = Inr (x, d) \<and> snd (stmt v tb body s) = s\<lparr>s_db := d\<rparr>)"
    by (cases "policy_user tb s"; cases "body s (projr (policy_user tb s)) (s_db s)")
      (auto simp: stmt_def db_fail_def, blast+)
  then show "views P Q (snd (stmt v tb body s))"
  proof (elim disjE exE conjE)
    fix cu x d
    assume b: "\<not> s_aborted s" "body s cu (s_db s) = Inr (x, d)" "snd (stmt v tb body s) = s\<lparr>s_db := d\<rparr>"
    with u have "Q (s_db s)" by (simp add: views_def)
    from assms [OF this b(2)] u b show ?thesis by (simp add: views_def)
  qed (use u in \<open>simp_all add: views_def\<close>)
qed

lemma views_sel [safe_intros]: "safe (views P Q) (sel tb R)"
  unfolding sel_def by (rule views_stmt) auto

lemma views_ins:
  assumes "\<And>d. Q d \<Longrightarrow> tb_check tb r = None \<Longrightarrow> \<not> list_ex (\<lambda>q. tb_clash tb q r) (tb_rows tb d) \<Longrightarrow>
    tb_parents tb d r \<Longrightarrow> Q (tb_put tb (tb_rows tb d @ [r]) d)"
  shows "safe (views P Q) (ins tb r)"
  unfolding ins_def
  by (rule views_stmt) (use assms in \<open>auto simp: insert_row_def split: if_splits option.splits\<close>)

lemma offer_rows_keep:
  assumes "\<And>r d. r \<in> set rs \<Longrightarrow> Q d \<Longrightarrow> tb_check tb r = None \<Longrightarrow>
      \<not> list_ex (\<lambda>q. tb_clash tb q r) (tb_rows tb d) \<Longrightarrow> tb_parents tb d r \<Longrightarrow> Q (tb_put tb (tb_rows tb d @ [r]) d)"
    "offer_rows tb w rs d = Inr (ls, d')" "Q d"
  shows "Q d'"
  using assms
proof (induction rs arbitrary: d ls)
  case (Cons r rs)
  have ok: "tb_check tb r = None"
    using Cons.prems(2) by (auto split: if_splits option.splits)
  show ?case
  proof (cases "list_ex (\<lambda>q. tb_clash tb q r) (tb_rows tb d)")
    case True
    then have "offer_rows tb w rs d = Inr (ls, d')"
      using Cons.prems(2) ok by (simp split: if_splits)
    from Cons.IH [OF _ this] Cons.prems show ?thesis by simp
  next
    case False
    let ?d = "tb_put tb (tb_rows tb d @ [r]) d"
    obtain ls' where o: "offer_rows tb w rs ?d = Inr (ls', d')" and p: "tb_parents tb d r"
      using Cons.prems(2) ok False by (auto simp: map_sum_def split: if_splits sum.splits)
    have "Q ?d" using Cons.prems ok False p by simp
    with Cons.IH [OF _ o] Cons.prems(1) show ?thesis by simp
  qed
qed simp

lemma views_ins_nothing:
  assumes "\<And>r d. r \<in> set rs \<Longrightarrow> Q d \<Longrightarrow> tb_check tb r = None \<Longrightarrow>
    \<not> list_ex (\<lambda>q. tb_clash tb q r) (tb_rows tb d) \<Longrightarrow> tb_parents tb d r \<Longrightarrow> Q (tb_put tb (tb_rows tb d @ [r]) d)"
  shows "safe (views P Q) (ins_on_conflict_do_nothing tb rs)"
  unfolding ins_on_conflict_do_nothing_def
  by (rule views_stmt) (rule offer_rows_keep [of rs Q tb], use assms in blast)

lemma views_upsert:
  assumes "\<And>d. Q d \<Longrightarrow> tb_check tb r = None \<Longrightarrow> \<not> list_ex (\<lambda>q. tb_clash tb q r) (tb_rows tb d) \<Longrightarrow>
      tb_parents tb d r \<Longrightarrow> Q (tb_put tb (tb_rows tb d @ [r]) d)"
    "\<And>d. Q d \<Longrightarrow> tb_check tb r = None \<Longrightarrow> Q (tb_put tb (map (\<lambda>q. if tb_clash tb q r then f q else q) (tb_rows tb d)) d)"
  shows "safe (views P Q) (ins_on_conflict_do_update tb r f)"
  unfolding ins_on_conflict_do_update_def
  by (rule views_stmt) (use assms in \<open>auto simp: insert_row_def split: if_splits option.splits\<close>)

lemma views_upd:
  assumes "\<And>d hit. Q d \<Longrightarrow> (\<And>r. hit r \<Longrightarrow> R r) \<Longrightarrow> Q (tb_put tb (map (\<lambda>r. if hit r then f r else r) (tb_rows tb d)) d)"
  shows "safe (views P Q) (upd tb R f)"
  unfolding upd_def
proof (rule views_stmt)
  fix s cu d x d'
  let ?hit = "\<lambda>r. row_visible tb s cu r \<and> R r"
  assume q: "Q d" and "(let hit = ?hit; rows = tb_rows tb d
     in if list_all (\<lambda>r. hit r \<longrightarrow> row_writable tb s cu (f r)) rows
        then Inr (length (filter hit rows), tb_put tb (map (\<lambda>r. if hit r then f r else r) rows) d)
        else Inl InsufficientPrivilege) = Inr (x, d')"
  then have "d' = tb_put tb (map (\<lambda>r. if ?hit r then f r else r) (tb_rows tb d)) d"
    by (simp add: Let_def split: if_splits)
  with assms [OF q, of ?hit] show "Q d'" by simp
qed

lemma views_del:
  assumes "\<And>d hit. Q d \<Longrightarrow> (\<And>r. hit r \<Longrightarrow> R r) \<Longrightarrow> \<not> list_ex (\<lambda>r. hit r \<and> tb_referenced tb d r) (tb_rows tb d) \<Longrightarrow>
    Q (tb_put tb (filter (\<lambda>r. \<not> hit r) (tb_rows tb d)) d)"
  shows "safe (views P Q) (del tb R)" "safe (views P Q) (del_returning tb R)"
proof -
  have keep: "Q d'"
    if "Q d" "(let hit = \<lambda>r. row_visible tb s cu r \<and> R r; rows = tb_rows tb d
     in if list_ex (\<lambda>r. hit r \<and> tb_referenced tb d r) rows then Inl IntegrityError
        else Inr (g (filter hit rows), tb_put tb (filter (\<lambda>r. \<not> hit r) rows) d)) = Inr (x, d')"
    for s cu d x d' and g :: "'a list \<Rightarrow> 'b"
    using assms [OF that(1), of "\<lambda>r. row_visible tb s cu r \<and> R r"] that(2)
    by (auto simp: Let_def split: if_splits)
  show "safe (views P Q) (del tb R)" "safe (views P Q) (del_returning tb R)"
    unfolding del_def del_returning_def
    by (rule views_stmt, erule keep, assumption)+
qed

lemma views_still:
  assumes "\<And>s. s_committed (snd (m s)) = s_committed s" "\<And>s. s_db (snd (m s)) = s_db s"
    "\<And>s. s_aborted s \<Longrightarrow> s_aborted (snd (m s))"
  shows "safe (views P Q) m"
  by (rule safeI) (use assms in \<open>auto simp: views_def\<close>)

lemma views_settings [safe_intros]:
  "safe (views P Q) (set_current_user t)" "safe (views P Q) (set_is_admin t)"
  "safe (views P Q) (advisory_xact_lock k)" "safe (views P Q) (draw e' n)" "safe (views P Q) (draw_uuid e')"
  "safe (views P Q) (login_lookup name)" "safe (views P Q) require_rls_context"
  "safe (views P Q) assert_connection_cannot_bypass_rls"
  "safe (views P Q) (generate_token e')" "safe (views P Q) (hash_password e' p)"
  by (rule views_still, auto simp: set_current_user_def set_is_admin_def advisory_xact_lock_def on_live_def
      draw_def draw_uuid_def login_lookup_def require_rls_context_def assert_connection_cannot_bypass_rls_def
      on_running_def op_run generate_token_run hash_password_def split: option.split prod.split)+

lemma views_commit: "(\<And>d. Q d \<Longrightarrow> P d) \<Longrightarrow> safe (views P Q) commit"
  by (rule safeI) (auto simp: views_def commit_def end_tx_def)

lemma views_rollback: "(\<And>d. P d \<Longrightarrow> Q d) \<Longrightarrow> safe (views P Q) rollback"
  by (rule safeI) (auto simp: views_def rollback_def end_tx_def)

lemma views_new_session: "P d \<Longrightarrow> Q d \<Longrightarrow> views P Q (new_session r d n)"
  by (simp add: views_def new_session_def)

lemma views_fresh_session:
  assumes "safe (views P Q) m" "\<And>d. P d = Q d"
  shows "safe (views P Q) (fresh_session r m)"
proof (rule safeI)
  fix s
  assume "views P Q s"
  then have "views P Q (new_session r (s_committed s) (s_draws s))" by (intro views_new_session) (simp_all add: views_def assms(2))
  with assms(1) have "views P Q (snd (m (new_session r (s_committed s) (s_draws s))))" by (rule safeD)
  then show "views P Q (snd (fresh_session r m s))"
    by (auto simp: fresh_session_def views_def assms(2) Let_def split: prod.split)
qed

lemma with_session_views:
  assumes "P (sv_db sv)" "Q (sv_db sv)" "safe (views P Q) m"
  shows "P (sv_db (snd (with_session r m sv)))"
proof -
  have "views P Q (snd (m (new_session r (sv_db sv) (sv_draws sv))))"
    using assms by (intro safeD [OF assms(3)] views_new_session)
  then show ?thesis by (simp add: with_session_def views_def Let_def split_beta)
qed

end
