(* ===== verification/Rotation.thy ===== *)
theory Rotation
  imports Server Tokens
begin

text \<open>
  \<open>crypto/rotation.py\<close> and \<open>tools/rotate_kek.py\<close>: every data key wrapped again under a new master
  key, and nothing else touched.
\<close>

section \<open>Re-wrapping\<close>

type_synonym key_id = "uuid \<times> int"

definition key_id_of :: "data_key_row \<Rightarrow> key_id" where
  "key_id_of r = (dk_user_id r, dk_key_version r)"

text \<open>One row of the loop: the row object with its two columns reassigned, in memory.\<close>

definition rewrap :: "env \<Rightarrow> bytes \<Rightarrow> bytes \<Rightarrow> data_key_row \<Rightarrow> data_key_row op" where
  "rewrap e old_kek new_kek row =
     op_bind (unwrap_dek e (dk_wrapped_dek row) (dk_wrap_nonce row) old_kek) (\<lambda>dek.
     op_bind (wrap_dek e dek new_kek) (\<lambda>(new_wrapped_dek, new_wrap_nonce).
     ret (row\<lparr>dk_wrapped_dek := new_wrapped_dek, dk_wrap_nonce := new_wrap_nonce\<rparr>)))"

text \<open>\<open>session.flush()\<close>: one UPDATE by primary key for each changed row.\<close>

definition flush_key :: "data_key_row \<Rightarrow> nat op" where
  "flush_key c = upd user_data_keys_table (\<lambda>r. key_id_of r = key_id_of c)
     (\<lambda>r. r\<lparr>dk_wrapped_dek := dk_wrapped_dek c, dk_wrap_nonce := dk_wrap_nonce c\<rparr>)"

definition key_order :: "data_key_row \<Rightarrow> nat \<times> int" where
  "key_order r = (unat (dk_user_id r), dk_key_version r)"

definition rotate_kek :: "env \<Rightarrow> bytes \<Rightarrow> bytes \<Rightarrow> nat op" where
  "rotate_kek e old_kek new_kek =
     op_bind (sel user_data_keys_table (\<lambda>_. True)) (\<lambda>rows.
     op_bind (op_map (rewrap e old_kek new_kek) (sort_key key_order rows)) (\<lambda>changed.
     op_bind (op_map flush_key changed) (\<lambda>_. ret (length changed))))"

text \<open>
  The operator's script: both keys are Base64 of exactly 32 bytes, or it stops with exit code 2 before
  it connects; it runs on the superuser engine and commits once.
\<close>

definition decode_key :: "string \<Rightarrow> bytes option" where
  "decode_key raw = (case b64_decode raw of None \<Rightarrow> None
     | Some decoded \<Rightarrow> if length decoded = 32 then Some decoded else None)"

definition rotate_run :: "env \<Rightarrow> bytes \<Rightarrow> bytes \<Rightarrow> server \<Rightarrow> (exn + nat) \<times> server" where
  "rotate_run e old_kek new_kek = with_session Superuser
     (op_bind (rotate_kek e old_kek new_kek) (\<lambda>n. op_seq commit (ret n)))"

datatype exit = ExitOk nat | ExitUsage | ExitRaised exn

definition rotate_main :: "env \<Rightarrow> string option \<Rightarrow> string option \<Rightarrow> server \<Rightarrow> exit \<times> server" where
  "rotate_main e old_key new_key sv =
     (case (old_key, new_key) of
        (Some old, Some new) \<Rightarrow>
          if old = [] \<or> new = [] then (ExitUsage, sv)
          else (case decode_key old of
                  None \<Rightarrow> (ExitUsage, sv)
                | Some old_kek \<Rightarrow> (case decode_key new of
                    None \<Rightarrow> (ExitUsage, sv)
                  | Some new_kek \<Rightarrow> (case rotate_run e old_kek new_kek sv of
                      (Inl x, sv') \<Rightarrow> (ExitRaised x, sv')
                    | (Inr n, sv') \<Rightarrow> (ExitOk n, sv'))))
      | _ \<Rightarrow> (ExitUsage, sv))"


section \<open>The loop\<close>

definition dek_under :: "env \<Rightarrow> bytes \<Rightarrow> data_key_row \<Rightarrow> bytes option" where
  "dek_under e kek r = aes_dec e kek (dk_wrap_nonce r) (dk_wrapped_dek r) None"

lemma unwrapped_opens: "unwrapped e r = dek_under e (master_key_bytes e) r"
  by (simp add: unwrapped_def dek_under_def)

lemma unwrapped_under [simp]: "unwrapped (e\<lparr>master_key_bytes := k\<rparr>) r = dek_under e k r"
  by (simp add: unwrapped_def dek_under_def)

text \<open>A row and its re-wrapped copy: the same key, now under the new master key.\<close>

definition rewrapped :: "env \<Rightarrow> bytes \<Rightarrow> bytes \<Rightarrow> data_key_row \<Rightarrow> data_key_row \<Rightarrow> bool" where
  "rewrapped e old_kek new_kek r c \<longleftrightarrow> key_id_of c = key_id_of r \<and>
     (\<exists>dek n. dek_under e old_kek r = Some dek \<and> dk_wrap_nonce c = n \<and>
        dk_wrapped_dek c = aes_enc e new_kek n dek None)"

lemma rewrap_run:
  "rewrap e old_kek new_kek r s = (case dek_under e old_kek r of
     None \<Rightarrow> (Inl InvalidTag, s)
   | Some dek \<Rightarrow> (Inr (r\<lparr>dk_wrapped_dek := aes_enc e new_kek (urandom e (s_draws s) 12) dek None,
       dk_wrap_nonce := urandom e (s_draws s) 12\<rparr>), s\<lparr>s_draws := Suc (s_draws s)\<rparr>))"
  by (simp add: rewrap_def unwrap_dek_def wrap_dek_def draw_def op_run dek_under_def split: option.split)

lemma rewrap_all:
  assumes "list_all (\<lambda>r. dek_under e old_kek r \<noteq> None) rows"
  shows "\<exists>changed n. op_map (rewrap e old_kek new_kek) rows s = (Inr changed, s\<lparr>s_draws := n\<rparr>) \<and>
    list_all2 (rewrapped e old_kek new_kek) rows changed"
  using assms
proof (induction rows arbitrary: s)
  case Nil
  then show ?case by (auto simp: op_run intro: exI [of _ "s_draws s"])
next
  case (Cons r rows)
  then obtain dek where dek: "dek_under e old_kek r = Some dek" by auto
  let ?s = "s\<lparr>s_draws := Suc (s_draws s)\<rparr>"
  from Cons obtain changed n where
    c: "op_map (rewrap e old_kek new_kek) rows ?s = (Inr changed, ?s\<lparr>s_draws := n\<rparr>)"
    "list_all2 (rewrapped e old_kek new_kek) rows changed" by fastforce
  let ?c = "r\<lparr>dk_wrapped_dek := aes_enc e new_kek (urandom e (s_draws s) 12) dek None,
     dk_wrap_nonce := urandom e (s_draws s) 12\<rparr>"
  have "rewrapped e old_kek new_kek r ?c" using dek by (simp add: rewrapped_def key_id_of_def)
  with c show ?case
    by (intro exI [of _ "?c # changed"] exI [of _ n]) (simp add: op_run rewrap_run [of e old_kek new_kek r s] dek)
qed

lemma rewrap_stops:
  assumes "\<not> list_all (\<lambda>r. dek_under e old_kek r \<noteq> None) rows"
  shows "\<exists>n. op_map (rewrap e old_kek new_kek) rows s = (Inl InvalidTag, s\<lparr>s_draws := n\<rparr>)"
  using assms
proof (induction rows arbitrary: s)
  case (Cons r rows)
  show ?case
  proof (cases "dek_under e old_kek r")
    case None
    then show ?thesis by (auto simp: op_run rewrap_run [of e old_kek new_kek r s] intro: exI [of _ "s_draws s"])
  next
    case (Some dek)
    with Cons.prems have "\<not> list_all (\<lambda>r. dek_under e old_kek r \<noteq> None) rows" by auto
    from Cons.IH [OF this, of "s\<lparr>s_draws := Suc (s_draws s)\<rparr>"] Some show ?thesis
      by (auto simp: op_run rewrap_run [of e old_kek new_kek r s])
  qed
qed simp

text \<open>The flush, row by row: each stored row takes the columns of the changed row of its key.\<close>

definition refreshed :: "data_key_row list \<Rightarrow> data_key_row \<Rightarrow> data_key_row" where
  "refreshed changed r = (case map_of (map (\<lambda>c. (key_id_of c, c)) changed) (key_id_of r) of
     None \<Rightarrow> r
   | Some c \<Rightarrow> r\<lparr>dk_wrapped_dek := dk_wrapped_dek c, dk_wrap_nonce := dk_wrap_nonce c\<rparr>)"

lemma flush_run:
  assumes "super s"
  shows "flush_key c s = (Inr (length (filter (\<lambda>r. key_id_of r = key_id_of c) (t_user_data_keys (s_db s)))),
    s\<lparr>s_db := t_user_data_keys_update (\<lambda>_. map (refreshed [c]) (t_user_data_keys (s_db s))) (s_db s)\<rparr>)"
proof -
  have "refreshed [c] = (\<lambda>r. if key_id_of r = key_id_of c
      then r\<lparr>dk_wrapped_dek := dk_wrapped_dek c, dk_wrap_nonce := dk_wrap_nonce c\<rparr> else r)"
    by (auto simp: refreshed_def)
  then show ?thesis
    by (simp add: flush_key_def upd_super [OF assms]) (simp add: user_data_keys_table_def)
qed

lemma refreshed_id: "key_id_of (refreshed cs r) = key_id_of r"
  by (simp add: refreshed_def key_id_of_def split: option.split)

lemma refreshed_Cons:
  assumes "key_id_of c \<notin> key_id_of ` set cs"
  shows "refreshed cs (refreshed [c] r) = refreshed (c # cs) r"
proof (cases "key_id_of r = key_id_of c")
  case True
  then have "map_of (map (\<lambda>c. (key_id_of c, c)) cs) (key_id_of r) = None"
    using assms by (simp add: map_of_eq_None_iff image_image)
  with True show ?thesis
    by (simp add: refreshed_def [of cs] refreshed_id) (simp add: refreshed_def)
next
  case False
  then show ?thesis by (simp add: refreshed_def)
qed

lemma flush_all:
  assumes "super s" "distinct (map key_id_of changed)"
  shows "\<exists>ns. op_map flush_key changed s = (Inr ns, s\<lparr>s_db := t_user_data_keys_update
    (\<lambda>_. map (refreshed changed) (t_user_data_keys (s_db s))) (s_db s)\<rparr>)"
  using assms
proof (induction changed arbitrary: s)
  case Nil
  have "refreshed [] = (\<lambda>r. r)" by (simp add: refreshed_def fun_eq_iff)
  then show ?case by (simp add: op_run)
next
  case (Cons c cs)
  let ?s = "s\<lparr>s_db := t_user_data_keys_update (\<lambda>_. map (refreshed [c]) (t_user_data_keys (s_db s))) (s_db s)\<rparr>"
  have "super ?s" using Cons.prems(1) by (simp add: super_def)
  with Cons obtain ns where ns: "op_map flush_key cs ?s = (Inr ns, ?s\<lparr>s_db := t_user_data_keys_update
    (\<lambda>_. map (refreshed cs) (t_user_data_keys (s_db ?s))) (s_db ?s)\<rparr>)" by fastforce
  have "map (refreshed cs) (map (refreshed [c]) rows) = map (refreshed (c # cs)) rows" for rows
    using Cons.prems(2) by (simp add: refreshed_Cons)
  with ns show ?case by (simp add: op_run flush_run [OF Cons.prems(1)])
qed


section \<open>What a rotation does\<close>

text \<open>Stored keys before and after: the same rows in the same order, each opening to the same data key.\<close>

definition same_keys :: "env \<Rightarrow> bytes \<Rightarrow> bytes \<Rightarrow> data_key_row list \<Rightarrow> data_key_row list \<Rightarrow> bool" where
  "same_keys e old_kek new_kek = list_all2 (\<lambda>r r'. key_id_of r' = key_id_of r \<and>
     dek_under e new_kek r' = dek_under e old_kek r)"

lemma refreshed_opens:
  assumes "aead_correct e" "list_all2 (rewrapped e old_kek new_kek) rows changed" "distinct (map key_id_of rows)"
    "r \<in> set rows"
  shows "\<exists>c. refreshed changed r = r\<lparr>dk_wrapped_dek := dk_wrapped_dek c, dk_wrap_nonce := dk_wrap_nonce c\<rparr> \<and>
    rewrapped e old_kek new_kek r c"
proof -
  from assms(2,4) obtain c where c: "c \<in> set changed" "rewrapped e old_kek new_kek r c"
    by (metis in_set_conv_nth list_all2_conv_all_nth)
  have "map key_id_of changed = map key_id_of rows"
    using assms(2) by (auto simp: list_all2_conv_all_nth rewrapped_def intro: nth_equalityI)
  then have "distinct (map fst (map (\<lambda>c. (key_id_of c, c)) changed))"
    using assms(3) by (simp add: o_def)
  then have "map_of (map (\<lambda>c. (key_id_of c, c)) changed) (key_id_of r) = Some c"
    using c by (intro map_of_is_SomeI) (auto simp: rewrapped_def image_iff)
  with c show ?thesis by (auto simp: refreshed_def)
qed

lemma rewrapped_opens:
  assumes "aead_correct e" "rewrapped e old_kek new_kek r c"
  shows "dek_under e new_kek (r\<lparr>dk_wrapped_dek := dk_wrapped_dek c, dk_wrap_nonce := dk_wrap_nonce c\<rparr>) =
    dek_under e old_kek r"
  using assms by (auto simp: rewrapped_def dek_under_def aead_correctD)

lemma rotate_kek_run:
  assumes "aead_correct e" "super s" "keys_distinct (s_db s)"
    "list_all (\<lambda>r. dek_under e old_kek r \<noteq> None) (t_user_data_keys (s_db s))"
  shows "\<exists>ks n. rotate_kek e old_kek new_kek s = (Inr (length (t_user_data_keys (s_db s))),
     s\<lparr>s_draws := n, s_db := t_user_data_keys_update (\<lambda>_. ks) (s_db s)\<rparr>) \<and>
     same_keys e old_kek new_kek (t_user_data_keys (s_db s)) ks \<and>
     list_all (\<lambda>r. \<exists>m dek. dk_wrapped_dek r = aes_enc e new_kek m dek None \<and> dk_wrap_nonce r = m) ks"
proof -
  let ?rows = "t_user_data_keys (s_db s)"
  let ?sorted = "sort_key key_order ?rows"
  have sel: "sel user_data_keys_table (\<lambda>_. True) s = (Inr ?rows, s)"
    by (simp add: sel_super [OF assms(2)]) (simp add: user_data_keys_table_def)
  have "list_all (\<lambda>r. dek_under e old_kek r \<noteq> None) ?sorted" using assms(4) by (simp add: list_all_iff)
  from rewrap_all [OF this, of new_kek s] obtain changed n where
    c: "op_map (rewrap e old_kek new_kek) ?sorted s = (Inr changed, s\<lparr>s_draws := n\<rparr>)"
    "list_all2 (rewrapped e old_kek new_kek) ?sorted changed" by blast
  have d: "distinct (map key_id_of ?rows)"
    using assms(3) by (simp add: keys_distinct_def key_id_of_def [abs_def])
  then have ds: "distinct (map key_id_of ?sorted)"
    by (simp add: distinct_map)
  have "map key_id_of changed = map key_id_of ?sorted"
    using c(2) by (auto simp: list_all2_conv_all_nth rewrapped_def intro: nth_equalityI)
  with ds have "distinct (map key_id_of changed)" by simp
  from flush_all [OF _ this, of "s\<lparr>s_draws := n\<rparr>"] assms(2) obtain ns where
    f: "op_map flush_key changed (s\<lparr>s_draws := n\<rparr>) = (Inr ns, s\<lparr>s_draws := n,
      s_db := t_user_data_keys_update (\<lambda>_. map (refreshed changed) ?rows) (s_db s)\<rparr>)" by auto
  have l: "length changed = length ?rows" using c(2) by (simp add: list_all2_conv_all_nth)
  have r: "\<exists>x. refreshed changed r = r\<lparr>dk_wrapped_dek := dk_wrapped_dek x, dk_wrap_nonce := dk_wrap_nonce x\<rparr> \<and>
      rewrapped e old_kek new_kek r x" if "r \<in> set ?rows" for r
    using refreshed_opens [OF assms(1) c(2) ds] that by simp
  have "dek_under e new_kek (refreshed changed r) = dek_under e old_kek r" if "r \<in> set ?rows" for r
    using r [OF that] rewrapped_opens [OF assms(1)] by fastforce
  then have "same_keys e old_kek new_kek ?rows (map (refreshed changed) ?rows)"
    by (simp add: same_keys_def list_all2_conv_all_nth refreshed_id)
  moreover have "list_all (\<lambda>r. \<exists>m dek. dk_wrapped_dek r = aes_enc e new_kek m dek None \<and> dk_wrap_nonce r = m)
      (map (refreshed changed) ?rows)"
    using r by (fastforce simp: list_all_iff rewrapped_def)
  moreover have "rotate_kek e old_kek new_kek s = (Inr (length ?rows), s\<lparr>s_draws := n,
      s_db := t_user_data_keys_update (\<lambda>_. map (refreshed changed) ?rows) (s_db s)\<rparr>)"
    by (simp add: rotate_kek_def op_bind_def sel c(1) f l ret_def)
  ultimately show ?thesis by blast
qed

lemma rotate_run_stops:
  assumes "\<not> list_all (\<lambda>r. dek_under e old_kek r \<noteq> None) (t_user_data_keys (sv_db sv))"
  shows "\<exists>n. rotate_run e old_kek new_kek sv = (Inl InvalidTag, sv\<lparr>sv_draws := n\<rparr>)"
proof -
  let ?s = "new_session Superuser (sv_db sv) (sv_draws sv)"
  have su: "super ?s" by (simp add: super_def new_session_def)
  have db: "s_db ?s = sv_db sv" "s_committed ?s = sv_db sv" by (simp_all add: new_session_def)
  have sel: "sel user_data_keys_table (\<lambda>_. True) ?s = (Inr (t_user_data_keys (sv_db sv)), ?s)"
    by (simp add: sel_super [OF su]) (simp add: user_data_keys_table_def db)
  have "\<not> list_all (\<lambda>r. dek_under e old_kek r \<noteq> None) (sort_key key_order (t_user_data_keys (sv_db sv)))"
    using assms by (simp add: list_all_iff)
  from rewrap_stops [OF this, of new_kek ?s] obtain n where
    "op_map (rewrap e old_kek new_kek) (sort_key key_order (t_user_data_keys (sv_db sv))) ?s =
      (Inl InvalidTag, ?s\<lparr>s_draws := n\<rparr>)" by blast
  then have "rotate_kek e old_kek new_kek ?s = (Inl InvalidTag, ?s\<lparr>s_draws := n\<rparr>)"
    by (simp add: rotate_kek_def op_bind_def sel)
  then show ?thesis
    by (auto simp: rotate_run_def with_session_def op_bind_def db intro: exI [of _ n])
qed

text \<open>
  A rotation with a wrong master key changes nothing. If one stored data key does not open under the
  old master key, wherever it stands in the order, the rotation raises \<open>InvalidTag\<close> and the script leaves
  the whole database as it was: no row is left wrapped under the new key.
\<close>

theorem rotate_kek_wrong_key:
  assumes "\<not> list_all (\<lambda>r. dek_under e old_kek r \<noteq> None) (t_user_data_keys (sv_db sv))"
  shows "\<exists>n. rotate_run e old_kek new_kek sv = (Inl InvalidTag, sv\<lparr>sv_draws := n\<rparr>)"
  using assms by (rule rotate_run_stops)

end
