(* ===== verification/Rotation_Reads.thy ===== *)
theory Rotation_Reads
  imports Rotation Events Fills Connections Demo_World
begin

text \<open>
  A rotation seen by the readers. Two operations run in lockstep when, from related sessions, they give
  the same answer and related sessions again; every read path runs in lockstep with itself across a
  rotation, the master key of the settings changed with it.
\<close>

section \<open>Lockstep\<close>

definition lockstep :: "(sess \<Rightarrow> sess \<Rightarrow> bool) \<Rightarrow> 'a op \<Rightarrow> 'a op \<Rightarrow> bool" where
  "lockstep R m m' \<longleftrightarrow> (\<forall>s s'. R s s' \<longrightarrow> fst (m' s') = fst (m s) \<and> R (snd (m s)) (snd (m' s')))"

named_theorems lockstep_intros \<open>operations in lockstep\<close>

lemma lockstep_const [lockstep_intros]:
  "lockstep R (ret x) (ret x)" "lockstep R (raise y) (raise y)"
  by (simp_all add: lockstep_def op_run)

lemma lockstep_bind [lockstep_intros]:
  assumes "lockstep R m m'" "\<And>x. lockstep R (f x) (f' x)"
  shows "lockstep R (op_bind m f) (op_bind m' f')"
  unfolding lockstep_def
proof (intro allI impI)
  fix s s'
  assume R: "R s s'"
  obtain r t where m: "m s = (r, t)" by fastforce
  obtain t' where m': "m' s' = (r, t')" and t: "R t t'"
    using assms(1) R m unfolding lockstep_def by (metis fst_conv prod.collapse snd_conv)
  show "fst (op_bind m' f' s') = fst (op_bind m f s) \<and> R (snd (op_bind m f s)) (snd (op_bind m' f' s'))"
  proof (cases r)
    case (Inl x)
    with m m' t show ?thesis by (simp add: op_bind_def)
  next
    case (Inr x)
    with m m' t assms(2) [of x] show ?thesis by (simp add: op_bind_def lockstep_def)
  qed
qed

lemma lockstep_option [lockstep_intros]:
  "(x = None \<Longrightarrow> lockstep R m m') \<Longrightarrow> (\<And>a. x = Some a \<Longrightarrow> lockstep R (f a) (f' a)) \<Longrightarrow>
   lockstep R (case x of None \<Rightarrow> m | Some a \<Rightarrow> f a) (case x of None \<Rightarrow> m' | Some a \<Rightarrow> f' a)"
  by (cases x) simp_all

lemma lockstep_prod [lockstep_intros]:
  "(\<And>a b. lockstep R (f a b) (f' a b)) \<Longrightarrow>
   lockstep R (case p of (a, b) \<Rightarrow> f a b) (case p of (a, b) \<Rightarrow> f' a b)"
  by (cases p) simp

lemma lockstep_one_or_none [lockstep_intros]: "lockstep R (one_or_none xs) (one_or_none xs)"
  by (simp add: one_or_none_def lockstep_def op_run split: list.split)


section \<open>Across a rotation\<close>

text \<open>The same session, on a database in which nothing but the wrapping of the data keys differs.\<close>

definition rotated :: "env \<Rightarrow> bytes \<Rightarrow> bytes \<Rightarrow> sess \<Rightarrow> sess \<Rightarrow> bool" where
  "rotated e old_kek new_kek s s' \<longleftrightarrow> (\<exists>ks. s' = s\<lparr>s_db := t_user_data_keys_update (\<lambda>_. ks) (s_db s)\<rparr> \<and>
     same_keys e old_kek new_kek (t_user_data_keys (s_db s)) ks)"

lemma policy_db [simp]:
  "row_visible tb (s\<lparr>s_db := d\<rparr>) = row_visible tb s" "policy_user tb (s\<lparr>s_db := d\<rparr>) = policy_user tb s"
  by (simp_all add: row_visible_def policy_user_def fun_eq_iff split: policy.split)

lemma rotated_aborted: "rotated e old_kek new_kek s s' \<Longrightarrow>
    rotated e old_kek new_kek (s\<lparr>s_aborted := True\<rparr>) (s'\<lparr>s_aborted := True\<rparr>)"
proof -
  assume "rotated e old_kek new_kek s s'"
  then obtain ks where "s' = s\<lparr>s_db := t_user_data_keys_update (\<lambda>_. ks) (s_db s)\<rparr>"
    "same_keys e old_kek new_kek (t_user_data_keys (s_db s)) ks" by (auto simp: rotated_def)
  then show ?thesis unfolding rotated_def by (intro exI [of _ ks]) simp
qed

lemma lockstep_sel:
  assumes "\<And>ks d. tb_rows tb (t_user_data_keys_update (\<lambda>_. ks) d) = tb_rows tb d"
  shows "lockstep (rotated e old_kek new_kek) (sel tb P) (sel tb P)"
  unfolding lockstep_def
proof (intro allI impI)
  fix s s'
  assume R: "rotated e old_kek new_kek s s'"
  then obtain ks where s': "s' = s\<lparr>s_db := t_user_data_keys_update (\<lambda>_. ks) (s_db s)\<rparr>" by (auto simp: rotated_def)
  have "fst (sel tb P s') = fst (sel tb P s)"
    by (cases "policy_user tb s") (simp_all add: s' sel_def stmt_def db_fail_def assms)
  moreover have "snd (sel tb P s) = s \<and> snd (sel tb P s') = s' \<or>
      snd (sel tb P s) = s\<lparr>s_aborted := True\<rparr> \<and> snd (sel tb P s') = s'\<lparr>s_aborted := True\<rparr>"
    by (cases "policy_user tb s") (simp_all add: s' sel_def stmt_def db_fail_def)
  ultimately show "fst (sel tb P s') = fst (sel tb P s) \<and>
      rotated e old_kek new_kek (snd (sel tb P s)) (snd (sel tb P s'))"
    using R rotated_aborted [OF R] by metis
qed

lemma lockstep_sel_tables [lockstep_intros]:
  "lockstep (rotated e old_kek new_kek) (sel fills_table P) (sel fills_table P)"
  "lockstep (rotated e old_kek new_kek) (sel events_table Q) (sel events_table Q)"
  "lockstep (rotated e old_kek new_kek) (sel schwab_connections_table C) (sel schwab_connections_table C)"
  by (simp_all add: lockstep_sel fills_table_def events_table_def schwab_connections_table_def)

lemma filter_same_keys:
  assumes "same_keys e old_kek new_kek rows ks" "\<And>r r'. key_id_of r' = key_id_of r \<Longrightarrow> P r' = P r"
  shows "same_keys e old_kek new_kek (filter P rows) (filter P ks)"
  using assms(1) unfolding same_keys_def
proof (induction rule: list_all2_induct)
  case (Cons r rows r' ks)
  with assms(2) [of r' r] show ?case by simp
qed simp

lemma sel_keys_rotated:
  assumes "rotated e old_kek new_kek s s'" "\<And>r r'. key_id_of r' = key_id_of r \<Longrightarrow> P r' = P r"
  shows "(\<exists>x. sel user_data_keys_table P s = (Inl x, s) \<and> sel user_data_keys_table P s' = (Inl x, s')) \<or>
    (\<exists>x. sel user_data_keys_table P s = (Inl x, s\<lparr>s_aborted := True\<rparr>) \<and>
       sel user_data_keys_table P s' = (Inl x, s'\<lparr>s_aborted := True\<rparr>)) \<or>
    (\<exists>rs ks. sel user_data_keys_table P s = (Inr rs, s) \<and> sel user_data_keys_table P s' = (Inr ks, s') \<and>
       same_keys e old_kek new_kek rs ks)"
proof -
  obtain ks where s': "s' = s\<lparr>s_db := t_user_data_keys_update (\<lambda>_. ks) (s_db s)\<rparr>"
    and k: "same_keys e old_kek new_kek (t_user_data_keys (s_db s)) ks"
    using assms(1) by (auto simp: rotated_def)
  have "row_visible user_data_keys_table s cu r' = row_visible user_data_keys_table s cu r"
    if "key_id_of r' = key_id_of r" for cu r r'
    using that by (simp add: row_visible_def user_data_keys_table_def key_id_of_def)
  with assms(2) have "same_keys e old_kek new_kek
      (filter (\<lambda>r. row_visible user_data_keys_table s cu r \<and> P r) (t_user_data_keys (s_db s)))
      (filter (\<lambda>r. row_visible user_data_keys_table s cu r \<and> P r) ks)" for cu
    by (intro filter_same_keys [OF k]) blast
  moreover have "tb_rows user_data_keys_table = t_user_data_keys" by (simp add: user_data_keys_table_def)
  ultimately show ?thesis
    by (cases "policy_user user_data_keys_table s") (auto simp: s' sel_def stmt_def db_fail_def)
qed

lemma one_or_none_same_keys:
  assumes "same_keys e old_kek new_kek rs ks"
  obtains "rs = []" "ks = []"
  | r k where "rs = [r]" "ks = [k]" "dek_under e new_kek k = dek_under e old_kek r"
  | a b ra c d kc where "rs = a # b # ra" "ks = c # d # kc"
proof (cases rs)
  case Nil
  with assms that(1) show ?thesis by (simp add: same_keys_def)
next
  case r: (Cons r rs')
  with assms obtain k ks' where k: "ks = k # ks'" "dek_under e new_kek k = dek_under e old_kek r"
    "length ks' = length rs'"
    by (auto simp: same_keys_def list_all2_Cons1 dest: list_all2_lengthD)
  with r that(2,3) show ?thesis by (cases rs'; cases ks') auto
qed

lemma unwrap_dek_opens:
  "unwrap_dek e' (dk_wrapped_dek r) (dk_wrap_nonce r) k = (case dek_under e' k r of
     None \<Rightarrow> raise InvalidTag | Some dek \<Rightarrow> ret dek)"
  by (simp add: unwrap_dek_def dek_under_def)

lemma opens_under [simp]: "dek_under (e\<lparr>master_key_bytes := m\<rparr>) k r = dek_under e k r"
  by (simp add: dek_under_def)

lemma lockstep_dek_for_version [lockstep_intros]:
  "lockstep (rotated e old_kek new_kek)
     (dek_for_version (e\<lparr>master_key_bytes := old_kek\<rparr>) x u v) (dek_for_version (e\<lparr>master_key_bytes := new_kek\<rparr>) x u v)"
  unfolding lockstep_def
proof (intro allI impI)
  fix s s'
  assume R: "rotated e old_kek new_kek s s'"
  let ?P = "\<lambda>r. dk_user_id r = u \<and> dk_key_version r = v"
  let ?rest = "\<lambda>rows kek. op_bind (one_or_none rows) (\<lambda>key_row. case key_row of None \<Rightarrow> raise x
    | Some r \<Rightarrow> unwrap_dek (e\<lparr>master_key_bytes := kek\<rparr>) (dk_wrapped_dek r) (dk_wrap_nonce r) kek)"
  have run: "dek_for_version (e\<lparr>master_key_bytes := kek\<rparr>) x u v t =
      op_bind (sel user_data_keys_table ?P) (\<lambda>rows. ?rest rows kek) t" for kek t
    by (simp add: dek_for_version_def cong: option.case_cong)
  have "?P r' = ?P r" if "key_id_of r' = key_id_of r" for r r'
    using that by (simp add: key_id_of_def)
  from sel_keys_rotated [where P = ?P, OF R this]
  consider (fail) y where "sel user_data_keys_table ?P s = (Inl y, s)" "sel user_data_keys_table ?P s' = (Inl y, s')"
  | (abort) y where "sel user_data_keys_table ?P s = (Inl y, s\<lparr>s_aborted := True\<rparr>)"
      "sel user_data_keys_table ?P s' = (Inl y, s'\<lparr>s_aborted := True\<rparr>)"
  | (found) rs ks where "sel user_data_keys_table ?P s = (Inr rs, s)" "sel user_data_keys_table ?P s' = (Inr ks, s')"
      "same_keys e old_kek new_kek rs ks" by blast
  then show "fst (dek_for_version (e\<lparr>master_key_bytes := new_kek\<rparr>) x u v s') =
      fst (dek_for_version (e\<lparr>master_key_bytes := old_kek\<rparr>) x u v s) \<and>
    rotated e old_kek new_kek (snd (dek_for_version (e\<lparr>master_key_bytes := old_kek\<rparr>) x u v s))
      (snd (dek_for_version (e\<lparr>master_key_bytes := new_kek\<rparr>) x u v s'))"
  proof cases
    case fail
    with R show ?thesis by (simp add: run op_bind_def)
  next
    case abort
    with rotated_aborted [OF R] show ?thesis by (simp add: run op_bind_def)
  next
    case found
    from found(3) show ?thesis
      by (rule one_or_none_same_keys)
        (use R in \<open>simp_all add: run op_bind_def found one_or_none_def op_run unwrap_dek_opens split: option.split\<close>)
  qed
qed


section \<open>The readers\<close>

text \<open>What does not look at the master key is the same operation under both.\<close>

lemma decrypt_under [simp]:
  "decrypt_field (e\<lparr>master_key_bytes := k\<rparr>) = decrypt_field e"
  by (simp add: fun_eq_iff decrypt_field_def)

lemma decrypt_amount_under [simp]:
  "decrypt_amount (e\<lparr>master_key_bytes := k\<rparr>) = decrypt_amount e"
  by (intro ext) (simp add: decrypt_amount_def split: option.split)

lemma records_under [simp]:
  "fill_record_of (e\<lparr>master_key_bytes := k\<rparr>) = fill_record_of e"
  "event_record_of (e\<lparr>master_key_bytes := k\<rparr>) = event_record_of e"
  by (intro ext, simp add: fill_record_of_def event_record_of_def)+

lemma lockstep_decrypt [lockstep_intros]:
  "lockstep R (decrypt_field e c n dek ad) (decrypt_field e c n dek ad)"
  unfolding decrypt_field_def by (intro lockstep_intros)

lemma lockstep_amount [lockstep_intros]:
  "lockstep R (decrypt_amount e dek ad c n) (decrypt_amount e dek ad c n)"
  unfolding decrypt_amount_def by (intro lockstep_intros)

lemma lockstep_records [lockstep_intros]:
  "lockstep R (fill_record_of e dek u f) (fill_record_of e dek u f)"
  "lockstep R (event_record_of e dek u v) (event_record_of e dek u v)"
  unfolding fill_record_of_def event_record_of_def Let_def by (intro lockstep_intros)+

lemma lockstep_cached [lockstep_intros]:
  "lockstep (rotated e old_kek new_kek) (cached_dek (e\<lparr>master_key_bytes := old_kek\<rparr>) x u c v)
     (cached_dek (e\<lparr>master_key_bytes := new_kek\<rparr>) x u c v)"
  unfolding cached_dek_def by (intro lockstep_intros)

lemma lockstep_fill_rows [lockstep_intros]:
  "lockstep (rotated e old_kek new_kek) (read_fill_rows (e\<lparr>master_key_bytes := old_kek\<rparr>) u c rows)
     (read_fill_rows (e\<lparr>master_key_bytes := new_kek\<rparr>) u c rows)"
  by (induction rows arbitrary: c) (auto intro!: lockstep_intros)

lemma lockstep_event_rows [lockstep_intros]:
  "lockstep (rotated e old_kek new_kek) (read_event_rows (e\<lparr>master_key_bytes := old_kek\<rparr>) u c rows)
     (read_event_rows (e\<lparr>master_key_bytes := new_kek\<rparr>) u c rows)"
  by (induction rows arbitrary: c) (auto intro!: lockstep_intros)

lemma lockstep_reads:
  "lockstep (rotated e old_kek new_kek) (read_fills (e\<lparr>master_key_bytes := old_kek\<rparr>) u)
     (read_fills (e\<lparr>master_key_bytes := new_kek\<rparr>) u)"
  "lockstep (rotated e old_kek new_kek) (read_events (e\<lparr>master_key_bytes := old_kek\<rparr>) u)
     (read_events (e\<lparr>master_key_bytes := new_kek\<rparr>) u)"
  "lockstep (rotated e old_kek new_kek) (read_connection (e\<lparr>master_key_bytes := old_kek\<rparr>) u)
     (read_connection (e\<lparr>master_key_bytes := new_kek\<rparr>) u)"
  unfolding read_fills_def read_events_def read_connection_def records_under decrypt_under
  by (auto intro!: lockstep_intros)


section \<open>What a rotation promises\<close>

lemma rotate_run_ok:
  assumes "aead_correct e" "keys_distinct (sv_db sv)"
    "list_all (\<lambda>r. dek_under e old_kek r \<noteq> None) (t_user_data_keys (sv_db sv))"
  obtains ks n where "rotate_run e old_kek new_kek sv = (Inr (length (t_user_data_keys (sv_db sv))),
      \<lparr>sv_db = t_user_data_keys_update (\<lambda>_. ks) (sv_db sv), sv_draws = n\<rparr>)"
    "same_keys e old_kek new_kek (t_user_data_keys (sv_db sv)) ks"
    "list_all (\<lambda>r. \<exists>m dek. dk_wrapped_dek r = aes_enc e new_kek m dek None \<and> dk_wrap_nonce r = m) ks"
proof -
  let ?s = "new_session Superuser (sv_db sv) (sv_draws sv)"
  have su: "super ?s" and db: "s_db ?s = sv_db sv" "\<not> s_aborted ?s"
    by (simp_all add: super_def new_session_def)
  from rotate_kek_run [OF assms(1) su, of old_kek new_kek] assms(2,3) db obtain ks n where
    r: "rotate_kek e old_kek new_kek ?s = (Inr (length (t_user_data_keys (sv_db sv))),
      ?s\<lparr>s_draws := n, s_db := t_user_data_keys_update (\<lambda>_. ks) (sv_db sv)\<rparr>)"
    and k: "same_keys e old_kek new_kek (t_user_data_keys (sv_db sv)) ks"
      "list_all (\<lambda>r. \<exists>m dek. dk_wrapped_dek r = aes_enc e new_kek m dek None \<and> dk_wrap_nonce r = m) ks"
    by auto
  have "rotate_run e old_kek new_kek sv = (Inr (length (t_user_data_keys (sv_db sv))),
      \<lparr>sv_db = t_user_data_keys_update (\<lambda>_. ks) (sv_db sv), sv_draws = n\<rparr>)"
    by (simp add: rotate_run_def with_session_def op_bind_def op_seq_def r commit_def ret_def end_tx_def
        db)
  with k that show ?thesis by blast
qed

text \<open>
  C20: A rotation is invisible to every reader. When every stored data key opens under the old master
  key, the script re-wraps and commits all of them, changes no other table, and from then on, with the
  new master key in the settings, every read of fills, of events and of the broker connection, by any
  session and for any user, answers exactly what it answered before under the old one, failures included.
\<close>

theorem rotation_invisible:
  assumes "aead_correct e" "keys_distinct (sv_db sv)"
    "list_all (\<lambda>r. dek_under e old_kek r \<noteq> None) (t_user_data_keys (sv_db sv))"
    "rotate_run e old_kek new_kek sv = (result, sv')" "s_db t = sv_db sv"
  shows "result = Inr (length (t_user_data_keys (sv_db sv))) \<and>
    sv_db sv' = (sv_db sv)\<lparr>t_user_data_keys := t_user_data_keys (sv_db sv')\<rparr> \<and>
    fst (read_fills (e\<lparr>master_key_bytes := new_kek\<rparr>) u (t\<lparr>s_db := sv_db sv'\<rparr>)) =
      fst (read_fills (e\<lparr>master_key_bytes := old_kek\<rparr>) u t) \<and>
    fst (read_events (e\<lparr>master_key_bytes := new_kek\<rparr>) u (t\<lparr>s_db := sv_db sv'\<rparr>)) =
      fst (read_events (e\<lparr>master_key_bytes := old_kek\<rparr>) u t) \<and>
    fst (read_connection (e\<lparr>master_key_bytes := new_kek\<rparr>) u (t\<lparr>s_db := sv_db sv'\<rparr>)) =
      fst (read_connection (e\<lparr>master_key_bytes := old_kek\<rparr>) u t)"
proof -
  obtain ks n where r: "rotate_run e old_kek new_kek sv = (Inr (length (t_user_data_keys (sv_db sv))),
      \<lparr>sv_db = t_user_data_keys_update (\<lambda>_. ks) (sv_db sv), sv_draws = n\<rparr>)"
    and k: "same_keys e old_kek new_kek (t_user_data_keys (sv_db sv)) ks"
    by (rule rotate_run_ok [OF assms(1-3)])
  have sv': "sv_db sv' = t_user_data_keys_update (\<lambda>_. ks) (sv_db sv)"
    and res: "result = Inr (length (t_user_data_keys (sv_db sv)))" using assms(4) r by auto
  have "rotated e old_kek new_kek t (t\<lparr>s_db := sv_db sv'\<rparr>)"
    unfolding rotated_def using k by (intro exI [of _ ks]) (simp add: sv' assms(5))
  with lockstep_reads [of e old_kek new_kek u] show ?thesis
    by (simp add: lockstep_def sv' res)
qed

text \<open>
  A rotation retires the old master key. After it, no stored data key opens under the old key any
  more, so a leaked old key reads nothing from the database.
\<close>

theorem rotation_retires_old_key:
  assumes "aead_correct e" "aead_binding e" "old_kek \<noteq> new_kek" "keys_distinct (sv_db sv)"
    "list_all (\<lambda>r. dek_under e old_kek r \<noteq> None) (t_user_data_keys (sv_db sv))"
  shows "list_all (\<lambda>r. dek_under e old_kek r = None \<and> dek_under e new_kek r \<noteq> None)
    (t_user_data_keys (sv_db (snd (rotate_run e old_kek new_kek sv))))"
proof -
  obtain ks n where r: "rotate_run e old_kek new_kek sv = (Inr (length (t_user_data_keys (sv_db sv))),
      \<lparr>sv_db = t_user_data_keys_update (\<lambda>_. ks) (sv_db sv), sv_draws = n\<rparr>)"
    and k: "list_all (\<lambda>r. \<exists>m dek. dk_wrapped_dek r = aes_enc e new_kek m dek None \<and> dk_wrap_nonce r = m) ks"
    by (rule rotate_run_ok [OF assms(1,4,5)])
  have "dek_under e old_kek r = None \<and> dek_under e new_kek r \<noteq> None"
    if "dk_wrapped_dek r = aes_enc e new_kek m dek None" "dk_wrap_nonce r = m" for r m dek
    using that assms(1-3) by (simp add: dek_under_def aead_bindingD aead_correctD)
  with k show ?thesis by (auto simp: r list_all_iff)
qed


section \<open>Witnesses\<close>

definition demo_kek_server :: server where
  "demo_kek_server = \<lparr>sv_db = demo_db, sv_draws = 0\<rparr>"

definition demo_new_kek :: bytes where
  "demo_new_kek = replicate 32 (CHR ''N'')"

lemma demo_keys_open:
  "list_all (\<lambda>r. dek_under demo_env (master_key_bytes demo_env) r \<noteq> None) (t_user_data_keys (sv_db demo_kek_server))"
  using demo_unwrapped
  by (simp add: demo_kek_server_def demo_db_def unwrapped_opens)

lemma demo_new_kek_differs: "master_key_bytes demo_env \<noteq> demo_new_kek"
  by (simp add: demo_env_def demo_new_kek_def)

theorem rotation_invisible_witness:
  "\<exists>sv'. rotate_run demo_env (master_key_bytes demo_env) demo_new_kek demo_kek_server = (Inr 1, sv') \<and>
    fst (read_fills (demo_env\<lparr>master_key_bytes := demo_new_kek\<rparr>) demo_user (demo_sess\<lparr>s_db := sv_db sv'\<rparr>)) =
      fst (read_fills (demo_env\<lparr>master_key_bytes := master_key_bytes demo_env\<rparr>) demo_user demo_sess)"
proof -
  obtain result sv' where r:
    "rotate_run demo_env (master_key_bytes demo_env) demo_new_kek demo_kek_server = (result, sv')" by fastforce
  have "keys_distinct (sv_db demo_kek_server)" "s_db demo_sess = sv_db demo_kek_server"
    by (simp_all add: demo_kek_server_def)
  from rotation_invisible [OF demo_aead_correct this(1) demo_keys_open r this(2), of demo_user]
  show ?thesis by (simp add: r) (simp add: demo_kek_server_def demo_db_def)
qed

theorem rotation_retires_old_key_witness:
  "list_all (\<lambda>r. dek_under demo_env (master_key_bytes demo_env) r = None \<and> dek_under demo_env demo_new_kek r \<noteq> None)
    (t_user_data_keys (sv_db (snd (rotate_run demo_env (master_key_bytes demo_env) demo_new_kek demo_kek_server))))"
  by (rule rotation_retires_old_key [OF demo_aead_correct demo_aead_binding demo_new_kek_differs _ demo_keys_open])
    (simp add: demo_kek_server_def)

theorem rotate_kek_wrong_key_witness:
  "\<exists>n. rotate_run demo_env demo_new_kek demo_new_kek demo_kek_server =
    (Inl InvalidTag, demo_kek_server\<lparr>sv_draws := n\<rparr>)"
proof (rule rotate_kek_wrong_key)
  have "dek_under demo_env demo_new_kek demo_key_row = None"
    using demo_new_kek_differs by (simp add: dek_under_def demo_key_row_def aead_bindingD [OF demo_aead_binding])
  then show "\<not> list_all (\<lambda>r. dek_under demo_env demo_new_kek r \<noteq> None) (t_user_data_keys (sv_db demo_kek_server))"
    by (simp add: demo_kek_server_def demo_db_def)
qed

end
