(* ===== verification/Intact_Ops.thy ===== *)
theory Intact_Ops
  imports Intact Views Rotation_Reads
begin

text \<open>
  Every operation keeps the database intact: the statements first, then the operations in the order they
  call one another. Most proofs are the rules of safe along the program text; the ones that seal
  something carry the data key they have looked up as what they have learnt about the database.
\<close>

section \<open>Statements\<close>

lemma under_sound: "under e C s \<Longrightarrow> sound e s"
  by (auto simp: under_def)

lemma under_views: "under e C = views (intact e) (\<lambda>d. intact e d \<and> C d)"
  by (simp add: fun_eq_iff under_def views_def)

lemma under_stmt:
  assumes "\<And>s cu d x d'. intact e d \<Longrightarrow> C d \<Longrightarrow> body s cu d = Inr (x, d') \<Longrightarrow> intact e d' \<and> C d'"
  shows "safe (under e C) (stmt v tb body)"
  unfolding under_views by (rule views_stmt) (use assms in blast)

lemma under_sel [safe_intros]: "safe (under e C) (sel tb P)"
  unfolding under_views by (rule views_sel)

lemma under_ins:
  assumes "\<And>d. intact e d \<Longrightarrow> C d \<Longrightarrow> tb_check tb r = None \<Longrightarrow>
    \<not> list_ex (\<lambda>q. tb_clash tb q r) (tb_rows tb d) \<Longrightarrow> tb_parents tb d r \<Longrightarrow>
    intact e (tb_put tb (tb_rows tb d @ [r]) d) \<and> C (tb_put tb (tb_rows tb d @ [r]) d)"
  shows "safe (under e C) (ins tb r)"
  unfolding under_views by (rule views_ins) (use assms in blast)

lemma under_ins_nothing:
  assumes "\<And>r d. r \<in> set rs \<Longrightarrow> intact e d \<Longrightarrow> C d \<Longrightarrow> tb_check tb r = None \<Longrightarrow>
    \<not> list_ex (\<lambda>q. tb_clash tb q r) (tb_rows tb d) \<Longrightarrow> tb_parents tb d r \<Longrightarrow>
    intact e (tb_put tb (tb_rows tb d @ [r]) d) \<and> C (tb_put tb (tb_rows tb d @ [r]) d)"
  shows "safe (under e C) (ins_on_conflict_do_nothing tb rs)"
  unfolding under_views by (rule views_ins_nothing) (use assms in blast)

lemma under_upsert:
  assumes "\<And>d. intact e d \<Longrightarrow> C d \<Longrightarrow> tb_check tb r = None \<Longrightarrow>
      \<not> list_ex (\<lambda>q. tb_clash tb q r) (tb_rows tb d) \<Longrightarrow> tb_parents tb d r \<Longrightarrow>
      intact e (tb_put tb (tb_rows tb d @ [r]) d) \<and> C (tb_put tb (tb_rows tb d @ [r]) d)"
    "\<And>d. intact e d \<Longrightarrow> C d \<Longrightarrow> tb_check tb r = None \<Longrightarrow>
      intact e (tb_put tb (map (\<lambda>q. if tb_clash tb q r then f q else q) (tb_rows tb d)) d) \<and>
      C (tb_put tb (map (\<lambda>q. if tb_clash tb q r then f q else q) (tb_rows tb d)) d)"
  shows "safe (under e C) (ins_on_conflict_do_update tb r f)"
  unfolding under_views by (rule views_upsert) (use assms in blast)+

lemma under_upd:
  assumes "\<And>d hit. intact e d \<Longrightarrow> C d \<Longrightarrow> (\<And>r. hit r \<Longrightarrow> P r) \<Longrightarrow>
    intact e (tb_put tb (map (\<lambda>r. if hit r then f r else r) (tb_rows tb d)) d) \<and>
    C (tb_put tb (map (\<lambda>r. if hit r then f r else r) (tb_rows tb d)) d)"
  shows "safe (under e C) (upd tb P f)"
  unfolding under_views by (rule views_upd) (use assms in blast)

lemma under_del:
  assumes "\<And>d hit. intact e d \<Longrightarrow> C d \<Longrightarrow> \<not> list_ex (\<lambda>r. hit r \<and> tb_referenced tb d r) (tb_rows tb d) \<Longrightarrow>
    intact e (tb_put tb (filter (\<lambda>r. \<not> hit r) (tb_rows tb d)) d) \<and> C (tb_put tb (filter (\<lambda>r. \<not> hit r) (tb_rows tb d)) d)"
  shows "safe (under e C) (del tb P)" "safe (under e C) (del_returning tb P)"
  unfolding under_views by (rule views_del, use assms in blast)+


section \<open>Transactions and the pure part of a session\<close>

lemma under_settings [safe_intros]:
  "safe (under e C) (set_current_user t)" "safe (under e C) (set_is_admin t)"
  "safe (under e C) (advisory_xact_lock k)" "safe (under e C) (draw e' n)" "safe (under e C) (draw_uuid e')"
  "safe (under e C) (login_lookup name)" "safe (under e C) require_rls_context"
  "safe (under e C) assert_connection_cannot_bypass_rls"
  "safe (under e C) (generate_token e')" "safe (under e C) (hash_password e' p)"
  unfolding under_views by (rule views_settings)+

lemma under_commit [safe_intros]: "safe (under e C) commit"
  unfolding under_views by (rule views_commit) simp

lemma sound_rollback [safe_intros]: "safe (sound e) rollback"
  unfolding under_views by (rule views_rollback) simp

lemma sound_defer [safe_intros]: "safe (sound e) (defer_async j)"
  by (rule safeI) (auto simp: under_def defer_async_def intact_jobs)

lemma sound_new_session: "intact e d \<Longrightarrow> sound e (new_session r d n)"
  unfolding under_views by (simp add: views_new_session)

lemma sound_fresh_session [safe_intros]:
  assumes "safe (sound e) m"
  shows "safe (sound e) (fresh_session r m)"
  using assms unfolding under_views by (rule views_fresh_session) simp

lemma with_session_intact:
  assumes "intact e (sv_db sv)" "safe (sound e) m"
  shows "intact e (sv_db (snd (with_session r m sv)))"
  by (rule with_session_views [of "intact e" sv "\<lambda>d. intact e d \<and> True"])
    (use assms in \<open>simp_all add: under_views\<close>)


section \<open>The tables of the account routes\<close>

lemma table_sessions [simp]: "tb_rows sessions_table = t_sessions" "tb_put sessions_table xs = t_sessions_update (\<lambda>_. xs)"
  by (simp_all add: sessions_table_def)

lemma table_tokens [simp]: "tb_rows setup_tokens_table = t_setup_tokens"
    "tb_put setup_tokens_table xs = t_setup_tokens_update (\<lambda>_. xs)"
  by (simp_all add: setup_tokens_table_def)

lemma table_users [simp]: "tb_rows users_table = t_users" "tb_put users_table xs = t_users_update (\<lambda>_. xs)"
  by (simp_all add: users_table_def)

lemma table_audit [simp]: "tb_rows audit_log_table = t_audit_log" "tb_put audit_log_table xs = t_audit_log_update (\<lambda>_. xs)"
  by (simp_all add: audit_log_table_def)

lemma table_keys [simp]: "tb_rows user_data_keys_table = t_user_data_keys"
    "tb_put user_data_keys_table xs = t_user_data_keys_update (\<lambda>_. xs)"
  by (simp_all add: user_data_keys_table_def)

lemma table_connections [simp]: "tb_rows schwab_connections_table = t_schwab_connections"
    "tb_put schwab_connections_table xs = t_schwab_connections_update (\<lambda>_. xs)"
  by (simp_all add: schwab_connections_table_def)

lemma sound_sessions [safe_intros]:
  "safe (sound e) (ins sessions_table r)" "safe (sound e) (del sessions_table P)"
proof -
  have "db_ok (t_sessions_update (\<lambda>_. filter Q (t_sessions d)) d)" if "intact e d" for d Q
    using sessions_st.filter_ok [of d Q] intactD(1) [OF that] by (simp add: sessions_table_def list_ex_iff)
  then show "safe (sound e) (del sessions_table P)"
    by (intro under_del) (simp add: intact_sessions)
  have "db_ok (t_sessions_update (\<lambda>_. t_sessions d @ [r]) d)"
    if "intact e d" "tb_check sessions_table r = None" "\<not> list_ex (\<lambda>q. tb_clash sessions_table q r) (t_sessions d)"
      "tb_parents sessions_table d r" for d
    using sessions_st.append_ok [of d r] intactD(1) [OF that(1)] that(2-4) by simp
  then show "safe (sound e) (ins sessions_table r)"
    by (intro under_ins) (simp add: intact_sessions)
qed

text \<open>A new token: of another purpose than a reset, or after the entry of the trail.\<close>

definition fixed_tokens :: "(db \<Rightarrow> bool) \<Rightarrow> bool" where
  "fixed_tokens C \<longleftrightarrow> (\<forall>d xs. C (t_setup_tokens_update (\<lambda>_. xs) d) = C d)"

lemma under_new_token:
  assumes "fixed_tokens C" "\<And>d. C d \<Longrightarrow> st_purpose t \<noteq> token_purpose_value PasswordReset \<or>
    list_ex (\<lambda>a. al_subject_id a = st_user_id t) (t_audit_log d)"
  shows "safe (under e C) (ins setup_tokens_table t)"
proof (rule under_ins)
  fix d
  assume d: "intact e d" "C d" "tb_check setup_tokens_table t = None"
    "\<not> list_ex (\<lambda>q. tb_clash setup_tokens_table q t) (tb_rows setup_tokens_table d)" "tb_parents setup_tokens_table d t"
  have "db_ok (t_setup_tokens_update (\<lambda>_. t_setup_tokens d @ [t]) d)"
    using tokens_st.append_ok [OF intactD(1) [OF d(1)] d(3-5)] by simp
  from intact_token [OF d(1) this assms(2) [OF d(2)]] d(2) assms(1)
  show "intact e (tb_put setup_tokens_table (tb_rows setup_tokens_table d @ [t]) d) \<and>
      C (tb_put setup_tokens_table (tb_rows setup_tokens_table d @ [t]) d)"
    by (simp add: fixed_tokens_def)
qed

lemma under_issue_token:
  assumes "fixed_tokens C" "\<And>d. C d \<Longrightarrow> purpose \<noteq> PasswordReset \<or> list_ex (\<lambda>a. al_subject_id a = u) (t_audit_log d)"
  shows "safe (under e C) (issue_token e' u purpose ttl now)"
  unfolding issue_token_def
  by (intro safe_intros under_new_token assms) (use assms(2) in \<open>auto simp: token_purpose_value_inject\<close>)

lemma sound_issue_token [safe_intros]:
  "purpose \<noteq> PasswordReset \<Longrightarrow> safe (sound e) (issue_token e' u purpose ttl now)"
  by (rule under_issue_token) (simp_all add: fixed_tokens_def)

lemma sound_consume_token [safe_intros]: "safe (sound e) (consume_token e' raw purpose now)"
proof -
  have "db_ok (t_setup_tokens_update (\<lambda>_. filter Q (t_setup_tokens d)) d)" if "intact e d" for d Q
    using tokens_st.filter_ok [of d Q] intactD(1) [OF that] by (simp add: setup_tokens_table_def list_ex_iff)
  then have "safe (sound e) (del_returning setup_tokens_table P)" for P
    by (intro under_del) (simp add: intact_tokens_removed)
  then show ?thesis unfolding consume_token_def by (intro safe_intros)
qed

lemma sound_set_password [safe_intros]:
  "safe (sound e) (upd users_table P (\<lambda>r. r\<lparr>u_password_hash := h\<rparr>))"
proof (rule under_upd)
  fix d hit
  assume "intact e d"
  then show "intact e (tb_put users_table (map (\<lambda>r. if hit r then r\<lparr>u_password_hash := h\<rparr> else r) (tb_rows users_table d)) d) \<and> True"
    using intact_users_map [of e d "\<lambda>r. if hit r then r\<lparr>u_password_hash := h\<rparr> else r"] by simp
qed

lemma sound_current_user [safe_intros]: "safe (under e C) (get_current_user e' cookie now)"
  unfolding get_current_user_def by (intro safe_intros)

lemma sound_current_admin [safe_intros]: "safe (under e C) (get_current_admin e' cookie now)"
  unfolding get_current_admin_def by (intro safe_intros)

text \<open>The account routes that change nothing, or nothing but sessions, tokens and a password.\<close>

lemma sound_login [safe_intros]:
  "safe (sound e) (login e' dummy now username password)" "safe (sound e) (logout e' cookie now)"
  "safe (sound e) (setup_account e' now later token password)" "safe (sound e) (me e' cookie now)"
  "safe (sound e) (list_positions e' cookie now)" "safe (sound e) (get_position e' cookie now i)"
  unfolding login_def reject_login_def logout_def setup_account_def me_def list_positions_def get_position_def
  by (intro safe_intros)+


section \<open>What an operation has learnt\<close>

lemma safe_forget:
  assumes "safe (under e C) m"
  shows "hoare (under e C) m (\<lambda>_. sound e) (sound e)"
  using hoare_safe [OF assms] by (rule hoare_weaken) (auto dest: under_sound)

lemma safe_keeps:
  assumes "safe (under e C) m"
  shows "hoare (under e C) m (\<lambda>_. under e C) (sound e)"
  using hoare_safe [OF assms] by (rule hoare_weaken) (auto dest: under_sound)

text \<open>A row a statement has stored, for the statements after it.\<close>

lemma ins_learns:
  assumes "\<And>d. intact e d \<Longrightarrow> C d \<Longrightarrow> tb_check tb r = None \<Longrightarrow>
    \<not> list_ex (\<lambda>q. tb_clash tb q r) (tb_rows tb d) \<Longrightarrow> tb_parents tb d r \<Longrightarrow>
    intact e (tb_put tb (tb_rows tb d @ [r]) d) \<and> C' (tb_put tb (tb_rows tb d @ [r]) d)"
  shows "hoare (under e C) (ins tb r) (\<lambda>_. under e C') (sound e)"
proof (rule hoareI)
  fix s x t
  assume "under e C s" "ins tb r s = (Inl x, t)"
  then show "sound e t"
    by (auto simp: ins_def stmt_def db_fail_def under_def split: if_splits sum.splits)
next
  fix s y t
  assume u: "under e C s" and i: "ins tb r s = (Inr y, t)"
  from i have "\<not> s_aborted s" "tb_check tb r = None" "\<not> list_ex (\<lambda>q. tb_clash tb q r) (tb_rows tb (s_db s))"
    "tb_parents tb (s_db s) r" "t = s\<lparr>s_db := tb_put tb (tb_rows tb (s_db s) @ [r]) (s_db s)\<rparr>"
    by (auto simp: ins_def stmt_def db_fail_def insert_row_def split: if_splits sum.splits option.splits)
  with u assms [of "s_db s"] show "under e C' t" by (simp add: under_def)
qed


section \<open>Accounts\<close>

lemma clash_users: "list_ex (\<lambda>q. tb_clash users_table q r) (t_users d) \<longleftrightarrow>
    has_user d (u_id r) \<or> list_ex (\<lambda>q. u_username q = u_username r) (t_users d)"
  by (auto simp: users_table_def has_user_def list_ex_iff)

text \<open>The identifier just stored is no administrator's, and stays so.\<close>

lemma new_user_learns:
  assumes "\<not> u_is_admin r"
  shows "hoare (sound e) (ins users_table r) (\<lambda>_. under e (\<lambda>d. \<not> admin_in d (u_id r))) (sound e)"
proof (rule ins_learns)
  fix d
  assume d: "intact e d" "tb_check users_table r = None"
    "\<not> list_ex (\<lambda>q. tb_clash users_table q r) (tb_rows users_table d)" "tb_parents users_table d r"
  have "db_ok (t_users_update (\<lambda>_. t_users d @ [r]) d)"
    using users_st.append_ok [OF intactD(1) [OF d(1)] d(2-4)] by simp
  moreover have f: "\<not> has_user d (u_id r)" using d(3) unfolding table_users clash_users by simp
  moreover have "\<not> admin_in (t_users_update (\<lambda>_. t_users d @ [r]) d) (u_id r)"
    using f assms by (auto simp: admin_in_def has_user_def list_ex_iff)
  ultimately show "intact e (tb_put users_table (tb_rows users_table d @ [r]) d) \<and>
      \<not> admin_in (tb_put users_table (tb_rows users_table d @ [r]) d) (u_id r)"
    using intact_user [OF d(1), of r] assms by simp
qed

lemma hoare_refused:
  assumes "hoare P m R (sound e)"
  shows "hoare P (refused_as code detail m) R (sound e)"
  unfolding refused_as_def
proof (rule hoareI)
  fix s x t
  assume s: "P s" and c: "op_catch m (\<lambda>x. if x = IntegrityError
      then op_seq rollback (raise (HTTPException code detail)) else raise x) s = (Inl x, t)"
  obtain y s' where m: "m s = (Inl y, s')" using c by (cases "m s"; cases "fst (m s)") (auto simp: op_run)
  with assms s have s': "sound e s'" by (rule hoare_Inl)
  with c m safe_step [OF sound_rollback s'] show "sound e t"
    by (auto simp: op_run rollback_def split: if_splits)
next
  fix s y t
  assume s: "P s" and c: "op_catch m (\<lambda>x. if x = IntegrityError
      then op_seq rollback (raise (HTTPException code detail)) else raise x) s = (Inr y, t)"
  then have "m s = (Inr y, t)"
    by (cases "m s"; cases "fst (m s)") (auto simp: op_run rollback_def split: if_splits)
  with assms s show "R y t" by (rule hoare_Inr)
qed

lemma under_provision:
  assumes "aead_correct e"
  shows "hoare (under e (\<lambda>d. \<not> admin_in d u)) (provision_data_key e u) (\<lambda>_. sound e) (sound e)"
proof -
  let ?K = "under e (\<lambda>d. \<not> admin_in d u)"
  let ?row = "\<lambda>wd wn. \<lparr>dk_user_id = u, dk_key_version = 1, dk_wrapped_dek = wd, dk_wrap_nonce = wn\<rparr>"
  have store: "safe ?K (ins user_data_keys_table (?row wd wn))" if "key_opens e (?row wd wn)" for wd wn
  proof (rule under_ins)
    fix d
    assume d: "intact e d" "\<not> admin_in d u" "tb_check user_data_keys_table (?row wd wn) = None"
      "\<not> list_ex (\<lambda>q. tb_clash user_data_keys_table q (?row wd wn)) (tb_rows user_data_keys_table d)"
      "tb_parents user_data_keys_table d (?row wd wn)"
    have "db_ok (t_user_data_keys_update (\<lambda>_. t_user_data_keys d @ [?row wd wn]) d)"
      using keys_st.append_ok [OF intactD(1) [OF d(1)] d(3-5)] by simp
    from intact_key [OF d(1) this] d(2,4) that
    show "intact e (tb_put user_data_keys_table (tb_rows user_data_keys_table d @ [?row wd wn]) d) \<and>
        \<not> admin_in (tb_put user_data_keys_table (tb_rows user_data_keys_table d @ [?row wd wn]) d) u"
      by (simp add: admin_in_def)
  qed
  have w: "wrap_dek e dek (master_key_bytes e) s =
      (Inr (aes_enc e (master_key_bytes e) (urandom e (s_draws s) 12) dek None, urandom e (s_draws s) 12),
       s\<lparr>s_draws := Suc (s_draws s)\<rparr>)" for dek s
    by (simp add: wrap_dek_def draw_def op_run)
  have wrap: "hoare ?K (wrap_dek e dek (master_key_bytes e))
      (\<lambda>(wd, wn) s. ?K s \<and> key_opens e (?row wd wn)) (sound e)" for dek
    by (rule hoareI) (auto simp: w under_def key_opens_def unwrapped_def aead_correctD [OF assms])
  show ?thesis
    unfolding provision_data_key_def generate_dek_def
  proof (rule hoare_bind [OF safe_keeps], intro safe_intros, rule hoare_bind [OF wrap])
    fix x :: "bytes \<times> bytes"
    obtain wd wn where x: "x = (wd, wn)" by fastforce
    show "hoare (case x of (wd, wn) \<Rightarrow> \<lambda>s. ?K s \<and> key_opens e (?row wd wn))
        (case x of (wd, wn) \<Rightarrow> ins user_data_keys_table (?row wd wn)) (\<lambda>_. sound e) (sound e)"
      unfolding x prod.case by (rule hoare_pure) (rule safe_forget [OF store])
  qed
qed

lemma create_user_sound [safe_intros]:
  assumes "aead_correct e"
  shows "safe (sound e) (create_user e cookie now later username)"
proof (rule safe_hoare)
  let ?row = "\<lambda>i. \<lparr>u_id = i, u_username = username, u_password_hash = None, u_is_admin = False\<rparr>"
  let ?K = "\<lambda>i. under e (\<lambda>d. \<not> admin_in d i)"
  have ins: "hoare (sound e) (op_bind (draw_uuid e) (\<lambda>i. op_seq (ins users_table (?row i)) (ret i))) ?K (sound e)"
  proof (rule hoare_bind [OF safe_keeps])
    show "safe (sound e) (draw_uuid e)" by (intro safe_intros)
    fix i
    show "hoare (sound e) (op_seq (ins users_table (?row i)) (ret i)) ?K (sound e)"
      using new_user_learns [of "?row i" e] by (auto intro!: hoare_seq hoare_ret)
  qed
  have token: "safe (?K i) (issue_token e i Setup ttl later)" for i ttl
    by (rule under_issue_token) (simp_all add: fixed_tokens_def admin_in_def)
  show "hoare (sound e) (create_user e cookie now later username) (\<lambda>_. sound e) (sound e)"
    unfolding create_user_def
    by (rule hoare_bind [OF safe_keeps], rule sound_current_admin, rule hoare_bind [OF hoare_refused [OF ins]],
        rule hoare_bind [OF safe_keeps [OF token]], rule hoare_seq [OF safe_keeps], rule under_settings,
        rule hoare_bind [OF safe_keeps], rule under_settings, rule hoare_seq [OF under_provision [OF assms]],
        rule hoare_safe, intro safe_intros)
qed

text \<open>The entry of the trail comes before the token it allows.\<close>

lemma sel_learns:
  assumes "\<And>d r. intact e d \<Longrightarrow> C d \<Longrightarrow> r \<in> set (tb_rows tb d) \<Longrightarrow> P r \<Longrightarrow> C' d r"
  shows "hoare (under e C) (sel tb P) (\<lambda>rows. under e (\<lambda>d. \<forall>r \<in> set rows. C' d r)) (sound e)"
proof (rule hoareI)
  fix s x t
  assume "under e C s" "sel tb P s = (Inl x, t)"
  then show "sound e t" using under_sound safe_step [OF under_sel] by blast
next
  fix s rows t
  assume u: "under e C s" and r: "sel tb P s = (Inr rows, t)"
  then have "t = s" "\<not> s_aborted s" "set rows \<subseteq> {r \<in> set (tb_rows tb (s_db s)). P r}"
    by (auto simp: sel_def stmt_def db_fail_def split: if_splits sum.splits)
  with u assms [of "s_db s"] show "under e (\<lambda>d. \<forall>r \<in> set rows. C' d r) t" by (auto simp: under_def)
qed

lemma one_learns:
  assumes "\<And>d x. x \<in> set xs \<Longrightarrow> C d \<Longrightarrow> C' x d"
  shows "hoare (under e C) (one xs) (\<lambda>x. under e (C' x)) (sound e)"
  by (rule hoareI) (use assms in \<open>auto simp: one_def under_def op_run split: list.splits\<close>)

lemma current_user_learns:
  "hoare (sound e) (get_current_user e' cookie now)
     (\<lambda>au. under e (\<lambda>d. \<exists>r \<in> set (t_users d). u_id r = au_user_id au \<and> u_is_admin r = au_is_admin au)) (sound e)"
  unfolding get_current_user_def
proof (rule hoare_option, rule hoare_raise, assumption, rule hoare_bind [OF safe_keeps], rule under_sel,
    rule hoare_bind [OF safe_keeps], rule safe_one, rule hoare_option, rule hoare_raise, assumption,
    rule hoare_seq [OF safe_keeps], rule under_settings, rule hoare_bind)
  fix row :: session_row
  let ?C = "\<lambda>d r. r \<in> set (t_users d) \<and> u_id r = ss_user_id row"
  show "hoare (sound e) (sel users_table (\<lambda>r. u_id r = ss_user_id row))
      (\<lambda>rows. under e (\<lambda>d. \<forall>r \<in> set rows. ?C d r)) (sound e)"
    by (rule sel_learns) simp
  fix users
  let ?au = "\<lambda>caller. \<lparr>au_user_id = ss_user_id row, au_is_admin = u_is_admin caller\<rparr>"
  show "hoare (under e (\<lambda>d. \<forall>r \<in> set users. ?C d r)) (op_bind (one users) (\<lambda>caller.
      op_seq (if u_is_admin caller then set_is_admin ''true'' else ret ()) (ret (?au caller))))
      (\<lambda>au. under e (\<lambda>d. \<exists>r \<in> set (t_users d). u_id r = au_user_id au \<and> u_is_admin r = au_is_admin au)) (sound e)"
  proof (rule hoare_bind [OF one_learns [where C' = "\<lambda>r d. ?C d r"]], simp)
    fix caller
    show "hoare (under e (\<lambda>d. ?C d caller))
      (op_seq (if u_is_admin caller then set_is_admin ''true'' else ret ()) (ret (?au caller)))
      (\<lambda>au. under e (\<lambda>d. \<exists>r \<in> set (t_users d). u_id r = au_user_id au \<and> u_is_admin r = au_is_admin au)) (sound e)"
      by (rule hoare_seq [OF safe_keeps], intro safe_intros, rule hoare_ret) (auto simp: under_def)
  qed
qed

lemma current_admin_learns:
  "hoare (sound e) (get_current_admin e' cookie now) (\<lambda>au. under e (\<lambda>d. admin_in d (au_user_id au))) (sound e)"
  unfolding get_current_admin_def
  by (rule hoare_bind [OF current_user_learns], rule hoare_if, rule hoare_raise, erule under_sound, rule hoare_ret)
    (auto simp: under_def admin_in_def list_ex_iff)

text \<open>The entry of the trail, written by an administrator, is what the token after it rests on.\<close>

lemma open_audited_read_learns:
  "hoare (under e (\<lambda>d. admin_in d reader)) (open_audited_read e' reader subject)
     (\<lambda>ar. under e (\<lambda>d. list_ex (\<lambda>a. al_subject_id a = ar_subject_id ar) (t_audit_log d))) (sound e)"
proof -
  let ?row = "\<lambda>i. \<lparr>al_id = i, al_reader_id = reader, al_subject_id = subject\<rparr>"
  have entry: "hoare (under e (\<lambda>d. admin_in d reader)) (ins audit_log_table (?row i))
      (\<lambda>_. under e (\<lambda>d. list_ex (\<lambda>a. al_subject_id a = subject) (t_audit_log d))) (sound e)" for i
  proof (rule ins_learns)
    fix d
    assume d: "intact e d" "admin_in d reader" "tb_check audit_log_table (?row i) = None"
      "\<not> list_ex (\<lambda>q. tb_clash audit_log_table q (?row i)) (tb_rows audit_log_table d)" "tb_parents audit_log_table d (?row i)"
    have "db_ok (t_audit_log_update (\<lambda>_. t_audit_log d @ [?row i]) d)"
      using audit_st.append_ok [OF intactD(1) [OF d(1)] d(3-5)] by simp
    from intact_audit [OF d(1) this] d(2)
    show "intact e (tb_put audit_log_table (tb_rows audit_log_table d @ [?row i]) d) \<and>
        list_ex (\<lambda>a. al_subject_id a = subject) (t_audit_log (tb_put audit_log_table (tb_rows audit_log_table d @ [?row i]) d))"
      by simp
  qed
  show ?thesis
    unfolding open_audited_read_def
    by (rule hoare_bind [OF safe_keeps], rule under_settings, rule hoare_seq [OF entry], rule hoareI)
      (auto simp: op_run make_audited_read_def under_def)
qed

lemma get_user_learns:
  "hoare (under e C) (get_user_for_management ar)
     (\<lambda>target s. under e C s \<and> (\<forall>r. target = Some r \<longrightarrow> u_id r = ar_subject_id ar)) (sound e)"
proof (rule hoareI)
  fix s x t
  have "safe (under e C) (get_user_for_management ar)"
    unfolding get_user_for_management_def by (intro safe_intros)
  moreover assume "under e C s" "get_user_for_management ar s = (Inl x, t)"
  ultimately show "sound e t" using safe_step under_sound by blast
next
  fix s target t
  assume u: "under e C s" and r: "get_user_for_management ar s = (Inr target, t)"
  then obtain rows s' where q: "sel users_table (\<lambda>r. u_id r = ar_subject_id ar) s = (Inr rows, s')"
    and o: "one_or_none rows s' = (Inr target, t)"
    by (auto simp: get_user_for_management_def op_bind_Inr_iff)
  from q have "s' = s" "\<forall>r \<in> set rows. u_id r = ar_subject_id ar"
    by (auto simp: sel_def stmt_def db_fail_def split: if_splits sum.splits)
  with u o show "under e C t \<and> (\<forall>r. target = Some r \<longrightarrow> u_id r = ar_subject_id ar)"
    by (auto simp: one_or_none_def op_run split: list.splits)
qed

lemma reset_password_sound [safe_intros]: "safe (sound e) (reset_password e' cookie now later user_id)"
proof (rule safe_hoare)
  let ?L = "\<lambda>u d. list_ex (\<lambda>a. al_subject_id a = u) (t_audit_log d)"
  have token: "safe (under e (?L u)) (issue_token e' u PasswordReset reset_token_ttl later)" for u
    by (rule under_issue_token) (simp_all add: fixed_tokens_def)
  have fail: "hoare (under e (?L u)) (op_seq rollback (raise x :: string op)) (\<lambda>_. sound e) (sound e)" for u x
  proof -
    have "safe (sound e) (op_seq rollback (raise x :: string op))" by (intro safe_intros)
    from hoare_safe [OF this] show ?thesis by (rule hoare_weaken) (auto dest: under_sound)
  qed
  show "hoare (sound e) (reset_password e' cookie now later user_id) (\<lambda>_. sound e) (sound e)"
    unfolding reset_password_def
  proof (rule hoare_bind [OF current_admin_learns], rule hoare_bind [OF hoare_refused [OF open_audited_read_learns]],
      rule hoare_bind [OF get_user_learns], rule hoare_pure)
    fix ar target
    assume t: "\<forall>r. target = Some r \<longrightarrow> u_id r = ar_subject_id ar"
    show "hoare (under e (?L (ar_subject_id ar))) (case target of
        None \<Rightarrow> op_seq rollback (raise (HTTPException 404 ''Not Found''))
      | Some target \<Rightarrow> op_bind (issue_token e' (u_id target) PasswordReset reset_token_ttl later) (\<lambda>raw_token.
          op_seq commit (ret raw_token))) (\<lambda>_. sound e) (sound e)"
    proof (cases target)
      case None
      then show ?thesis using fail by simp
    next
      case (Some r)
      then have i: "u_id r = ar_subject_id ar" using t by simp
      have "safe (under e (?L (ar_subject_id ar))) (op_bind (issue_token e' (ar_subject_id ar) PasswordReset reset_token_ttl later)
          (\<lambda>raw_token. op_seq commit (ret raw_token)))"
        by (intro safe_bind token) (intro safe_intros)
      from safe_forget [OF this] show ?thesis by (simp add: Some i)
    qed
  qed
qed


section \<open>Deleting an account\<close>

lemma update_filter:
  "t_users_update (\<lambda>_. filter fa (t_users d)) d = t_users_update (filter fa) d"
  "t_sessions_update (\<lambda>_. filter fb (t_sessions d)) d = t_sessions_update (filter fb) d"
  "t_setup_tokens_update (\<lambda>_. filter fc (t_setup_tokens d)) d = t_setup_tokens_update (filter fc) d"
  "t_user_data_keys_update (\<lambda>_. filter fd (t_user_data_keys d)) d = t_user_data_keys_update (filter fd) d"
  "t_fills_update (\<lambda>_. filter fe (t_fills d)) d = t_fills_update (filter fe) d"
  "t_positions_update (\<lambda>_. filter ff (t_positions d)) d = t_positions_update (filter ff) d"
  "t_legs_update (\<lambda>_. filter fg (t_legs d)) d = t_legs_update (filter fg) d"
  "t_events_update (\<lambda>_. filter fh (t_events d)) d = t_events_update (filter fh) d"
  "t_schwab_connections_update (\<lambda>_. filter fi (t_schwab_connections d)) d = t_schwab_connections_update (filter fi) d"
  "t_broker_transactions_update (\<lambda>_. filter fj (t_broker_transactions d)) d = t_broker_transactions_update (filter fj) d"
  "t_sync_runs_update (\<lambda>_. filter fk (t_sync_runs d)) d = t_sync_runs_update (filter fk) d"
  by (cases d; simp)+

text \<open>Rows nobody refers to may go.\<close>

lemma db_ok_filter:
  assumes "db_ok d"
  shows "db_ok (t_sessions_update (filter fb) d)" "db_ok (t_setup_tokens_update (filter fc) d)"
    "db_ok (t_user_data_keys_update (filter fd) d)" "db_ok (t_fills_update (filter fe) d)"
    "db_ok (t_legs_update (filter fg) d)" "db_ok (t_events_update (filter fh) d)"
    "db_ok (t_schwab_connections_update (filter fi) d)" "db_ok (t_broker_transactions_update (filter fj) d)"
    "db_ok (t_sync_runs_update (filter fk) d)"
  using sessions_st.filter_ok [OF assms, of fb] tokens_st.filter_ok [OF assms, of fc] keys_st.filter_ok [OF assms, of fd]
    fills_st.filter_ok [OF assms, of fe] legs_st.filter_ok [OF assms, of fg] events_st.filter_ok [OF assms, of fh]
    connections_st.filter_ok [OF assms, of fi] broker_st.filter_ok [OF assms, of fj] runs_st.filter_ok [OF assms, of fk]
  by (simp_all add: table_defs list_ex_iff update_filter)

lemma db_ok_filter_parents:
  assumes "db_ok d"
  shows "\<not> list_ex (\<lambda>p. \<not> P p \<and> (list_ex (\<lambda>l. l_position_id l = p_id p) (t_legs d) \<or>
      list_ex (\<lambda>e. e_position_id e = p_id p) (t_events d))) (t_positions d) \<Longrightarrow> db_ok (t_positions_update (filter P) d)"
    "\<not> list_ex (\<lambda>r. \<not> Q r \<and> user_referenced d (u_id r)) (t_users d) \<Longrightarrow> db_ok (t_users_update (filter Q) d)"
  using positions_st.filter_ok [OF assms, of P] users_st.filter_ok [OF assms, of Q]
  by (simp_all add: positions_table_def users_table_def update_filter)

lemma erased_db_ok:
  assumes "db_ok d" "own_positions d u" "\<not> audited d u"
  shows "db_ok (erased u d)"
proof -
  let ?d3 = "t_legs_update (filter (\<lambda>r. l_user_id r \<noteq> u)) (t_events_update (filter (\<lambda>r. e_user_id r \<noteq> u))
    (t_user_data_keys_update (filter (\<lambda>r. dk_user_id r \<noteq> u)) d))"
  have "db_ok ?d3" by (intro db_ok_filter assms(1))
  then have "db_ok (t_positions_update (filter (\<lambda>r. p_user_id r \<noteq> u)) ?d3)"
    by (rule db_ok_filter_parents) (use positions_free [OF assms(2)] in simp)
  then have "db_ok (without_rows u d)"
    unfolding without_rows_steps [symmetric] by (intro db_ok_filter)
  moreover have "\<not> list_ex (\<lambda>r. \<not> u_id r \<noteq> u \<and> user_referenced (without_rows u d) (u_id r)) (t_users (without_rows u d))"
    using assms(3) by (auto simp: list_ex_iff without_rows_user)
  ultimately show ?thesis unfolding erased_def by (rule db_ok_filter_parents(2))
qed

lemma erased_dek_in: "v \<noteq> u \<Longrightarrow> dek_in e (erased u d) v = dek_in e d v"
proof -
  assume "v \<noteq> u"
  then have "key_rows (erased u d) v = key_rows d v"
    by (auto simp: key_rows_def erased_def without_rows_def intro: filter_cong)
  then show ?thesis by (simp add: fun_eq_iff dek_in_def)
qed

lemma erased_sealed:
  assumes "sealed e d"
  shows "sealed e (erased u d)"
proof -
  have o: "opens e (erased u d) v = opens e d v" if "v \<noteq> u" for v
    using erased_dek_in [OF that] by (simp add: fun_eq_iff opens_def)
  have b: "broker_opens e (erased u d) r = broker_opens e d r" if "b_user_id r \<noteq> u" for r
    using erased_dek_in [OF that] by (simp add: broker_opens_def)
  have c: "connection_opens e (erased u d) r = connection_opens e d r" if "c_user_id r \<noteq> u" for r
    using erased_dek_in [OF that] by (simp add: connection_opens_def)
  have t: "t_user_data_keys (erased u d) = filter (\<lambda>r. dk_user_id r \<noteq> u) (t_user_data_keys d)"
    "t_fills (erased u d) = filter (\<lambda>r. f_user_id r \<noteq> u) (t_fills d)"
    "t_broker_transactions (erased u d) = filter (\<lambda>r. b_user_id r \<noteq> u) (t_broker_transactions d)"
    "t_schwab_connections (erased u d) = filter (\<lambda>r. c_user_id r \<noteq> u) (t_schwab_connections d)"
    by (simp_all add: erased_def without_rows_def)
  from assms show ?thesis
    by (auto simp: sealed_def keys_open_def fills_open_def list_all_iff t o b c)
qed

lemma erased_intact:
  assumes "intact e d" "\<not> audited d u"
  shows "intact e (erased u d)"
proof -
  have ok: "db_ok (erased u d)"
    using assms by (intro erased_db_ok intactD(1) placed_own intactD(8))
  have u: "t_users (erased u d) = filter (\<lambda>r. u_id r \<noteq> u) (t_users d)" "t_audit_log (erased u d) = t_audit_log d"
    "t_setup_tokens (erased u d) = filter (\<lambda>r. st_user_id r \<noteq> u) (t_setup_tokens d)"
    "t_user_data_keys (erased u d) = filter (\<lambda>r. dk_user_id r \<noteq> u) (t_user_data_keys d)"
    "t_sync_runs (erased u d) = filter (\<lambda>r. r_user_id r \<noteq> u) (t_sync_runs d)"
    by (simp_all add: erased_def without_rows_def)
  have a: "admin_in (erased u d) v \<longleftrightarrow> admin_in d v \<and> v \<noteq> u" for v
    by (auto simp: admin_in_def list_ex_iff u)
  have "length (filter u_is_admin (filter (\<lambda>r. u_id r \<noteq> u) rs)) \<le> length (filter u_is_admin rs)" for rs
    by (induction rs) auto
  from this [of "t_users d"] have "one_admin (erased u d)"
    using intactD(3) [OF assms(1)] unfolding one_admin_def u by linarith
  moreover have "admins_keyless (erased u d)"
    using intactD(4) [OF assms(1)] by (simp add: admins_keyless_def a u list_all_iff)
  moreover have "trail_ok (erased u d)"
    using intactD(5) [OF assms(1)] assms(2) by (auto simp: trail_ok_def a u list_all_iff audited_def list_ex_iff)
  moreover have "resets_audited (erased u d)"
    using intactD(6) [OF assms(1)] by (simp add: resets_audited_def u list_all_iff)
  moreover have "runs_readable (erased u d)"
    using intactD(7) [OF assms(1)] by (simp add: runs_readable_def u list_all_iff)
  moreover have "placed (erased u d)"
    using intactD(8) [OF assms(1)]
    by (simp add: placed_def erased_def without_rows_def list_all_iff)
  ultimately show ?thesis
    using ok erased_sealed [OF intactD(2) [OF assms(1)]] by (simp add: intact_def)
qed

text \<open>The route: nobody, the rolled back deletion, or the whole one.\<close>

lemma delete_me_effect:
  assumes "intact e (sv_db sv)"
  shows "sv_db (snd (with_session App (delete_me e' cookie now) sv)) = sv_db sv \<or>
    (\<exists>v. \<not> audited (sv_db sv) v \<and> sv_db (snd (with_session App (delete_me e' cookie now) sv)) = erased v (sv_db sv))"
proof -
  let ?s = "new_session App (sv_db sv) (sv_draws sv)"
  have l: "live ?s" "s_db ?s = sv_db sv" "s_committed ?s = sv_db sv" by (simp_all add: new_session_def live_def)
  note i = db_ok_identity [OF intactD(1) [OF assms]]
  obtain x t where g: "get_current_user e' cookie now ?s = (x, t)" by fastforce
  show ?thesis
  proof (cases x)
    case (Inl y)
    have "safe (views (\<lambda>d. d = sv_db sv) (\<lambda>_. True)) (get_current_user e' cookie now)"
      unfolding get_current_user_def by (intro safe_intros)
    from safe_step [OF this _ g] have "s_committed t = sv_db sv" by (simp add: views_def l)
    with Inl g show ?thesis by (simp add: with_session_def delete_me_def op_bind_def)
  next
    case (Inr au)
    from get_current_user_ok [OF l(1) _ _ g [unfolded Inr]] i l(2) obtain r where
      r: "user_in (sv_db sv) (au_user_id au) = Some r" "t = as_caller r ?s" "as_user (au_user_id au) t"
      by (metis identity_okD(1) identity_okD(3))
    have t: "s_db t = sv_db sv" "s_committed t = sv_db sv" "s_role t = App" "\<not> s_aborted t"
      using r(2,3) l by (simp_all add: as_user_def)
    have "has_user (s_db t) (au_user_id au)" using user_in_id [OF i r(1)] by (auto simp: has_user_def list_ex_iff t)
    moreover have "own_positions (s_db t) (au_user_id au)"
      using placed_own [OF intactD(8) [OF assms]] by (simp add: t)
    ultimately have d: "delete_account (au_user_id au) t = (if audited (sv_db sv) (au_user_id au)
        then (Inl IntegrityError, t\<lparr>s_db := without_rows (au_user_id au) (sv_db sv), s_aborted := True\<rparr>)
        else (Inr (), t\<lparr>s_db := erased (au_user_id au) (sv_db sv)\<rparr>))"
      using delete_account_run [OF r(3)] by (simp add: t)
    with g Inr show ?thesis
      by (auto simp: with_session_def delete_me_def op_bind_def op_seq_def commit_def end_tx_def t)
  qed
qed

lemma delete_me_intact:
  assumes "intact e (sv_db sv)"
  shows "intact e (sv_db (snd (with_session App (delete_me e' cookie now) sv)))"
  using delete_me_effect [OF assms, of e' cookie now] erased_intact [OF assms] assms by auto

end
