(* ===== verification/Intact_Writes.thy ===== *)
theory Intact_Writes
  imports Intact_Ops
begin

text \<open>
  The write paths that seal something keep the database intact: fills and broker transactions through the
  interface of the batch stores, the broker connection, the token the vendor rotates, the run record; then
  the two jobs of the worker, the broker routes, the bootstrap and the rotation.
\<close>

section \<open>The key in hand\<close>

abbreviation holding_key :: "env \<Rightarrow> uuid \<Rightarrow> int \<Rightarrow> bytes \<Rightarrow> sess \<Rightarrow> bool" where
  "holding_key e u v dek \<equiv> under e (\<lambda>d. dek_in e d u v = Some dek)"

lemma safe_read_key [safe_intros]:
  "safe (under e C) (unwrap_dek e' w n k)" "safe (under e C) (current_dek e' u)"
  "safe (under e C) (decrypt_field e' c n k ad)" "safe (under e C) (encrypt_field e' p k ad)"
  "safe (under e C) (dek_for_version e' x u v)"
  unfolding unwrap_dek_def current_dek_def decrypt_field_def encrypt_field_def dek_for_version_def by (intro safe_intros)+

lemma current_dek_learns:
  "hoare (sound e) (current_dek e u) (\<lambda>(dek, v). holding_key e u v dek) (sound e)"
proof (rule hoareI)
  fix s x t
  assume "sound e s" "current_dek e u s = (Inl x, t)"
  then show "sound e t" using safe_step [OF safe_read_key(2)] by blast
next
  fix s y t
  assume s: "sound e s" and c: "current_dek e u s = (Inr y, t)"
  obtain dek v where y: "y = (dek, v)" by fastforce
  from c y obtain rows s1 row s2 where
    q: "sel user_data_keys_table (\<lambda>r. dk_user_id r = u) s = (Inr rows, s1)" and
    o: "one (latest_version rows) s1 = (Inr row, s2)" and
    w: "op_bind (unwrap_dek e (dk_wrapped_dek row) (dk_wrap_nonce row) (master_key_bytes e))
      (\<lambda>dek. ret (dek, dk_key_version row)) s2 = (Inr (dek, v), t)"
    unfolding current_dek_def op_bind_Inr_iff by blast
  from q have q': "s1 = s" "\<not> s_aborted s" "set rows \<subseteq> {r \<in> set (t_user_data_keys (s_db s)). dk_user_id r = u}"
    by (auto simp: sel_def stmt_def db_fail_def split: if_splits sum.splits)
  from one_latest [OF o] q' have r: "s2 = s" "row \<in> set (t_user_data_keys (s_db s))" "dk_user_id row = u" by auto
  from w have "unwrapped e row = Some dek" "dk_key_version row = v" "t = s"
    by (auto simp: op_run unwrap_dek_def unwrapped_def r(1) split: option.splits)
  moreover have i: "intact e (s_db s)" using s q'(2) by (simp add: under_def)
  ultimately show "(case y of (dek, v) \<Rightarrow> holding_key e u v dek) t"
    using dek_in_row [OF db_ok_keys [OF intactD(1) [OF i]] r(2), of e dek] r(3) s by (simp add: y under_def)
qed

text \<open>An operation that looks the key up and then works with it.\<close>

lemma safe_use_key:
  assumes "\<And>dek v. hoare (holding_key e u v dek) (f (dek, v)) (\<lambda>_. sound e) (sound e)"
  shows "safe (sound e) (op_bind (current_dek e u) f)"
  unfolding safe_def
proof (rule hoare_bind [OF current_dek_learns])
  fix x :: "bytes \<times> int"
  obtain dek v where "x = (dek, v)" by fastforce
  then show "hoare ((case x of (dek, v) \<Rightarrow> holding_key e u v dek)) (f x) (\<lambda>_. sound e) (sound e)"
    using assms by simp
qed


section \<open>Batches\<close>

context batch_store
begin

lemma dek_in_put: "dek_in e (tb_put tb xs d) u v = dek_in e d u v"
  by (simp add: dek_in_def key_rows_def put_keys)

lemma chunk_safe:
  assumes "\<And>i w d. intact e d \<Longrightarrow> dek_in e d u kv = Some dek \<Longrightarrow> tb_check tb (seal dek kv u i w) = None \<Longrightarrow>
      \<not> list_ex (\<lambda>q. tb_clash tb q (seal dek kv u i w)) (tb_rows tb d) \<Longrightarrow> tb_parents tb d (seal dek kv u i w) \<Longrightarrow>
      intact e (tb_put tb (tb_rows tb d @ [seal dek kv u i w]) d)"
  shows "safe (holding_key e u kv dek) (chunk dek kv u ws)"
proof -
  let ?K = "holding_key e u kv dek"
  have "chunk dek kv u ws = op_bind (op_map (vals dek kv u) ws)
      (\<lambda>rows. op_bind (ins_on_conflict_do_nothing tb rows) (\<lambda>ls. ret (length ls)))"
    by (rule ext) (rule chunk_run)
  moreover have vals: "hoare ?K (op_map (vals dek kv u) ws)
      (\<lambda>rows s. ?K s \<and> (\<forall>r \<in> set rows. \<exists>i w. r = seal dek kv u i w)) ?K"
    by (rule hoareI) (auto simp: vals_map_run under_def sealed_batch_def, blast+)
  have "hoare ?K (op_bind (op_map (vals dek kv u) ws)
      (\<lambda>rows. op_bind (ins_on_conflict_do_nothing tb rows) (\<lambda>ls. ret (length ls)))) (\<lambda>_. ?K) ?K"
  proof (rule hoare_bind [OF vals], rule hoare_pure)
    fix rows
    assume r: "\<forall>r \<in> set rows. \<exists>i w. r = seal dek kv u i w"
    have "safe ?K (ins_on_conflict_do_nothing tb rows)"
      using r assms by (intro under_ins_nothing) (auto simp: dek_in_put)
    then have "safe ?K (op_bind (ins_on_conflict_do_nothing tb rows) (\<lambda>ls. ret (length ls)))"
      by (intro safe_intros)
    then show "hoare ?K (op_bind (ins_on_conflict_do_nothing tb rows) (\<lambda>ls. ret (length ls))) (\<lambda>_. ?K) ?K"
      by (rule hoare_safe)
  qed
  ultimately show ?thesis by (simp add: safe_def)
qed

lemma write_safe:
  assumes "\<And>dek kv i w d. intact e d \<Longrightarrow> dek_in e d u kv = Some dek \<Longrightarrow> tb_check tb (seal dek kv u i w) = None \<Longrightarrow>
      \<not> list_ex (\<lambda>q. tb_clash tb q (seal dek kv u i w)) (tb_rows tb d) \<Longrightarrow> tb_parents tb d (seal dek kv u i w) \<Longrightarrow>
      intact e (tb_put tb (tb_rows tb d @ [seal dek kv u i w]) d)"
  shows "safe (sound e) (write_batch chunk k e u ws)"
proof -
  have "hoare (holding_key e u kv dek) (op_bind (op_map (chunk dek kv u) (chunks k ws)) (\<lambda>landed. ret (sum_list landed)))
      (\<lambda>_. sound e) (sound e)" for dek kv
    by (rule safe_forget) (intro safe_intros chunk_safe assms)
  then have "safe (sound e) (op_bind (current_dek e u) (\<lambda>(dek, kv).
      op_bind (op_map (chunk dek kv u) (chunks k ws)) (\<lambda>landed. ret (sum_list landed))))"
    by (intro safe_use_key) simp
  then show ?thesis by (auto simp: write_batch_def intro: safe_intros)
qed

end

lemma sound_insert_fills [safe_intros]:
  assumes "aead_correct e"
  shows "safe (sound e) (insert_fills e u fws)"
proof -
  have "intact e (tb_put fills_table (tb_rows fills_table d @ [sealed_fill e dek kv u i w]) d)"
    if "intact e d" "dek_in e d u kv = Some dek" "tb_check fills_table (sealed_fill e dek kv u i w) = None"
      "\<not> list_ex (\<lambda>q. tb_clash fills_table q (sealed_fill e dek kv u i w)) (tb_rows fills_table d)"
      "tb_parents fills_table d (sealed_fill e dek kv u i w)" for dek kv i w d
  proof -
    have "\<exists>rc. opens e d u (sealed_fill e dek kv u i w) rc"
      using that(2) open_sealed_fill [OF assms, of dek u kv i w] by (auto simp: opens_def)
    with fills_st.append_ok [OF intactD(1) [OF that(1)] that(3-5)] show ?thesis
      using intact_fill [OF that(1), of "sealed_fill e dek kv u i w"] by simp
  qed
  then show ?thesis
    unfolding insert_fills_def landed_fills_batch by (rule fills_bs.write_safe)
qed

lemma sound_insert_broker [safe_intros]:
  assumes "aead_correct e"
  shows "safe (sound e) (insert_broker_transactions e u ws)"
proof -
  have "intact e (tb_put broker_transactions_table (tb_rows broker_transactions_table d @ [sealed_broker e dek kv u i w]) d)"
    if "intact e d" "dek_in e d u kv = Some dek" "tb_check broker_transactions_table (sealed_broker e dek kv u i w) = None"
      "\<not> list_ex (\<lambda>q. tb_clash broker_transactions_table q (sealed_broker e dek kv u i w)) (tb_rows broker_transactions_table d)"
      "tb_parents broker_transactions_table d (sealed_broker e dek kv u i w)" for dek kv i w d
  proof -
    have "broker_opens e d (sealed_broker e dek kv u i w)"
      using that(2) by (simp add: broker_opens_def sealed_broker_def aead_correctD [OF assms])
    with broker_st.append_ok [OF intactD(1) [OF that(1)] that(3-5)] show ?thesis
      using intact_broker [OF that(1), of "sealed_broker e dek kv u i w"] by simp
  qed
  then show ?thesis unfolding insert_broker_batch by (rule broker_bs.write_safe)
qed



section \<open>The broker connection\<close>

lemma connections_ok:
  assumes "intact e d" "\<And>q. c_user_id (f q) = c_user_id q" "\<And>q. int2 (c_key_version q) \<Longrightarrow> int2 (c_key_version (f q))"
  shows "db_ok (t_schwab_connections_update (\<lambda>_. map f (t_schwab_connections d)) d)"
proof -
  have "db_ok (tb_put schwab_connections_table (map f (tb_rows schwab_connections_table d)) d)"
    by (rule connections_st.map_ok [OF intactD(1) [OF assms(1)]])
      (use assms(2,3) in \<open>auto simp: schwab_connections_table_def typed_def split: if_splits\<close>)
  then show ?thesis by simp
qed

lemma intact_connections_map:
  assumes "intact e d" "\<And>q. c_user_id (f q) = c_user_id q" "\<And>q. int2 (c_key_version q) \<Longrightarrow> int2 (c_key_version (f q))"
    "\<And>q. q \<in> set (t_schwab_connections d) \<Longrightarrow> connection_opens e d q \<Longrightarrow> connection_opens e d (f q)"
  shows "intact e (t_schwab_connections_update (\<lambda>_. map f (t_schwab_connections d)) d)"
proof (rule intact_connections [OF assms(1) connections_ok [OF assms(1-3)]])
  show "list_all (connection_opens e d) (map f (t_schwab_connections d))"
    using intactD(2) [OF assms(1)] assms(4) by (simp add: sealed_def list_all_iff)
qed

text \<open>The worker's note of when it last synced.\<close>

lemma sound_note_sync [safe_intros]:
  "safe (sound e) (upd schwab_connections_table P (\<lambda>r. r\<lparr>c_last_synced_at := x\<rparr>))"
proof (rule under_upd)
  fix d and hit :: "connection_row \<Rightarrow> bool"
  let ?f = "\<lambda>r. if hit r then r\<lparr>c_last_synced_at := x\<rparr> else r"
  assume "intact e d"
  then have "intact e (t_schwab_connections_update (\<lambda>_. map ?f (t_schwab_connections d)) d)"
    by (rule intact_connections_map) (simp_all add: connection_opens_def)
  then show "intact e (tb_put schwab_connections_table (map ?f (tb_rows schwab_connections_table d)) d) \<and> True" by simp
qed

text \<open>
  A rotated token is stored under the current key. The account hash beside it stays as it was sealed; it
  opens under the same key because there is no second version of a key.
\<close>

lemma intact_token_stored:
  assumes "aead_correct e" "intact e d" "dek_in e d u v = Some dek" "\<And>r. hit r \<Longrightarrow> c_user_id r = u"
  shows "intact e (t_schwab_connections_update (\<lambda>_. map (\<lambda>r. if hit r
      then r\<lparr>c_token_ciphertext := aes_enc e dek n p (Some (connection_associated_data ''token_ciphertext'' u)),
        c_token_nonce := n, c_key_version := v\<rparr> else r) (t_schwab_connections d)) d)"
proof (rule intact_connections_map [OF assms(2)])
  note keys = intactD(2) [OF assms(2), unfolded sealed_def]
  have v: "v = 1" using keys assms(3) by (blast intro: dek_in_version)
  fix q
  assume "connection_opens e d q"
  then obtain k where k: "dek_in e d (c_user_id q) (c_key_version q) = Some k"
    "aes_dec e k (c_account_hash_nonce q) (c_account_hash_ciphertext q)
       (Some (connection_associated_data ''account_hash_ciphertext'' (c_user_id q))) \<noteq> None"
    "aes_dec e k (c_token_nonce q) (c_token_ciphertext q)
       (Some (connection_associated_data ''token_ciphertext'' (c_user_id q))) \<noteq> None"
    by (auto simp: connection_opens_def)
  then have "c_key_version q = 1" using keys by (blast intro: dek_in_version)
  with k assms(3) v show "connection_opens e d (if hit q
      then q\<lparr>c_token_ciphertext := aes_enc e dek n p (Some (connection_associated_data ''token_ciphertext'' u)),
        c_token_nonce := n, c_key_version := v\<rparr> else q)"
    by (auto simp: connection_opens_def aead_correctD [OF assms(1)] dest: assms(4))
next
  have "v = 1" using intactD(2) [OF assms(2)] assms(3) unfolding sealed_def by (blast intro: dek_in_version)
  then show "int2 (c_key_version q) \<Longrightarrow> int2 (c_key_version (if hit q
      then q\<lparr>c_token_ciphertext := aes_enc e dek n p (Some (connection_associated_data ''token_ciphertext'' u)),
        c_token_nonce := n, c_key_version := v\<rparr> else q))" for q
    by simp
qed simp

lemma encrypt_field_run:
  "encrypt_field e p dek ad s = (Inr (aes_enc e dek (urandom e (s_draws s) 12) p (Some ad), urandom e (s_draws s) 12),
    s\<lparr>s_draws := Suc (s_draws s)\<rparr>)"
  by (simp add: encrypt_field_def draw_def op_run)

lemma sound_persist_token [safe_intros]:
  assumes "aead_correct e"
  shows "safe (sound e) (persist_token e u holder)"
proof -
  let ?ad = "connection_associated_data ''token_ciphertext'' u"
  have enc: "hoare (holding_key e u v dek) (encrypt_field e p dek ?ad)
      (\<lambda>(c, n) s. holding_key e u v dek s \<and> c = aes_enc e dek n p (Some ?ad)) (sound e)" for v dek p
    by (rule hoareI) (auto simp: encrypt_field_run under_def)
  have store: "safe (holding_key e u v dek) (upd schwab_connections_table (\<lambda>r. c_user_id r = u)
      (\<lambda>r. r\<lparr>c_token_ciphertext := aes_enc e dek n p (Some ?ad), c_token_nonce := n, c_key_version := v\<rparr>))" for v dek n p
    by (rule under_upd) (simp add: intact_token_stored [OF assms])
  have key: "hoare (holding_key e u v dek) (op_bind (encrypt_field e p dek ?ad) (\<lambda>(c, n).
      op_bind (upd schwab_connections_table (\<lambda>r. c_user_id r = u)
        (\<lambda>r. r\<lparr>c_token_ciphertext := c, c_token_nonce := n, c_key_version := v\<rparr>)) (\<lambda>_. ret ()))) (\<lambda>_. sound e) (sound e)" for v dek p
  proof (rule hoare_bind [OF enc])
    fix x :: "bytes \<times> bytes"
    obtain c n where x: "x = (c, n)" by fastforce
    have "hoare (holding_key e u v dek) (op_bind (upd schwab_connections_table (\<lambda>r. c_user_id r = u)
        (\<lambda>r. r\<lparr>c_token_ciphertext := c, c_token_nonce := n, c_key_version := v\<rparr>)) (\<lambda>_. ret ())) (\<lambda>_. sound e) (sound e)"
      if "c = aes_enc e dek n p (Some ?ad)"
      unfolding that by (rule safe_forget) (intro safe_intros store)
    then show "hoare (case x of (c, n) \<Rightarrow> \<lambda>s. holding_key e u v dek s \<and> c = aes_enc e dek n p (Some ?ad))
      (case x of (c, n) \<Rightarrow> op_bind (upd schwab_connections_table (\<lambda>r. c_user_id r = u)
        (\<lambda>r. r\<lparr>c_token_ciphertext := c, c_token_nonce := n, c_key_version := v\<rparr>)) (\<lambda>_. ret ())) (\<lambda>_. sound e) (sound e)"
      unfolding x prod.case by (rule hoare_pure)
  qed
  show ?thesis
    unfolding persist_token_def connection_current_dek_eq
    by (intro safe_intros safe_use_key) (simp add: key)
qed

lemma intact_upsert:
  assumes "aead_correct e" "intact e d" "dek_in e d u v = Some dek" "int2 v"
    "row = sealed_connection e dek v u i et ah"
  shows "intact e (t_schwab_connections_update (\<lambda>_. map (\<lambda>q. if tb_clash schwab_connections_table q row
    then set_excluded row q else q) (t_schwab_connections d)) d)"
proof (rule intact_connections_map [OF assms(2)])
  fix q
  show "c_user_id (if tb_clash schwab_connections_table q row then set_excluded row q else q) = c_user_id q"
    by (simp add: set_excluded_def)
  show "int2 (c_key_version q) \<Longrightarrow>
      int2 (c_key_version (if tb_clash schwab_connections_table q row then set_excluded row q else q))"
    using assms(4,5) by (simp add: set_excluded_def)
  have "connection_opens e d (set_excluded row q)" if "c_user_id q = u"
    using that assms(3)
    by (simp add: connection_opens_def set_excluded_def assms(5) sealed_connection_def aead_correctD [OF assms(1)])
  then show "connection_opens e d q \<Longrightarrow>
      connection_opens e d (if tb_clash schwab_connections_table q row then set_excluded row q else q)"
    by (simp add: schwab_connections_table_def assms(5))
qed

lemma intact_new_connection:
  assumes "aead_correct e" "intact e d" "dek_in e d u v = Some dek" "row = sealed_connection e dek v u i et ah"
    "tb_check schwab_connections_table row = None" "tb_parents schwab_connections_table d row"
    "\<not> list_ex (\<lambda>q. tb_clash schwab_connections_table q row) (t_schwab_connections d)"
  shows "intact e (t_schwab_connections_update (\<lambda>_. t_schwab_connections d @ [row]) d)"
proof (rule intact_connections [OF assms(2)])
  show "db_ok (t_schwab_connections_update (\<lambda>_. t_schwab_connections d @ [row]) d)"
    using connections_st.append_ok [OF intactD(1) [OF assms(2)] assms(5)] assms(6,7) by simp
  have "connection_opens e d row"
    using assms(3) by (simp add: connection_opens_def assms(4) sealed_connection_def aead_correctD [OF assms(1)])
  then show "list_all (connection_opens e d) (t_schwab_connections d @ [row])"
    using intactD(2) [OF assms(2)] by (simp add: sealed_def)
qed

lemma sound_upsert [safe_intros]:
  assumes "aead_correct e"
  shows "safe (sound e) (upsert_connection e u et ah)"
proof -
  have store: "safe (holding_key e u v dek) (ins_on_conflict_do_update schwab_connections_table row (set_excluded row))"
    if row: "row = sealed_connection e dek v u i et ah" for v dek row i
  proof (rule under_upsert)
    fix d
    assume d: "intact e d" "dek_in e d u v = Some dek" and c: "tb_check schwab_connections_table row = None"
    have "int2 v" using c by (simp add: row typed_def split: if_splits)
    from intact_upsert [OF assms d this row] d(2)
    show "intact e (tb_put schwab_connections_table (map (\<lambda>q. if tb_clash schwab_connections_table q row
          then set_excluded row q else q) (tb_rows schwab_connections_table d)) d) \<and>
        dek_in e (tb_put schwab_connections_table (map (\<lambda>q. if tb_clash schwab_connections_table q row
          then set_excluded row q else q) (tb_rows schwab_connections_table d)) d) u v = Some dek" by simp
    assume "\<not> list_ex (\<lambda>q. tb_clash schwab_connections_table q row) (tb_rows schwab_connections_table d)"
      "tb_parents schwab_connections_table d row"
    with intact_new_connection [OF assms d row c] d(2)
    show "intact e (tb_put schwab_connections_table (tb_rows schwab_connections_table d @ [row]) d) \<and>
        dek_in e (tb_put schwab_connections_table (tb_rows schwab_connections_table d @ [row]) d) u v = Some dek" by simp
  qed
  have key: "hoare (holding_key e u v dek) (op_bind (connection_values e dek v u et ah) (\<lambda>row.
      ins_on_conflict_do_update schwab_connections_table row (set_excluded row))) (\<lambda>_. sound e) (sound e)" for v dek
  proof (rule hoare_bind)
    show "hoare (holding_key e u v dek) (connection_values e dek v u et ah)
        (\<lambda>row s. holding_key e u v dek s \<and> (\<exists>i. row = sealed_connection e dek v u i et ah)) (sound e)"
      by (rule hoareI) (auto simp: connection_values_run under_def)
    fix row
    show "hoare (\<lambda>s. holding_key e u v dek s \<and> (\<exists>i. row = sealed_connection e dek v u i et ah))
        (ins_on_conflict_do_update schwab_connections_table row (set_excluded row)) (\<lambda>_. sound e) (sound e)"
      by (rule hoare_pure) (elim exE, rule safe_forget, erule store)
  qed
  show ?thesis
    unfolding upsert_connection_def connection_current_dek_eq by (rule safe_use_key) (simp add: key)
qed



section \<open>The sync and the jobs\<close>

lemma sound_read_connection [safe_intros]: "safe (under e C) (read_connection e' u)"
  unfolding read_connection_def by (intro safe_intros)

lemma sound_client [safe_intros]:
  assumes "aead_correct e" "\<And>h. safe (sound e) (body h)"
  shows "safe (sound e) (schwab_client_for_user e auth u body)"
  unfolding schwab_client_for_user_def Let_def
  by (intro safe_intros assms)

lemma sound_sync_window [safe_intros]:
  assumes "aead_correct e"
  shows "safe (sound e) (sync_window e auth u ah n w acc)"
  unfolding sync_window_def Let_def by (intro safe_intros assms)

lemma sound_all_windows [safe_intros]:
  assumes "aead_correct e"
  shows "safe (sound e) (sync_all_windows e auth u ah n ws acc)"
  by (induction ws arbitrary: n acc) (auto intro!: safe_intros assms)

lemma sound_sync_user [safe_intros]:
  assumes "aead_correct e"
  shows "safe (sound e) (sync_user e st auth u now)"
  unfolding sync_user_def by (intro safe_intros assms)

lemma readable_row: "run_readable (run_row i u a b t v f g x)"
  by (cases x; cases t; cases v)
    (auto simp: run_readable_def run_row_def sync_trigger_of_def sync_trigger_value_def sync_status_of_def sync_status_value_def
      sync_error_of_def sync_error_value_def split: sync_error.split)

lemma sound_record_run [safe_intros]: "safe (sound e) (record_sync_run e' u a b t v f g x)"
proof -
  have "safe (sound e) (ins sync_runs_table (run_row i u a b t v f g x))" for i
  proof (rule under_ins)
    fix d
    assume d: "intact e d" "tb_check sync_runs_table (run_row i u a b t v f g x) = None"
      "\<not> list_ex (\<lambda>q. tb_clash sync_runs_table q (run_row i u a b t v f g x)) (tb_rows sync_runs_table d)"
      "tb_parents sync_runs_table d (run_row i u a b t v f g x)"
    have "db_ok (t_sync_runs_update (\<lambda>_. t_sync_runs d @ [run_row i u a b t v f g x]) d)"
      using runs_st.append_ok [OF intactD(1) [OF d(1)] d(2-4)] by simp
    from intact_run [OF d(1) this readable_row]
    show "intact e (tb_put sync_runs_table (tb_rows sync_runs_table d @ [run_row i u a b t v f g x]) d) \<and> True" by simp
  qed
  then show ?thesis unfolding record_sync_run_def run_row_def by (intro safe_intros)
qed

lemma sound_parse_uuid [safe_intros]: "safe (sound e) (parse_uuid t)"
  unfolding parse_uuid_def by (intro safe_intros)

lemma sound_record_failure [safe_intros]: "safe (sound e) (record_failure e' r u t a b x)"
  unfolding record_failure_def by (intro safe_intros)

lemma sync_task_intact:
  assumes "aead_correct e" "intact e (sv_db sv)"
  shows "intact e (sv_db (snd (sync_user_task e st auth maker u trigger a b sv)))"
proof (cases "sync_trigger_of trigger")
  case None
  with assms show ?thesis by (simp add: sync_user_task_def)
next
  case (Some t)
  show ?thesis
    unfolding sync_user_task_def Some option.case
    by (rule with_session_intact [OF assms(2)]) (intro safe_intros assms)
qed

lemma fan_out_intact:
  assumes "intact e (sv_db sv)"
  shows "intact e (sv_db (snd (sync_all_connected_users_task sv)))"
  unfolding sync_all_connected_users_task_def sync_all_connected_users_def Let_def
  by (rule with_session_intact [OF assms]) (intro safe_intros)


section \<open>The broker routes\<close>

lemma sound_read_runs [safe_intros]: "safe (sound e) (read_sync_runs u n)"
proof -
  have "safe (sound e) (sync_run_record_of r)" for r
    by (auto simp: sync_run_record_of_def intro: safe_intros split: option.split)
  then show ?thesis unfolding read_sync_runs_def by (intro safe_intros)
qed

lemma sound_store_callback [safe_intros]:
  assumes "aead_correct e"
  shows "safe (sound e) (store_callback e auth url state u)"
proof -
  have "safe (sound e) (case entries of [entry] \<Rightarrow> upsert_connection e u et (an_hash_value entry)
      | _ \<Rightarrow> raise (HTTPException 409 ''Conflict''))" for entries et
    by (auto intro!: safe_intros assms split: list.split)
  then show ?thesis unfolding store_callback_def by (intro safe_intros)
qed

lemma sound_broker_routes [safe_intros]:
  assumes "aead_correct e"
  shows "safe (sound e) (callback e st lib now url state)"
  unfolding callback_def by (intro safe_intros assms)

lemma sound_broker_reads [safe_intros]:
  "safe (sound e) (connect e' st lib cookie now later)" "safe (sound e) (connection e' cookie now later)"
  "safe (sound e) (sync e' st cookie now later)" "safe (sound e) (sync_runs e' cookie now)"
  unfolding connect_def connection_def sync_def sync_runs_def defer_manual_sync_def
  by (intro safe_intros; simp)+


section \<open>The operator's scripts\<close>

lemma new_admin_learns:
  "hoare (under e (\<lambda>d. \<not> has_admin d)) (ins users_table (admin_row i username)) (\<lambda>_. sound e) (sound e)"
proof (rule ins_learns)
  fix d
  assume d: "intact e d" "\<not> has_admin d" "tb_check users_table (admin_row i username) = None"
    "\<not> list_ex (\<lambda>q. tb_clash users_table q (admin_row i username)) (tb_rows users_table d)"
    "tb_parents users_table d (admin_row i username)"
  have "db_ok (t_users_update (\<lambda>_. t_users d @ [admin_row i username]) d)"
    using users_st.append_ok [OF intactD(1) [OF d(1)] d(3-5)] by simp
  moreover have "\<not> has_user d (u_id (admin_row i username))" using d(4) unfolding table_users clash_users by simp
  ultimately show "intact e (tb_put users_table (tb_rows users_table d @ [admin_row i username]) d) \<and> True"
    using intact_user [OF d(1), of "admin_row i username"] d(2) by (simp add: has_admin_def)
qed

text \<open>The superuser sees every administrator there is.\<close>

lemma create_admin_sound:
  "hoare (\<lambda>s. sound e s \<and> s_role s = Superuser) (create_admin e' now username) (\<lambda>_. sound e) (sound e)"
proof -
  have lock: "hoare (\<lambda>s. sound e s \<and> s_role s = Superuser) (advisory_xact_lock k)
      (\<lambda>_ s. sound e s \<and> s_role s = Superuser) (sound e)" for k
    by (rule hoareI) (auto simp: advisory_xact_lock_def on_live_def under_def split: if_splits)
  have look: "hoare (\<lambda>s. sound e s \<and> s_role s = Superuser) (sel users_table u_is_admin)
      (\<lambda>rows. under e (\<lambda>d. rows = [] \<longrightarrow> \<not> has_admin d)) (sound e)"
    by (rule hoareI)
      (auto simp: sel_def stmt_def db_fail_def under_def policy_user_def row_visible_def has_admin_def list_ex_iff
        filter_empty_conv split: if_splits)
  have make: "hoare (under e (\<lambda>d. rows = [] \<longrightarrow> \<not> has_admin d)) (if rows \<noteq> [] then ret None
      else op_bind (draw_uuid e') (\<lambda>i. op_seq (ins users_table (admin_row i username))
        (op_bind (issue_token e' i Setup admin_token_ttl now) (\<lambda>raw. op_seq commit (ret (Some raw))))))
      (\<lambda>_. sound e) (sound e)" for rows :: "user_row list"
  proof (cases "rows = []")
    case True
    have "safe (sound e) (op_bind (issue_token e' i Setup admin_token_ttl now) (\<lambda>raw. op_seq commit (ret (Some raw))))" for i
      by (intro safe_intros) simp
    then show ?thesis
      using True by (auto intro!: hoare_bind [OF safe_keeps] hoare_seq [OF new_admin_learns] hoare_safe safe_intros)
  next
    case False
    then show ?thesis by (auto intro: hoare_ret under_sound)
  qed
  show ?thesis
    unfolding create_admin_def admin_row_def [symmetric]
    by (rule hoare_seq [OF lock], rule hoare_bind [OF look], rule make)
qed

lemma create_admin_intact:
  assumes "intact e (sv_db sv)"
  shows "intact e (sv_db (snd (create_admin_script e' now argv sv)))"
proof -
  have run: "intact e (sv_db sv')" if "with_session Superuser (create_admin e' now username) sv = (x, sv')" for username x sv'
  proof -
    let ?s = "new_session Superuser (sv_db sv) (sv_draws sv)"
    have "sound e ?s \<and> s_role ?s = Superuser" using assms by (simp add: sound_new_session) (simp add: new_session_def)
    then have "sound e (snd (create_admin e' now username ?s))"
      by (rule hoare_snd [OF create_admin_sound])
    with that show ?thesis by (auto simp: with_session_def under_def Let_def split_beta)
  qed
  from assms show ?thesis
    by (auto simp: create_admin_script_def dest: run split: list.split prod.split sum.split option.split)
qed


text \<open>
  A rotation that returns has opened every stored key with the old master key, so that key is the master
  key of the settings unless nothing is stored; afterwards the same data keys open under the new one.
\<close>

lemma same_keys_dek_in:
  assumes "same_keys e old new (t_user_data_keys d) ks"
  shows "dek_in (e\<lparr>master_key_bytes := new\<rparr>) (t_user_data_keys_update (\<lambda>_. ks) d) u v =
    dek_in (e\<lparr>master_key_bytes := old\<rparr>) d u v"
proof -
  have "same_keys e old new (filter (\<lambda>r. dk_key_version r = v) (key_rows d u))
      (filter (\<lambda>r. dk_key_version r = v) (key_rows (t_user_data_keys_update (\<lambda>_. ks) d) u))"
    unfolding key_rows_def by (intro filter_same_keys) (simp_all add: assms key_id_of_def)
  then show ?thesis
    unfolding dek_in_def by (rule one_or_none_same_keys) simp_all
qed

lemma open_fill_master [simp]: "open_fill (e\<lparr>master_key_bytes := k\<rparr>) = open_fill e"
proof -
  have "aes_dec (e\<lparr>master_key_bytes := k\<rparr>) = aes_dec e" by simp
  then show ?thesis unfolding open_fill_def open_amount_def fun_eq_iff by (simp only: simp_thms)
qed

lemma sealed_rotated:
  assumes "sealed (e\<lparr>master_key_bytes := kek\<rparr>) d" "keys_open (e\<lparr>master_key_bytes := new\<rparr>) (t_user_data_keys_update f d)"
    "\<And>u v. dek_in (e\<lparr>master_key_bytes := new\<rparr>) (t_user_data_keys_update f d) u v = dek_in (e\<lparr>master_key_bytes := kek\<rparr>) d u v"
  shows "sealed (e\<lparr>master_key_bytes := new\<rparr>) (t_user_data_keys_update f d)"
  using assms
  by (simp add: sealed_def fills_open_def opens_def broker_opens_def [abs_def] connection_opens_def [abs_def])

lemma rotated_rest:
  assumes "intact (e\<lparr>master_key_bytes := kek\<rparr>) d" "same_keys e old new (t_user_data_keys d) ks"
  shows "db_ok (t_user_data_keys_update (\<lambda>_. ks) d)" "admins_keyless (t_user_data_keys_update (\<lambda>_. ks) d)"
    "list_all (\<lambda>k. dk_key_version k = 1) ks"
proof -
  have m: "map key_id_of ks = map key_id_of (t_user_data_keys d)"
    using assms(2) by (auto simp: same_keys_def list_all2_conv_all_nth intro: nth_equalityI)
  then have s: "key_id_of ` set ks = key_id_of ` set (t_user_data_keys d)" by (metis set_map)
  have r: "\<exists>r \<in> set (t_user_data_keys d). dk_user_id r = dk_user_id k \<and> dk_key_version r = dk_key_version k"
    if "k \<in> set ks" for k
  proof -
    from that s obtain r where "r \<in> set (t_user_data_keys d)" "key_id_of r = key_id_of k" by (metis (no_types) image_iff)
    then show ?thesis by (auto simp: key_id_of_def)
  qed
  note i = intactD [OF assms(1)]
  have "distinct (map key_id_of ks)"
    using db_ok_keys [OF i(1)] unfolding m by (simp add: keys_distinct_def key_id_of_def [abs_def])
  then have "unclashed user_data_keys_table ks"
    using unclashed_key [of user_data_keys_table key_id_of ks] by (simp add: user_data_keys_table_def key_id_of_def)
  moreover have "fit user_data_keys_table d ks"
    using keys_st.ok [OF i(1)] r
    by (fastforce simp: table_ok_def fit_def user_data_keys_table_def list_all_iff)
  ultimately have "db_ok (tb_put user_data_keys_table ks d)"
    by (rule keys_st.put_ok [OF i(1)]) (simp add: user_data_keys_table_def)
  then show "db_ok (t_user_data_keys_update (\<lambda>_. ks) d)" by simp
  show "admins_keyless (t_user_data_keys_update (\<lambda>_. ks) d)"
    using i(4) r by (fastforce simp: admins_keyless_def admin_in_def list_all_iff)
  show "list_all (\<lambda>k. dk_key_version k = 1) ks"
    using i(2) r by (fastforce simp: sealed_def keys_open_def list_all_iff)
qed

lemma rotate_effect:
  assumes "aead_correct e" "aead_binding e" "intact (e\<lparr>master_key_bytes := kek\<rparr>) (sv_db sv)"
    "rotate_run e old new sv = (Inr n, sv')"
  obtains ks where "sv_db sv' = t_user_data_keys_update (\<lambda>_. ks) (sv_db sv)"
    "same_keys e old new (t_user_data_keys (sv_db sv)) ks"
    "list_all (\<lambda>r. \<exists>n dek. dk_wrapped_dek r = aes_enc e new n dek None \<and> dk_wrap_nonce r = n) ks"
    "\<And>u v. dek_in (e\<lparr>master_key_bytes := new\<rparr>) (sv_db sv') u v = dek_in (e\<lparr>master_key_bytes := kek\<rparr>) (sv_db sv) u v"
proof -
  note i = intactD [OF assms(3)]
  have all: "list_all (\<lambda>r. dek_under e old r \<noteq> None) (t_user_data_keys (sv_db sv))"
    using rotate_run_stops [of e old sv new] assms(4) by fastforce
  obtain ks m where r: "rotate_run e old new sv = (Inr (length (t_user_data_keys (sv_db sv))),
      \<lparr>sv_db = t_user_data_keys_update (\<lambda>_. ks) (sv_db sv), sv_draws = m\<rparr>)"
    and k: "same_keys e old new (t_user_data_keys (sv_db sv)) ks"
      "list_all (\<lambda>r. \<exists>n dek. dk_wrapped_dek r = aes_enc e new n dek None \<and> dk_wrap_nonce r = n) ks"
    by (rule rotate_run_ok [OF assms(1) db_ok_keys [OF i(1)] all])
  have d: "sv_db sv' = t_user_data_keys_update (\<lambda>_. ks) (sv_db sv)" using r assms(4) by simp
  have "old = kek" if "x \<in> set (t_user_data_keys (sv_db sv))" for x
  proof -
    have "key_opens (e\<lparr>master_key_bytes := kek\<rparr>) x"
      using i(2) that by (simp add: sealed_def keys_open_def list_all_iff)
    then obtain dek where "dk_wrapped_dek x = aes_enc e kek (dk_wrap_nonce x) dek None" by (auto simp: key_opens_def)
    moreover have "dek_under e old x \<noteq> None" using all that by (simp add: list_all_iff)
    ultimately show ?thesis using assms(2) unfolding aead_binding_def dek_under_def by metis
  qed
  then have "dek_in (e\<lparr>master_key_bytes := old\<rparr>) (sv_db sv) u v = dek_in (e\<lparr>master_key_bytes := kek\<rparr>) (sv_db sv) u v" for u v
    by (cases "t_user_data_keys (sv_db sv)") (auto simp: dek_in_def key_rows_def)
  with same_keys_dek_in [OF k(1)] d k show ?thesis by (intro that) simp_all
qed

lemma rotate_intact:
  assumes "aead_correct e" "aead_binding e" "intact (e\<lparr>master_key_bytes := kek\<rparr>) (sv_db sv)"
    "rotate_run e old new sv = (Inr n, sv')"
  shows "intact (e\<lparr>master_key_bytes := new\<rparr>) (sv_db sv')"
proof -
  obtain ks where d: "sv_db sv' = t_user_data_keys_update (\<lambda>_. ks) (sv_db sv)"
    and k: "same_keys e old new (t_user_data_keys (sv_db sv)) ks"
      "list_all (\<lambda>r. \<exists>n dek. dk_wrapped_dek r = aes_enc e new n dek None \<and> dk_wrap_nonce r = n) ks"
    and dek: "\<And>u v. dek_in (e\<lparr>master_key_bytes := new\<rparr>) (sv_db sv') u v = dek_in (e\<lparr>master_key_bytes := kek\<rparr>) (sv_db sv) u v"
    by (rule rotate_effect [OF assms]) blast
  note i = intactD [OF assms(3)]
  have "key_opens (e\<lparr>master_key_bytes := new\<rparr>) x" if "x \<in> set ks" for x
    using k(2) that by (auto simp: key_opens_def dek_under_def list_all_iff aead_correctD [OF assms(1)])
  then have "keys_open (e\<lparr>master_key_bytes := new\<rparr>) (sv_db sv')"
    using rotated_rest(3) [OF assms(3) k(1)] by (simp add: d keys_open_def list_all_iff)
  then have "sealed (e\<lparr>master_key_bytes := new\<rparr>) (sv_db sv')"
    unfolding d using dek [unfolded d] by (rule sealed_rotated [OF i(2)])
  with rotated_rest [OF assms(3) k(1)] i show ?thesis
    by (simp add: d intact_def one_admin_def trail_ok_def resets_audited_def runs_readable_def placed_def admin_in_def)
qed

end
