(* ===== verification/System.thy ===== *)
theory System
  imports Intact_Writes
begin

text \<open>
  The whole system as a state machine: the master key of the settings and the server, and one transition
  for every way in: each route of the web process, each job of the worker and each script of the operator.
  Clock, settings, entropy and everything the vendor answers are left open. What every reachable
  state satisfies follows by rule induction from the invariant of the operations.
\<close>

record system =
  sy_kek :: bytes
  sy_server :: server

definition env_of :: "env \<Rightarrow> system \<Rightarrow> env" where
  "env_of e y = e\<lparr>master_key_bytes := sy_kek y\<rparr>"

text \<open>A request: its operation on a fresh session of the application role.\<close>

definition served :: "'a op \<Rightarrow> system \<Rightarrow> system" where
  "served m y = y\<lparr>sy_server := snd (with_session App m (sy_server y))\<rparr>"

definition on_server :: "(server \<Rightarrow> 'a \<times> server) \<Rightarrow> system \<Rightarrow> system" where
  "on_server f y = y\<lparr>sy_server := snd (f (sy_server y))\<rparr>"

inductive step :: "env \<Rightarrow> system \<Rightarrow> system \<Rightarrow> bool" for e where
  account_creation: "step e y (served (create_user (env_of e y) cookie now later username) y)"
| password_reset: "step e y (served (reset_password (env_of e y) cookie now later user_id) y)"
| account_setup: "step e y (served (setup_account (env_of e y) now later token password) y)"
| log_in: "step e y (served (login (env_of e y) dummy_hash now username password) y)"
| log_out: "step e y (served (logout (env_of e y) cookie now) y)"
| who_am_i: "step e y (served (me (env_of e y) cookie now) y)"
| account_deletion: "step e y (served (delete_me (env_of e y) cookie now) y)"
| position_list: "step e y (served (list_positions (env_of e y) cookie now) y)"
| position_read: "step e y (served (get_position (env_of e y) cookie now position_id) y)"
| broker_connect: "step e y (served (connect (env_of e y) st lib cookie now later) y)"
| broker_callback: "step e y (served (callback (env_of e y) st lib now url state) y)"
| broker_status: "step e y (served (connection (env_of e y) cookie now later) y)"
| sync_request: "step e y (served (sync (env_of e y) st cookie now later) y)"
| sync_history: "step e y (served (sync_runs (env_of e y) cookie now) y)"
| sync_job: "step e y (on_server (sync_user_task (env_of e y) st auth maker user_id trigger started_at finished_at) y)"
| fan_out: "step e y (on_server sync_all_connected_users_task y)"
| bootstrap: "step e y (on_server (create_admin_script (env_of e y) now argv) y)"
| rotation: "rotate_main (env_of e y) old_key new_key (sy_server y) = (ExitOk n, sv) \<Longrightarrow>
    Option.bind new_key decode_key = Some kek \<Longrightarrow> step e y \<lparr>sy_kek = kek, sy_server = sv\<rparr>"
| failed_rotation: "rotate_main (env_of e y) old_key new_key (sy_server y) = (r, sv) \<Longrightarrow> (\<And>n. r \<noteq> ExitOk n) \<Longrightarrow>
    step e y (y\<lparr>sy_server := sv\<rparr>)"

inductive_cases stepE: "step e y y'"

inductive reachable :: "env \<Rightarrow> system \<Rightarrow> bool" for e where
  start: "reachable e \<lparr>sy_kek = kek, sy_server = \<lparr>sv_db = empty_db, sv_draws = n\<rparr>\<rparr>"
| onward: "reachable e y \<Longrightarrow> step e y y' \<Longrightarrow> reachable e y'"


section \<open>The invariant of the system\<close>

definition system_ok :: "env \<Rightarrow> system \<Rightarrow> bool" where
  "system_ok e y \<longleftrightarrow> intact (env_of e y) (sv_db (sy_server y))"

lemma env_of_simps [simp]:
  "env_of e (y\<lparr>sy_server := sv\<rparr>) = env_of e y" "aead_correct (env_of e y) = aead_correct e"
  "aead_binding (env_of e y) = aead_binding e"
  by (simp_all add: env_of_def aead_correct_def aead_binding_def)

lemma aead_master [simp]:
  "aead_correct (e\<lparr>master_key_bytes := k\<rparr>) = aead_correct e" "aead_binding (e\<lparr>master_key_bytes := k\<rparr>) = aead_binding e"
  by (simp_all add: aead_correct_def aead_binding_def)

lemma served_ok:
  assumes "system_ok e y" "safe (sound (env_of e y)) m"
  shows "system_ok e (served m y)"
  using with_session_intact [OF assms(1) [unfolded system_ok_def] assms(2)] by (simp add: system_ok_def served_def)

lemma rotate_main_ok:
  assumes "rotate_main e old_key new_key sv = (ExitOk n, sv')" "Option.bind new_key decode_key = Some kek"
  obtains old where "rotate_run e old kek sv = (Inr n, sv')"
  using assms that
  by (auto simp: rotate_main_def split: option.splits if_splits prod.splits sum.splits)

lemma keeps_tx_rotate: "keeps same_tx (rotate_kek e old new)"
proof -
  have "keeps same_tx (rewrap e old new r)" "keeps same_tx (flush_key r)" for r
    unfolding rewrap_def flush_key_def by (intro keeps_intros)+
  then show ?thesis unfolding rotate_kek_def by (intro keeps_intros)
qed

lemma rotate_run_fails:
  assumes "rotate_run e old new sv = (Inl x, sv')"
  shows "sv_db sv' = sv_db sv"
proof -
  let ?s = "new_session Superuser (sv_db sv) (sv_draws sv)"
  obtain r t where r: "rotate_kek e old new ?s = (r, t)" by fastforce
  have "same_tx ?s t" using keeps_tx_rotate r by (rule keepsD)
  then have "s_committed t = sv_db sv" by (simp add: same_tx_def new_session_def)
  with assms r show ?thesis
    by (cases r) (auto simp: rotate_run_def with_session_def op_run commit_def split: if_splits)
qed

lemma rotate_main_fails:
  assumes "rotate_main e old_key new_key sv = (r, sv')" "\<And>n. r \<noteq> ExitOk n"
  shows "sv_db sv' = sv_db sv"
  using assms
  by (auto simp: rotate_main_def dest: rotate_run_fails split: option.splits if_splits prod.splits sum.splits)

lemma step_ok:
  assumes "aead_correct e" "aead_binding e" "step e y y'" "system_ok e y"
  shows "system_ok e y'"
  using assms(3,4)
proof cases
  case (account_deletion cookie now)
  with assms(4) delete_me_intact show ?thesis by (simp add: system_ok_def served_def)
next
  case (sync_job st auth maker user_id trigger started_at finished_at)
  with assms(1,4) sync_task_intact [of "env_of e y"] show ?thesis by (simp add: system_ok_def on_server_def)
next
  case fan_out
  with assms(4) fan_out_intact show ?thesis by (simp add: system_ok_def on_server_def)
next
  case (bootstrap now argv)
  with assms(4) create_admin_intact show ?thesis by (simp add: system_ok_def on_server_def)
next
  case (rotation old_key new_key n sv kek)
  from rotation(2,3) obtain old where r: "rotate_run (env_of e y) old kek (sy_server y) = (Inr n, sv)"
    by (rule rotate_main_ok)
  have "intact ((env_of e y)\<lparr>master_key_bytes := sy_kek y\<rparr>) (sv_db (sy_server y))"
    using assms(4) by (simp add: system_ok_def env_of_def)
  from rotate_intact [OF _ _ this r] assms(1,2) rotation(1) show ?thesis
    by (simp add: system_ok_def env_of_def)
next
  case (failed_rotation old_key new_key r sv)
  with assms(4) rotate_main_fails [OF failed_rotation(2,3)] show ?thesis by (simp add: system_ok_def)
qed (auto intro!: served_ok safe_intros simp: assms)

lemma reachable_ok:
  assumes "aead_correct e" "aead_binding e" "reachable e y"
  shows "system_ok e y"
  using assms(3)
proof induction
  case (start kek n)
  show ?case by (simp add: system_ok_def intact_empty)
next
  case (onward y y')
  with assms(1,2) show ?case by (blast intro: step_ok)
qed

end
