(* ===== verification/System_Promises.thy ===== *)
theory System_Promises
  imports System
begin

text \<open>
  What the program promises in every state it can reach, from an empty database through any sequence of
  requests, jobs, scripts and master-key rotations, successful or not: the schema holds, there is one
  administrator and every reset is on the trail, the ledger, the connection and the run list always read
  back, and an account without a data key stays without a broker connection.
\<close>

section \<open>From the invariant\<close>

lemma reachable_intact:
  assumes "aead_correct e" "aead_binding e" "reachable e y"
  shows "intact (env_of e y) (sv_db (sy_server y))"
  using reachable_ok [OF assms] by (simp add: system_ok_def)

lemmas reachable_parts = reachable_intact [THEN intactD(1)] reachable_intact [THEN intactD(2)]
  reachable_intact [THEN intactD(3)] reachable_intact [THEN intactD(4)] reachable_intact [THEN intactD(5)]
  reachable_intact [THEN intactD(6)] reachable_intact [THEN intactD(7)]

text \<open>A session in the context of a user, on what is committed.\<close>

definition session_of :: "uuid \<Rightarrow> server \<Rightarrow> sess" where
  "session_of u sv = s_user_guc_update (\<lambda>_. Some (uuid_str u)) (request sv)"

lemma session_of_simps [simp]: "as_user u (session_of u sv)" "s_db (session_of u sv) = sv_db sv"
  by (simp_all add: session_of_def as_user_set)

lemma in_context:
  assumes "m (session_of u sv) = (x, session_of u sv)"
  shows "with_session App (op_seq (set_current_user (uuid_str u)) m) sv = (x, sv)"
  using assms
  by (simp add: with_request op_seq_def op_bind_def set_current_user_live session_of_def)

lemma length_filter_key: "distinct (map f xs) \<Longrightarrow> length (filter (\<lambda>r. f r = k) xs) \<le> 1"
  by (induction xs) (auto simp: filter_empty_conv image_iff)

lemma conn_of_le1:
  assumes "db_ok d"
  shows "length (conn_of d u) \<le> 1"
proof -
  have "distinct (map c_user_id (t_schwab_connections d))"
    using db_okD(10) [OF assms] unclashed_distinct [of schwab_connections_table "t_schwab_connections d" c_user_id]
    by (simp add: table_ok_def schwab_connections_table_def)
  then have "length (filter (\<lambda>r. c_user_id r = u) (t_schwab_connections d)) \<le> 1"
    using length_filter_key [of c_user_id "t_schwab_connections d" u] by simp
  then show ?thesis by (simp add: conn_of_def)
qed

lemma one_admin_row:
  assumes "one_admin d" "distinct (map u_id (t_users d))" "admin_in d u" "admin_in d v"
  shows "u = v"
proof -
  obtain q r where "q \<in> set (filter u_is_admin (t_users d))" "u_id q = u"
    "r \<in> set (filter u_is_admin (t_users d))" "u_id r = v"
    using assms(3,4) by (auto simp: admin_in_def list_ex_iff)
  with assms(1) show ?thesis
    by (cases "filter u_is_admin (t_users d)") (auto simp: one_admin_def simp del: set_filter)
qed

lemma admin_no_key:
  assumes "admins_keyless d" "admin_in d u"
  shows "key_rows d u = []"
  using assms by (auto simp: admins_keyless_def key_rows_def filter_empty_conv list_all_iff)

lemma own_fills_open:
  assumes "fills_open e d"
  shows "\<exists>records. list_all2 (opens e d u) (own_fills d u) records"
proof -
  have "\<exists>rc. opens e d u r rc" if "r \<in> set (own_fills d u)" for r
    using assms that by (auto simp: fills_open_def own_fills_def list_all_iff)
  then have "list_all2 (opens e d u) (own_fills d u) (map (\<lambda>r. SOME rc. opens e d u r rc) (own_fills d u))"
    by (auto simp: list_all2_map2 list_all2_same intro: someI_ex)
  then show ?thesis by blast
qed

definition newest_runs :: "nat \<Rightarrow> db \<Rightarrow> uuid \<Rightarrow> sync_run_row list" where
  "newest_runs n d u = take n (sort_key (\<lambda>r. - r_started_at r) (own_runs d u))"

lemma read_runs_readable:
  assumes "as_user u s" "list_all run_readable (own_runs (s_db s) u)"
  shows "\<exists>records. read_sync_runs u n s = (Inr records, s) \<and>
    map rr_started_at records = map r_started_at (newest_runs n (s_db s) u)"
proof -
  have sel: "sel sync_runs_table (\<lambda>r. r_user_id r = u) s = (Inr (own_runs (s_db s) u), s)"
    using runs_tb.sel_as [OF assms(1), of "\<lambda>r. r_user_id r = u"] by (simp add: own_runs_def cong: filter_cong)
  have "\<exists>records. op_map sync_run_record_of rs s = (Inr records, s) \<and> map rr_started_at records = map r_started_at rs"
    if "list_all run_readable rs" for rs
    using that
  proof (induction rs)
    case Nil
    show ?case by (simp add: op_run)
  next
    case (Cons r rs)
    then obtain records where "op_map sync_run_record_of rs s = (Inr records, s)"
      "map rr_started_at records = map r_started_at rs" by auto
    with run_readable_read [of r s] Cons.prems show ?case by (auto simp: op_run)
  qed
  moreover have "list_all run_readable (newest_runs n (s_db s) u)"
    using assms(2) set_take_subset by (fastforce simp: newest_runs_def list_all_iff)
  ultimately show ?thesis by (simp add: read_sync_runs_def op_bind_def sel newest_runs_def)
qed

lemma read_connection_sealed:
  assumes "as_user u s" "db_ok (s_db s)" "sealed e (s_db s)"
  shows "(conn_of (s_db s) u = [] \<and> read_connection e u s = (Inr None, s)) \<or>
    (\<exists>c. read_connection e u s = (Inr (Some c), s) \<and> cr_user_id c = u) \<or>
    read_connection e u s = (Inl ValidationError, s)"
proof (cases "conn_of (s_db s) u")
  case Nil
  with read_connection_none [OF assms(1)] show ?thesis by simp
next
  case (Cons row rest)
  with conn_of_le1 [OF assms(2), of u] have row: "conn_of (s_db s) u = [row]" by simp
  then have "row \<in> set (conn_of (s_db s) u)" by simp
  then have "row \<in> set (t_schwab_connections (s_db s))" "c_user_id row = u" by (simp_all add: conn_of_def)
  with assms(3) have "connection_opens e (s_db s) row" by (auto simp: sealed_def list_all_iff)
  with \<open>c_user_id row = u\<close> obtain dek hash raw where dek: "dek_in e (s_db s) u (c_key_version row) = Some dek"
    and o: "aes_dec e dek (c_account_hash_nonce row) (c_account_hash_ciphertext row)
        (Some (connection_associated_data ''account_hash_ciphertext'' u)) = Some hash"
      "aes_dec e dek (c_token_nonce row) (c_token_ciphertext row)
        (Some (connection_associated_data ''token_ciphertext'' u)) = Some raw"
    by (auto simp: connection_opens_def)
  have sel: "sel schwab_connections_table (\<lambda>r. c_user_id r = u) s = (Inr [row], s)"
    using sel_connection_as [OF assms(1)] row by simp
  have key: "dek_for_version e ConnectionDataKeyMissing u (c_key_version row) s = (Inr dek, s)"
    using dek_for_version_as [OF assms(1) dek] by simp
  show ?thesis
    by (cases "validate_json e raw")
      (simp_all add: read_connection_def op_bind_def sel one_or_none_def ret_def raise_def key decrypt_field_def o)
qed


lemma no_key_no_connection:
  assumes "sealed e d" "key_rows d u = []"
  shows "conn_of d u = []"
proof -
  have "dek_in e d u v = None" for v using assms(2) by (simp add: dek_in_def)
  with assms(1) show ?thesis
    by (auto simp: sealed_def conn_of_def filter_empty_conv list_all_iff connection_opens_def)
qed

text \<open>A callback for a user without a data key.\<close>

lemma callback_keyless:
  assumes "identity_ok (sv_db sv)" "get_schwab_auth st lib = Inr auth"
    "token_user e (sv_db sv) state OauthState now = Some u" "key_rows (sv_db sv) u = []"
    "exchange_callback e auth url state = Inr et" "get_account_numbers auth = Inr [entry]"
  shows "with_session App (callback e st lib now url state) sv =
    (Inl NoResultFound, sv\<lparr>sv_db := without_token e state OauthState now (sv_db sv)\<rparr>)"
proof -
  obtain s where s: "callback e st lib now url state (request sv) =
      op_bind (store_callback e auth url state u) (\<lambda>_. commit) s"
    "as_user u s" "s_db s = without_token e state OauthState now (sv_db sv)" "s_committed s = s_db s"
    "s_draws s = sv_draws sv"
    by (rule callback_state [OF assms(1-3)])
  have "key_rows (s_db s) u = []" using assms(4) s(3) by (simp add: key_rows_def without_token_def)
  from current_dek_none [OF s(2) this] have "store_callback e auth url state u s = (Inl NoResultFound, s)"
    by (simp add: store_callback_def op_bind_def op_from_def require_rls_context_as [OF s(2)] assms(5,6)
        upsert_connection_def connection_current_dek_eq)
  with s show ?thesis by (simp add: with_request op_bind_def)
qed


section \<open>The promises\<close>

text \<open>
  C3: The schema holds in every reachable state. After any sequence of requests, worker jobs, operator
  scripts and master-key rotations from the empty database, whatever the vendor answered and whichever of
  them failed: no two rows of a table share a primary or unique key, every row meets its column types and
  CHECK constraints, and every foreign key names a stored row.
\<close>

theorem reachable_schema:
  assumes "aead_correct e" "aead_binding e" "reachable e y"
  shows "db_ok (sv_db (sy_server y))"
  using reachable_parts(1) [OF assms] .

text \<open>
  C4: Who an administrator is and what the trail says, in every reachable state. There is at most one
  administrator; no administrator holds a data key; every entry of the audit trail was made by an
  administrator; and a password-reset token is stored only together with an entry that names its user.
\<close>

theorem reachable_accountable:
  assumes "aead_correct e" "aead_binding e" "reachable e y" "d = sv_db (sy_server y)"
  shows "(admin_in d u \<and> admin_in d v \<longrightarrow> u = v) \<and> (admin_in d u \<longrightarrow> key_rows d u = []) \<and>
    list_all (\<lambda>a. admin_in d (al_reader_id a)) (t_audit_log d) \<and>
    list_all (\<lambda>t. st_purpose t = token_purpose_value PasswordReset \<longrightarrow>
      list_ex (\<lambda>a. al_subject_id a = st_user_id t) (t_audit_log d)) (t_setup_tokens d)"
proof -
  note i = reachable_parts [OF assms(1-3)]
  have "distinct (map u_id (t_users d))"
    using db_ok_identity [OF i(1)] assms(4) by (simp add: identity_ok_def users_ok_def)
  with i one_admin_row admin_no_key assms(4) show ?thesis
    unfolding trail_ok_def resets_audited_def by simp
qed

text \<open>
  C5: The ledger always reads back. In every reachable state, through any number of master-key rotations,
  reading a user's fills succeeds and returns one record for each stored row of that user, in the order of
  the table.
\<close>

theorem ledger_always_reads:
  assumes "aead_correct e" "aead_binding e" "reachable e y"
  shows "\<exists>records. with_session App (op_seq (set_current_user (uuid_str u)) (read_fills (env_of e y) u)) (sy_server y) =
      (Inr records, sy_server y) \<and>
    list_all2 (opens (env_of e y) (sv_db (sy_server y)) u) (own_fills (sv_db (sy_server y)) u) records"
proof -
  let ?s = "session_of u (sy_server y)"
  have "fills_open (env_of e y) (s_db ?s)" using reachable_parts(2) [OF assms] by (simp add: sealed_def)
  from own_fills_open [OF this] obtain records
    where r: "list_all2 (opens (env_of e y) (s_db ?s) u) (own_fills (s_db ?s) u) records" by blast
  then have "read_fills (env_of e y) u ?s = (Inr records, ?s)"
    by (simp add: read_fills_iff [OF session_of_simps(1)])
  from in_context [of "read_fills (env_of e y) u", OF this] r show ?thesis by auto
qed

text \<open>
  C6: A connection is never unreadable for want of a key. In every reachable state, reading a user's broker
  connection answers that there is none, returns it, or stops where the decrypted token is no JSON of the
  expected shape; it never raises \<open>InvalidTag\<close> or reports a missing key. The run list reads back as the
  newest runs of the user, newest first.
\<close>

theorem connection_always_opens:
  assumes "aead_correct e" "aead_binding e" "reachable e y" "sv = sy_server y" "e' = env_of e y"
  shows "(\<exists>x. with_session App (op_seq (set_current_user (uuid_str u)) (read_connection e' u)) sv = (x, sv) \<and>
      (x = Inl ValidationError \<or> (x = Inr None \<and> conn_of (sv_db sv) u = []) \<or>
       (\<exists>c. x = Inr (Some c) \<and> cr_user_id c = u))) \<and>
    (\<exists>records. with_session App (op_seq (set_current_user (uuid_str u)) (read_sync_runs u n)) sv = (Inr records, sv) \<and>
      map rr_started_at records = map r_started_at (newest_runs n (sv_db sv) u))"
proof -
  note i = reachable_parts [OF assms(1-3)]
  have s: "as_user u (session_of u sv)" "db_ok (s_db (session_of u sv))" "sealed e' (s_db (session_of u sv))"
    "list_all run_readable (own_runs (s_db (session_of u sv)) u)"
    using i(1,2,7) assms(4,5) by (simp_all add: runs_readable_def own_runs_def list_all_iff)
  from read_runs_readable [OF s(1,4), of n] obtain records where
    r: "read_sync_runs u n (session_of u sv) = (Inr records, session_of u sv)"
    "map rr_started_at records = map r_started_at (newest_runs n (sv_db sv) u)" by auto
  obtain x where c: "read_connection e' u (session_of u sv) = (x, session_of u sv)"
    "x = Inl ValidationError \<or> (x = Inr None \<and> conn_of (sv_db sv) u = []) \<or> (\<exists>c. x = Inr (Some c) \<and> cr_user_id c = u)"
    using read_connection_sealed [OF s(1-3)] by auto
  from in_context [of "read_sync_runs u n", OF r(1)] in_context [of "read_connection e' u", OF c(1)] r(2) c(2) show ?thesis by blast
qed

text \<open>
  C7: The administrator can never connect a broker. The bootstrap script stores the account without a data
  key and nothing ever adds one, so in every reachable state the callback of an administrator who went
  through the whole authorization, with a good state and a vendor that answers well, raises
  \<open>NoResultFound\<close>: the state is used up and no connection is stored, then or ever.
\<close>

theorem admin_cannot_connect:
  assumes "aead_correct e" "aead_binding e" "reachable e y" "sv = sy_server y" "e' = env_of e y"
    "get_schwab_auth st lib = Inr auth" "token_user e' (sv_db sv) state OauthState now = Some u"
    "admin_in (sv_db sv) u"
    "exchange_callback e' auth url state = Inr et" "get_account_numbers auth = Inr [entry]"
  shows "with_session App (callback e' st lib now url state) sv =
      (Inl NoResultFound, sv\<lparr>sv_db := without_token e' state OauthState now (sv_db sv)\<rparr>) \<and>
    conn_of (sv_db sv) u = []"
proof -
  note i = reachable_parts [OF assms(1-3), folded assms(4,5)]
  have "identity_ok (sv_db sv)" "key_rows (sv_db sv) u = []"
    using db_ok_identity i(1) admin_no_key [OF i(4) assms(8)] by simp_all
  with callback_keyless [OF _ assms(6,7) _ assms(9,10)] no_key_no_connection [OF i(2)] show ?thesis by simp
qed

end
