(* ===== verification/Ledger_Book.thy ===== *)
theory Ledger_Book
  imports System_Promises Fill_Promises
begin

text \<open>
  The ledger as its users think of it: a book with one entry per execution, where the first entry written
  for an execution stands. The encrypted, chunked write path on the database refines it.
\<close>

type_synonym fill_entry = "string \<times> string \<times> pydec option \<times> pydec option"

type_synonym book = "(string \<times> string \<times> int \<times> datetime) \<rightharpoonup> fill_entry"

definition entry_of_write :: "fill_write \<Rightarrow> fill_entry" where
  "entry_of_write w = (fw_position_effect w, fw_side w, fw_quantity w, fw_price_usd w)"

definition entry_of_record :: "fill_record \<Rightarrow> fill_entry" where
  "entry_of_record r = (fr_position_effect r, fr_side r, fr_quantity r, fr_price_usd r)"

text \<open>The specification: write a batch into the book, counting the new entries.\<close>

fun write_book :: "book \<Rightarrow> fill_write list \<Rightarrow> nat \<times> book" where
  "write_book b [] = (0, b)"
| "write_book b (w # ws) =
     (if write_key w \<in> dom b then write_book b ws
      else apfst Suc (write_book (b(write_key w \<mapsto> entry_of_write w)) ws))"

text \<open>The abstraction: the records a user reads.\<close>

definition book_of :: "fill_record list \<Rightarrow> book" where
  "book_of records = map_of (map (\<lambda>r. (record_key r, entry_of_record r)) records)"

lemma dom_book_of [simp]: "dom (book_of records) = record_key ` set records"
  by (simp add: book_of_def dom_map_of_conv_image_fst image_image)

lemma record_of_write_simps [simp]:
  "record_key (record_of_write u kv w) = write_key w" "entry_of_record (record_of_write u kv w) = entry_of_write w"
  by (simp_all add: record_key_def write_key_def record_of_write_def entry_of_record_def entry_of_write_def)

lemma book_of_snoc:
  assumes "write_key w \<notin> record_key ` set records"
  shows "book_of (records @ [record_of_write u kv w]) = (book_of records)(write_key w \<mapsto> entry_of_write w)"
proof -
  have "write_key w \<notin> dom (book_of records)" using assms by simp
  then show ?thesis
    by (simp add: book_of_def map_add_def fun_eq_iff dom_def split: option.split)
qed

lemma write_book_fresh:
  "write_book (book_of old) ws = (length (fresh write_key (record_key ` set old) ws),
     book_of (old @ map (record_of_write u kv) (fresh write_key (record_key ` set old) ws)))"
proof (induction ws arbitrary: old)
  case (Cons w ws)
  show ?case
  proof (cases "write_key w \<in> record_key ` set old")
    case True
    then show ?thesis using Cons.IH [of old] by simp
  next
    case False
    from Cons.IH [of "old @ [record_of_write u kv w]"] False show ?thesis
      by (simp add: book_of_snoc [of w old u kv, symmetric])
  qed
qed simp

text \<open>
  C2: The write path refines the book. In every reachable state, for every user: reading the ledger works
  and gives a book; when \<open>insert_fills\<close> of any batch returns, the number it returns and the book read
  afterwards are exactly those of the specification, in which the first entry written for an execution
  stands. Encryption, data keys, chunks and SQL conflicts do not show.
\<close>

theorem ledger_refines_book:
  assumes "aead_correct e" "aead_binding e" "reachable e y" "e' = env_of e y" "s = session_of u (sy_server y)"
    "insert_fills e' u fws s = (Inr n, s')"
  shows "\<exists>old new. read_fills e' u s = (Inr old, s) \<and> read_fills e' u s' = (Inr new, s') \<and>
    write_book (book_of old) fws = (n, book_of new)"
proof -
  note i = reachable_parts [OF assms(1-3), folded assms(4)]
  have s: "as_user u s" "s_db s = sv_db (sy_server y)" by (simp_all add: assms(5))
  have "fills_open e' (s_db s)" using i(2) by (simp add: sealed_def s(2))
  from own_fills_open [OF this] obtain old where "read_fills e' u s = (Inr old, s)"
    using read_fills_iff [OF s(1)] by blast
  moreover from insert_fills_reads [OF _ s(1) _ this assms(6)] obtain kv where
    "n = length (fresh write_key (record_key ` set old) fws)"
    "read_fills e' u s' = (Inr (old @ map (record_of_write u kv) (fresh write_key (record_key ` set old) fws)), s')"
    using assms(1,4) db_ok_keys [OF i(1)] s(2) by auto
  ultimately show ?thesis using write_book_fresh [of old fws u kv] by blast
qed

end
