(* ===== verification/Split_Executions.thy ===== *)
theory Split_Executions
  imports Ledger_Book Schwab_Extract
begin

text \<open>
  Two executions of one order that the broker reports as two activities. \<open>leg_index\<close> counts within one activity,
  so the two fills can share the key of the ledger, and the first one written stands.
\<close>

text \<open>
  Take two activities of the same order at the same instant whose legs at the same place have the same symbol.
  Both give a fill, whatever their quantities and prices; the two fills have the same key, and after the first
  is in the book the second changes nothing.
\<close>

theorem second_activity_lost:
  assumes "extract_leg t order_id i item = Inr f" "extract_leg t' order_id i item' = Inr f'" "tx_time t' = tx_time t"
    and "Option.bind (ti_instrument item') in_symbol = Option.bind (ti_instrument item) in_symbol"
  shows "write_key f' = write_key f \<and> write_book b [f, f'] = write_book b [f]"
proof -
  have "write_key f' = write_key f"
    using assms by (auto simp: extract_leg_def Let_def write_key_def split: option.splits prod.splits)
  then show ?thesis by simp
qed

text \<open>One and two contracts bought in the same second, at different prices.\<close>

definition split_item :: "nat \<Rightarrow> nat \<Rightarrow> transfer_item" where
  "split_item n cents = \<lparr>ti_instrument = Some \<lparr>in_symbol = Some ''SPXW'', in_asset_type = Some ''OPTION''\<rparr>,
     ti_amount = Some (Dec False n 0), ti_price = Some (Dec False cents (-2)), ti_cost = None,
     ti_position_effect = Some ''OPENING''\<rparr>"

definition split_activity :: "string \<Rightarrow> transfer_item \<Rightarrow> transaction" where
  "split_activity activity item = \<lparr>tx_activity_id = activity, tx_type = ''TRADE'', tx_time = 5, tx_order_id = Some ''1006'',
     tx_transfer_items = [item]\<rparr>"

theorem second_activity_lost_witness:
  "\<exists>f f'. extract_fills (split_activity ''1'' (split_item 1 1250)) = ([f], []) \<and>
    extract_fills (split_activity ''2'' (split_item 2 1260)) = ([f'], []) \<and> fw_quantity f \<noteq> fw_quantity f' \<and>
    write_book b [f, f'] = write_book b [f]"
proof -
  let ?t = "split_activity ''1'' (split_item 1 1250)" and ?t' = "split_activity ''2'' (split_item 2 1260)"
  obtain f where f: "extract_leg ?t ''1006'' 0 (split_item 1 1250) = Inr f" "fw_quantity f = Some (Dec False 1 0)"
    by (simp add: extract_leg_def split_item_def direction_def dec_is_zero_def dec_pos_def)
  obtain f' where f': "extract_leg ?t' ''1006'' 0 (split_item 2 1260) = Inr f'" "fw_quantity f' = Some (Dec False 2 0)"
    by (simp add: extract_leg_def split_item_def direction_def dec_is_zero_def dec_pos_def)
  have "extract_fills ?t = ([f], [])" "extract_fills ?t' = ([f'], [])"
    using f(1) f'(1) by (simp_all add: extract_fills_def split_activity_def is_option_item_def split_item_def)
  with second_activity_lost [OF f(1) f'(1)] f(2) f'(2) show ?thesis
    by (intro exI [of _ f] exI [of _ f']) (simp add: split_activity_def split_item_def)
qed

end
