(* ===== verification/Occ_Symbol.thy ===== *)
theory Occ_Symbol
  imports Pairing Py_Time
begin

text \<open>
  \<open>parse_occ_symbol\<close> and \<open>detect_roll\<close> of \<open>ledger/pairing.py\<close>: the option contract behind an OCC symbol
  and the negative guard for rolls. The symbol is a byte list; \<open>\d\<close> is taken as the ten ASCII digits
  (the pattern would also take other Unicode digits).
\<close>

section \<open>Decimal division\<close>

text \<open>\<open>Decimal.__truediv__\<close> by a non-zero divisor.\<close>

fun dec_strip :: "nat \<Rightarrow> nat \<Rightarrow> int \<Rightarrow> nat \<times> int" where
  "dec_strip 0 c e = (c, e)"
| "dec_strip (Suc n) c e = (if c mod 10 = 0 then dec_strip n (c div 10) (e + 1) else (c, e))"

definition dec_div :: "pydec \<Rightarrow> pydec \<Rightarrow> pydec" where
  "dec_div a b =
     (let sign = (dsign a \<noteq> dsign b); ideal = dexp a - dexp b
      in if dcoeff a = 0 then dec_fix (Dec sign 0 ideal)
         else (let shift = int (length (show_nat (dcoeff b))) - int (length (show_nat (dcoeff a))) +
                     int dec_prec + 1;
                   e = ideal - shift;
                   n = dcoeff a * 10 ^ nat shift; m = dcoeff b * 10 ^ nat (- shift);
                   c = n div m
               in if n mod m \<noteq> 0 then dec_fix (Dec sign (if c mod 5 = 0 then c + 1 else c) e)
                  else (let (c', e') = dec_strip (nat (ideal - e)) c e in dec_fix (Dec sign c' e'))))"

text \<open>Equality of decimals is equality of values.\<close>

definition dec_eq :: "pydec \<Rightarrow> pydec \<Rightarrow> bool" where
  "dec_eq a b = (let e = min (dexp a) (dexp b) in dec_scaled a e = dec_scaled b e)"

lemma dec_eq_val: "dec_eq a b \<longleftrightarrow> dec_val a = dec_val b"
proof -
  let ?e = "min (dexp a) (dexp b)"
  have "dec_val a = of_int (dec_scaled a ?e) * 10 powi ?e" "dec_val b = of_int (dec_scaled b ?e) * 10 powi ?e"
    by (simp_all add: dec_scaled_val)
  then show ?thesis by (simp add: dec_eq_def Let_def)
qed


section \<open>Contracts\<close>

record occ_contract =
  oc_root :: string
  oc_expiry :: date
  oc_option_type :: char
  oc_strike :: pydec

definition is_upper :: "char \<Rightarrow> bool" where
  "is_upper c \<longleftrightarrow> 65 \<le> (of_char c :: nat) \<and> (of_char c :: nat) \<le> 90"

text \<open>
  The pattern after the root: six digits, one capital, eight digits, and \<open>$\<close>, which also matches in
  front of a final newline.
\<close>

definition match_tail :: "string \<Rightarrow> (string \<times> string \<times> string \<times> char \<times> string) option" where
  "match_tail r =
     (if (length r = 15 \<or> length r = 16 \<and> r ! 15 = CHR 0x0A) \<and> list_all is_digit (take 6 r) \<and>
         is_upper (r ! 6) \<and> list_all is_digit (take 8 (drop 7 r))
      then Some (take 2 r, take 2 (drop 2 r), take 2 (drop 4 r), r ! 6, take 8 (drop 7 r))
      else None)"

definition match_occ :: "string \<Rightarrow> (string \<times> string \<times> string \<times> string \<times> char \<times> string) option" where
  "match_occ s =
     (let try = (\<lambda>rt. if take (length rt) s = rt
                  then map_option (\<lambda>m. (rt, m)) (match_tail (drop (length rt) s)) else None)
      in case try ''SPXW'' of Some m \<Rightarrow> Some m | None \<Rightarrow> try ''SPX'')"

definition parse_occ_symbol :: "string \<Rightarrow> exn + occ_contract" where
  "parse_occ_symbol occ_symbol =
     (case match_occ occ_symbol of
        None \<Rightarrow> Inl ValueError
      | Some (rt, yy, mm, dd, option_type, strike) \<Rightarrow>
          (case mk_date (2000 + read_nat yy) (read_nat mm) (read_nat dd) of
             None \<Rightarrow> Inl ValueError
           | Some expiry \<Rightarrow> Inr \<lparr>oc_root = rt, oc_expiry = expiry, oc_option_type = option_type,
               oc_strike = dec_div (Dec False (read_nat strike) 0) (dec_of_int 1000)\<rparr>))"

definition detect_roll :: "fill_record \<Rightarrow> fill_record \<Rightarrow> exn + bool" where
  "detect_roll closing opening =
     (if fr_order_id closing \<noteq> fr_order_id opening then Inr False
      else if classify_fill (fr_position_effect closing) \<noteq> RoleClose then Inr False
      else if classify_fill (fr_position_effect opening) \<noteq> RoleOpen then Inr False
      else (case parse_occ_symbol (fr_occ_symbol closing) of
              Inl x \<Rightarrow> Inl x
            | Inr cc \<Rightarrow> (case parse_occ_symbol (fr_occ_symbol opening) of
                Inl x \<Rightarrow> Inl x
              | Inr oc \<Rightarrow>
                  if oc_root cc \<noteq> oc_root oc then Inr False
                  else if oc_option_type cc \<noteq> oc_option_type oc then Inr False
                  else if \<not> dec_eq (oc_strike cc) (oc_strike oc) then Inr False
                  else Inr (oc_expiry cc \<noteq> oc_expiry oc))))"


section \<open>The symbol of a contract\<close>

text \<open>\<open>k\<close> decimal digits with leading zeros.\<close>

definition pad :: "nat \<Rightarrow> nat \<Rightarrow> string" where
  "pad k n = (let d = show_nat n in replicate (k - length d) (CHR ''0'') @ d)"

text \<open>The convention the parser inverts: root, YYMMDD, type, strike in thousandths.\<close>

definition occ_text :: "string \<Rightarrow> date \<Rightarrow> char \<Rightarrow> nat \<Rightarrow> string" where
  "occ_text rt d option_type thousandths =
     rt @ pad 2 (d_year d - 2000) @ pad 2 (d_month d) @ pad 2 (d_day d) @ [option_type] @
     pad 8 thousandths"

definition thousandths_strike :: "nat \<Rightarrow> pydec" where
  "thousandths_strike n = dec_div (Dec False n 0) (dec_of_int 1000)"

text \<open>What the parser accepts as a contract of \<open>thousandths\<close>.\<close>

definition occ_ok :: "string \<Rightarrow> date \<Rightarrow> char \<Rightarrow> nat \<Rightarrow> bool" where
  "occ_ok rt d option_type thousandths \<longleftrightarrow> rt \<in> {''SPX'', ''SPXW''} \<and> is_upper option_type \<and>
     2000 \<le> d_year d \<and> d_year d \<le> 2099 \<and> mk_date (d_year d) (d_month d) (d_day d) = Some d \<and>
     thousandths < 10 ^ 8"

lemma length_pad: "n < 10 ^ k \<Longrightarrow> 0 < k \<Longrightarrow> length (pad k n) = k"
  using show_nat_length_le [of n k] by (simp add: pad_def Let_def)

lemma read_pad [simp]: "read_nat (pad k n) = n"
  by (simp add: pad_def Let_def)

lemma digits_pad: "list_all is_digit (pad k n)"
  by (auto simp: pad_def Let_def list_all_iff is_digit_def dest: show_nat_is_digit)

lemma read_nat_inject:
  "length xs = length ys \<Longrightarrow> list_all is_digit xs \<Longrightarrow> list_all is_digit ys \<Longrightarrow>
   read_nat xs = read_nat ys \<Longrightarrow> xs = ys"
proof (induction xs arbitrary: ys rule: rev_induct)
  case (snoc x xs)
  then obtain y ys' where ys: "ys = ys' @ [y]" by (cases ys rule: rev_cases) auto
  with snoc.prems have d: "is_digit x" "is_digit y" by simp_all
  then have "digit_val x < 10" "digit_val y < 10" by (simp_all add: digit_val_less)
  moreover have "10 * read_nat xs + digit_val x = 10 * read_nat ys' + digit_val y"
    using snoc.prems ys by simp
  ultimately have "read_nat xs = read_nat ys'" "digit_val x = digit_val y" by presburger+
  then show ?case using snoc ys d by (metis append_same_eq butlast_snoc digit_char_val length_append_singleton list_all_append nat.inject)
qed simp

lemma pad_read: "list_all is_digit ds \<Longrightarrow> ds \<noteq> [] \<Longrightarrow> pad (length ds) (read_nat ds) = ds"
proof -
  assume a: "list_all is_digit ds" "ds \<noteq> []"
  then have "read_nat ds < 10 ^ length ds" by (intro read_nat_bound) (simp add: list_all_iff)
  with a show ?thesis by (intro read_nat_inject) (simp_all add: length_pad digits_pad)
qed

lemma mk_date_month_day: "mk_date y m d = Some x \<Longrightarrow> m < 10 ^ 2 \<and> d < 10 ^ 2"
  using days_in_month_le [of y m] by (auto simp: mk_date_def split: if_splits)

lemma mk_date_fields: "mk_date y m d = Some x \<Longrightarrow> d_year x = y \<and> d_month x = m \<and> d_day x = d"
  by (auto simp: mk_date_def split: if_splits)

end
