(* ===== verification/Occ_Laws.thy ===== *)
theory Occ_Laws
  imports Occ_Symbol
begin

text \<open>
  The parser of OCC symbols inverts the convention it states, and accepts one text more: the same symbol
  with a newline behind it. The roll guard says what its docstring says.
\<close>

section \<open>Parsing\<close>

lemma match_tail_pads:
  assumes "y < 100" "m < 100" "d < 100" "n < 10 ^ 8" "is_upper c" "nl = [] \<or> nl = [CHR 0x0A]"
  shows "match_tail (pad 2 y @ pad 2 m @ pad 2 d @ [c] @ pad 8 n @ nl) =
    Some (pad 2 y, pad 2 m, pad 2 d, c, pad 8 n)"
proof -
  have l: "length (pad 2 y) = 2" "length (pad 2 m) = 2" "length (pad 2 d) = 2" "length (pad 8 n) = 8"
    using assms by (simp_all add: length_pad)
  then show ?thesis
    using assms(5,6) digits_pad by (auto simp: match_tail_def nth_append)
qed

lemma match_occ_text:
  assumes "occ_ok rt d c n" "nl = [] \<or> nl = [CHR 0x0A]"
  shows "match_occ (occ_text rt d c n @ nl) =
    Some (rt, pad 2 (d_year d - 2000), pad 2 (d_month d), pad 2 (d_day d), c, pad 8 n)"
proof -
  have m: "d_month d < 100 \<and> d_day d < 100" using assms(1) mk_date_month_day by (auto simp: occ_ok_def)
  let ?r = "pad 2 (d_year d - 2000) @ pad 2 (d_month d) @ pad 2 (d_day d) @ [c] @ pad 8 n @ nl"
  have r: "match_tail ?r = Some (pad 2 (d_year d - 2000), pad 2 (d_month d), pad 2 (d_day d), c, pad 8 n)"
    using assms m by (intro match_tail_pads) (auto simp: occ_ok_def)
  have l: "length (pad 2 (d_year d - 2000)) = 2" using assms(1) by (intro length_pad) (auto simp: occ_ok_def)
  have "take 4 (''SPX'' @ ?r) \<noteq> ''SPXW''"
  proof
    assume w: "take 4 (''SPX'' @ ?r) = ''SPXW''"
    obtain a b where ab: "pad 2 (d_year d - 2000) = [a, b]"
      using l by (auto simp: numeral_2_eq_2 length_Suc_conv)
    with w have "a = CHR ''W''" by simp
    moreover have "is_digit a" using digits_pad [of 2 "d_year d - 2000"] ab by simp
    ultimately show False by (simp add: is_digit_def)
  qed
  moreover have "rt = ''SPX'' \<or> rt = ''SPXW''" using assms(1) by (auto simp: occ_ok_def)
  ultimately show ?thesis using r by (auto simp: match_occ_def occ_text_def Let_def)
qed

text \<open>
  C29: The parser inverts the symbol convention. The symbol of a contract (root SPX or SPXW, a date in
  2000 to 2099, a capital letter, a strike below 100000 in thousandths) parses back to that contract.
\<close>

theorem parse_occ_text:
  assumes "occ_ok rt d c n"
  shows "parse_occ_symbol (occ_text rt d c n) =
    Inr \<lparr>oc_root = rt, oc_expiry = d, oc_option_type = c, oc_strike = thousandths_strike n\<rparr>"
proof -
  have "mk_date (2000 + (d_year d - 2000)) (d_month d) (d_day d) = Some d"
    using assms by (auto simp: occ_ok_def)
  then show ?thesis
    using match_occ_text [OF assms, of "[]"] by (simp add: parse_occ_symbol_def thousandths_strike_def)
qed

definition demo_expiry :: date where
  "demo_expiry = \<lparr>d_year = 2026, d_month = 1, d_day = 16\<rparr>"

lemma demo_occ_ok: "occ_ok ''SPXW'' demo_expiry (CHR ''C'') 7425000"
  by (simp add: occ_ok_def demo_expiry_def mk_date_def days_in_month_def is_upper_def)

theorem parse_occ_text_witness:
  "parse_occ_symbol (occ_text ''SPXW'' demo_expiry (CHR ''C'') 7425000) =
    Inr \<lparr>oc_root = ''SPXW'', oc_expiry = demo_expiry, oc_option_type = CHR ''C'',
      oc_strike = thousandths_strike 7425000\<rparr>"
  by (rule parse_occ_text [OF demo_occ_ok])

lemma match_tail_Some:
  assumes "match_tail r = Some (y, m, d, c, k)"
  shows "\<exists>nl. (nl = [] \<or> nl = [CHR 0x0A]) \<and> r = y @ m @ d @ [c] @ k @ nl \<and>
    length y = 2 \<and> length m = 2 \<and> length d = 2 \<and> length k = 8 \<and> is_upper c \<and>
    list_all is_digit y \<and> list_all is_digit m \<and> list_all is_digit d \<and> list_all is_digit k"
proof -
  from assms have l: "length r = 15 \<or> length r = 16 \<and> r ! 15 = CHR 0x0A"
    and dig: "list_all is_digit (take 6 r)" "is_upper (r ! 6)" "list_all is_digit (take 8 (drop 7 r))"
    and eq: "y = take 2 r" "m = take 2 (drop 2 r)" "d = take 2 (drop 4 r)" "c = r ! 6"
      "k = take 8 (drop 7 r)"
    by (auto simp: match_tail_def split: if_splits)
  define nl where "nl = drop 15 r"
  have "r = take 6 r @ drop 6 r" by simp
  also have "take 6 r = y @ m @ d"
    using take_add [of 2 4 r] take_add [of 2 2 "drop 2 r"] by (simp add: eq)
  also have "drop 6 r = c # drop 7 r" using l Cons_nth_drop_Suc [of 6 r] by (auto simp: eq)
  also have "drop 7 r = k @ nl" using append_take_drop_id [of 8 "drop 7 r"] by (simp add: eq nl_def)
  finally have r: "r = y @ m @ d @ [c] @ k @ nl" by simp
  have "nl = [] \<or> nl = [CHR 0x0A]"
  proof (cases "length r = 15")
    case False
    with l have "length r = 16" "r ! 15 = CHR 0x0A" by simp_all
    then have "drop 15 r = [r ! 15]" using Cons_nth_drop_Suc [of 15 r] by simp
    with \<open>r ! 15 = CHR 0x0A\<close> show ?thesis by (simp add: nl_def)
  qed (simp add: nl_def)
  moreover have "list_all is_digit (y @ m @ d)"
    using dig(1) \<open>take 6 r = y @ m @ d\<close> by simp
  moreover have "length y = 2" "length m = 2" "length d = 2" "length k = 8" using l by (auto simp: eq)
  moreover have "is_upper c" "list_all is_digit k" using dig by (simp_all add: eq)
  ultimately show ?thesis using r by auto
qed

text \<open>
  The parser accepts nothing else, but for a final newline. Any text it accepts is the symbol of the
  contract it returns, possibly with one newline character behind it, which the pattern's dollar sign
  lets through although the docstring says a text of another shape is refused.
\<close>

theorem parse_occ_only:
  assumes "parse_occ_symbol s = Inr k"
  shows "\<exists>n nl. (nl = [] \<or> nl = [CHR 0x0A]) \<and>
    s = occ_text (oc_root k) (oc_expiry k) (oc_option_type k) n @ nl \<and>
    occ_ok (oc_root k) (oc_expiry k) (oc_option_type k) n \<and> oc_strike k = thousandths_strike n"
proof -
  from assms obtain rt yy mm dd c st x where m: "match_occ s = Some (rt, yy, mm, dd, c, st)"
    and x: "mk_date (2000 + read_nat yy) (read_nat mm) (read_nat dd) = Some x"
    and k: "k = \<lparr>oc_root = rt, oc_expiry = x, oc_option_type = c, oc_strike = thousandths_strike (read_nat st)\<rparr>"
    by (auto simp: parse_occ_symbol_def thousandths_strike_def split: option.splits prod.splits)
  from m obtain r where rt: "rt = ''SPX'' \<or> rt = ''SPXW''" and s: "s = rt @ r"
    and t: "match_tail r = Some (yy, mm, dd, c, st)"
    unfolding match_occ_def Let_def
    by (auto split: option.splits if_splits) (metis append_take_drop_id)+
  from match_tail_Some [OF t] obtain nl where nl: "nl = [] \<or> nl = [CHR 0x0A]"
    and r: "r = yy @ mm @ dd @ [c] @ st @ nl" and up: "is_upper c"
    and l: "length yy = 2" "length mm = 2" "length dd = 2" "length st = 8"
    and dig: "list_all is_digit yy" "list_all is_digit mm" "list_all is_digit dd" "list_all is_digit st"
    by blast
  have p: "pad 2 (read_nat yy) = yy" "pad 2 (read_nat mm) = mm" "pad 2 (read_nat dd) = dd"
    "pad 8 (read_nat st) = st"
    using pad_read [OF dig(1)] pad_read [OF dig(2)] pad_read [OF dig(3)] pad_read [OF dig(4)] l by fastforce+
  from mk_date_fields [OF x] have f: "d_year x = 2000 + read_nat yy" "d_month x = read_nat mm"
    "d_day x = read_nat dd" by simp_all
  have b: "read_nat yy < 10 ^ 2" "read_nat st < 10 ^ 8"
    using read_nat_bound [of yy] read_nat_bound [of st] dig l by (simp_all add: list_all_iff)
  have "s = occ_text rt x c (read_nat st) @ nl"
    by (simp add: occ_text_def s r f p)
  moreover have "occ_ok rt x c (read_nat st)"
    using rt up x f b by (auto simp: occ_ok_def)
  ultimately show ?thesis using nl by (auto simp: k)
qed

theorem parse_occ_only_witness:
  "\<exists>n nl. occ_text ''SPXW'' demo_expiry (CHR ''C'') 7425000 @ [CHR 0x0A] =
     occ_text ''SPXW'' demo_expiry (CHR ''C'') n @ nl \<and> nl = [CHR 0x0A]"
proof -
  let ?s = "occ_text ''SPXW'' demo_expiry (CHR ''C'') 7425000 @ [CHR 0x0A]"
  have "mk_date (2000 + (d_year demo_expiry - 2000)) (d_month demo_expiry) (d_day demo_expiry) = Some demo_expiry"
    using demo_occ_ok by (auto simp: occ_ok_def)
  then have "parse_occ_symbol ?s = Inr \<lparr>oc_root = ''SPXW'', oc_expiry = demo_expiry,
      oc_option_type = CHR ''C'', oc_strike = thousandths_strike 7425000\<rparr>"
    using match_occ_text [OF demo_occ_ok, of "[CHR 0x0A]"]
    by (simp add: parse_occ_symbol_def thousandths_strike_def)
  from parse_occ_only [OF this] show ?thesis by auto
qed



section \<open>Strikes and rolls\<close>

lemma dec_strip_shift: "dec_strip (a + b) (c * 10 ^ a) e = dec_strip b c (e + int a)"
proof (induction a arbitrary: e)
  case (Suc a)
  have "c * 10 ^ Suc a mod 10 = 0" "c * 10 ^ Suc a div 10 = c * 10 ^ a" by simp_all
  then have "dec_strip (Suc a + b) (c * 10 ^ Suc a) e = dec_strip (a + b) (c * 10 ^ a) (e + 1)"
    by (simp del: power_Suc)
  with Suc [of "e + 1"] show ?case by (simp add: algebra_simps)
qed simp

lemma dec_strip_val:
  "dec_strip k c e = (c', e') \<Longrightarrow> (of_nat c' :: rat) * 10 powi e' = of_nat c * 10 powi e \<and> c' \<le> c"
proof (induction k c e rule: dec_strip.induct)
  case (2 n c e)
  show ?case
  proof (cases "c mod 10 = 0")
    case True
    with 2 have ih: "(of_nat c' :: rat) * 10 powi e' = of_nat (c div 10) * 10 powi (e + 1) \<and> c' \<le> c div 10"
      by simp
    obtain m where "c = 10 * m" using True by auto
    with ih show ?thesis by (auto simp: power_int_add)
  qed (use 2 in simp)
qed simp

lemma show_nat_1000: "length (show_nat 1000) = 4"
  by (simp add: show_nat.simps)

lemma thousandths_strike_strip:
  assumes "0 < n" "n < 10 ^ 8"
  shows "thousandths_strike n = (let (c, e) = dec_strip 3 n (-3) in Dec False c e)"
proof -
  define l where "l = length (show_nat n)"
  have l: "l \<le> 8" using show_nat_length_le [OF assms(2)] by (simp add: l_def)
  define k where "k = 30 - l"
  have li: "int (length (show_nat n)) = 30 - int k" using l by (simp add: k_def l_def [symmetric])
  have nats: "nat (int k + 3) = k + 3" "nat (- 3 - int k) = 0" by simp_all
  have ten: "n * 10 ^ (k + 3) div 1000 = n * 10 ^ k" "n * 10 ^ (k + 3) mod 1000 = 0"
    by (simp_all add: power_add)
  obtain c e where ce: "dec_strip 3 n (-3) = (c, e)" by fastforce
  have strip: "dec_strip (k + 3) (n * 10 ^ k) (- int (k + 3)) = (c, e)"
    using dec_strip_shift [of k 3 n "- int (k + 3)"] ce by simp
  have "c < 10 ^ dec_prec" using dec_strip_val [OF ce] assms(2) by (simp add: dec_prec_def)
  moreover have "thousandths_strike n = dec_fix (Dec False c e)"
    using assms(1) strip
    by (simp add: thousandths_strike_def dec_div_def dec_of_int_def Let_def dec_prec_def show_nat_1000
        li nats ten algebra_simps)
  ultimately show ?thesis by (simp add: dec_fix_id ce)
qed

lemma thousandths_strike_val:
  assumes "n < 10 ^ 8"
  shows "dec_val (thousandths_strike n) = of_nat n / 1000"
proof (cases "n = 0")
  case True
  then show ?thesis by (simp add: thousandths_strike_def dec_div_def dec_of_int_def dec_fix_id dec_val_def dec_prec_def)
next
  case False
  obtain c e where ce: "dec_strip 3 n (-3) = (c, e)" by fastforce
  with False assms have "thousandths_strike n = Dec False c e"
    by (simp add: thousandths_strike_strip)
  with dec_strip_val [OF ce] show ?thesis by (simp add: dec_val_def power_int_minus field_simps)
qed

text \<open>
  The roll guard. Two fills are called a roll exactly when they share the order, the first closes and
  the second opens, and their contracts agree in root, option type and strike and differ in expiry. In
  particular the real order that closes a 7425 and opens a 7475 strike is none.
\<close>

theorem detect_roll_exact:
  assumes "occ_ok r1 d1 c1 n1" "occ_ok r2 d2 c2 n2"
    and "fr_occ_symbol closing = occ_text r1 d1 c1 n1" "fr_occ_symbol opening = occ_text r2 d2 c2 n2"
  shows "detect_roll closing opening =
    Inr (fr_order_id closing = fr_order_id opening \<and>
      fr_position_effect closing = ''CLOSING'' \<and> fr_position_effect opening = ''OPENING'' \<and>
      r1 = r2 \<and> c1 = c2 \<and> n1 = n2 \<and> d1 \<noteq> d2)"
proof -
  have "dec_eq (thousandths_strike n1) (thousandths_strike n2) \<longleftrightarrow> n1 = n2"
    using assms(1,2) by (simp add: dec_eq_val thousandths_strike_val occ_ok_def)
  moreover have "parse_occ_symbol (occ_text rt d c n) =
      Inr \<lparr>oc_root = rt, oc_expiry = d, oc_option_type = c, oc_strike = thousandths_strike n\<rparr>"
    if "occ_ok rt d c n" for rt d c n
  proof -
    have "mk_date (2000 + (d_year d - 2000)) (d_month d) (d_day d) = Some d"
      using that by (auto simp: occ_ok_def)
    then show ?thesis
      using match_occ_text [OF that, of "[]"] by (simp add: parse_occ_symbol_def thousandths_strike_def)
  qed
  ultimately show ?thesis
    using assms by (auto simp: detect_roll_def classify_fill_def)
qed

definition demo_roll_fill :: "string \<Rightarrow> nat \<Rightarrow> date \<Rightarrow> fill_record" where
  "demo_roll_fill effect n d = \<lparr>fr_user_id = 7, fr_order_id = ''1006797510202'',
     fr_occ_symbol = occ_text ''SPXW'' d (CHR ''P'') n, fr_leg_index = 0, fr_execution_time = 5,
     fr_position_effect = effect, fr_side = ''BUY'', fr_quantity = None, fr_price_usd = None,
     fr_key_version = 1\<rparr>"

theorem detect_roll_exact_witness:
  "detect_roll (demo_roll_fill ''CLOSING'' 7425000 demo_expiry) (demo_roll_fill ''OPENING'' 7475000 demo_expiry)
     = Inr False \<and>
   detect_roll (demo_roll_fill ''CLOSING'' 7425000 demo_expiry)
     (demo_roll_fill ''OPENING'' 7425000 (demo_expiry\<lparr>d_day := 23\<rparr>)) = Inr True"
proof -
  have ok: "occ_ok ''SPXW'' demo_expiry (CHR ''P'') 7425000" "occ_ok ''SPXW'' demo_expiry (CHR ''P'') 7475000"
    "occ_ok ''SPXW'' (demo_expiry\<lparr>d_day := 23\<rparr>) (CHR ''P'') 7425000"
    by (simp_all add: occ_ok_def demo_expiry_def mk_date_def days_in_month_def is_upper_def)
  have "demo_expiry \<noteq> demo_expiry\<lparr>d_day := 23\<rparr>" by (simp add: demo_expiry_def)
  then show ?thesis
    using detect_roll_exact [OF ok(1,2), of "demo_roll_fill ''CLOSING'' 7425000 demo_expiry"
        "demo_roll_fill ''OPENING'' 7475000 demo_expiry"]
      detect_roll_exact [OF ok(1,3), of "demo_roll_fill ''CLOSING'' 7425000 demo_expiry"
        "demo_roll_fill ''OPENING'' 7425000 (demo_expiry\<lparr>d_day := 23\<rparr>)"]
    by (simp add: demo_roll_fill_def)
qed

end
