(* ===== verification/History.thy ===== *)
theory History
  imports System
begin

text \<open>
  What is once recorded stays. durable is the interface of a fact of the database that survives new rows
  in every table that only grows, and does not look at the tables whose rows come and go; every request,
  job and script keeps such a fact. It is interpreted on a fill that reads back from the ledger, on a raw
  broker transaction that decrypts, on a recorded run and on an entry of the audit trail.
\<close>

locale durable =
  fixes F :: "db \<Rightarrow> bool"
  assumes aside: "F (t_users_update fa d) = F d" "F (t_sessions_update fb d) = F d"
      "F (t_setup_tokens_update fc d) = F d" "F (t_schwab_connections_update fd d) = F d"
      "F (t_procrastinate_jobs_update fe d) = F d"
    and grows: "F d \<Longrightarrow> F (t_audit_log_update (\<lambda>_. t_audit_log d @ [ra]) d)"
      "F d \<Longrightarrow> F (t_fills_update (\<lambda>_. t_fills d @ [rf]) d)"
      "F d \<Longrightarrow> F (t_broker_transactions_update (\<lambda>_. t_broker_transactions d @ [rb]) d)"
      "F d \<Longrightarrow> F (t_sync_runs_update (\<lambda>_. t_sync_runs d @ [rr]) d)"
    and grows_keys: "F d \<Longrightarrow> \<not> list_ex (\<lambda>q. tb_clash user_data_keys_table q k) (t_user_data_keys d) \<Longrightarrow>
      F (t_user_data_keys_update (\<lambda>_. t_user_data_keys d @ [k]) d)"
begin

lemma kept_aside [safe_intros]:
  "safe (views F F) (ins users_table ra)" "safe (views F F) (upd users_table Pa fa)"
  "safe (views F F) (ins sessions_table rb)" "safe (views F F) (del sessions_table Pb)"
  "safe (views F F) (ins setup_tokens_table rc)" "safe (views F F) (del_returning setup_tokens_table Pc)"
  "safe (views F F) (ins_on_conflict_do_update schwab_connections_table rd fd)"
  "safe (views F F) (upd schwab_connections_table Pd fe)"
  by (rule views_ins views_upd views_del views_upsert; simp add: aside)+

lemma kept_grows [safe_intros]:
  "safe (views F F) (ins audit_log_table ra)" "safe (views F F) (ins sync_runs_table rb)"
  "safe (views F F) (ins_on_conflict_do_nothing fills_table rc)"
  "safe (views F F) (ins_on_conflict_do_nothing broker_transactions_table rd)"
  "safe (views F F) (ins user_data_keys_table re)"
  by (rule views_ins views_ins_nothing; simp add: grows grows_keys)+

lemma kept_session [safe_intros]:
  "safe (views F F) commit" "safe (views F F) rollback" "safe (views F F) (defer_async j)"
  "safe (views F F) m \<Longrightarrow> safe (views F F) (fresh_session r m)"
  by (rule views_commit, simp, rule views_rollback, simp, rule safeI, simp add: views_def defer_async_def aside,
      rule views_fresh_session, simp_all)

lemma kept_reads [safe_intros]:
  "safe (views F F) (unwrap_dek e w n k)" "safe (views F F) (wrap_dek e p k)" "safe (views F F) (generate_dek e)"
  "safe (views F F) (current_dek e u)" "safe (views F F) (decrypt_field e c n k ad)"
  "safe (views F F) (encrypt_field e p k ad)" "safe (views F F) (dek_for_version e x u v)"
  "safe (views F F) (get_current_user e cookie now)"
  unfolding unwrap_dek_def wrap_dek_def generate_dek_def current_dek_def decrypt_field_def encrypt_field_def
    dek_for_version_def get_current_user_def
  by (intro safe_intros)+

lemma kept_tokens [safe_intros]:
  "safe (views F F) (issue_token e u p ttl now)" "safe (views F F) (consume_token e raw p now)"
  "safe (views F F) (get_current_admin e cookie now)" "safe (views F F) (open_audited_read e reader subject)"
  "safe (views F F) (get_user_for_management ar)" "safe (views F F) (provision_data_key e u)"
  "safe (views F F) m \<Longrightarrow> safe (views F F) (refused_as code detail m)"
  unfolding issue_token_def consume_token_def get_current_admin_def open_audited_read_def get_user_for_management_def
    provision_data_key_def refused_as_def
  by (intro safe_intros; assumption)+

lemma kept_account_routes [safe_intros]:
  "safe (views F F) (create_user e cookie now later username)"
  "safe (views F F) (reset_password e cookie now later user_id)"
  "safe (views F F) (setup_account e now later token password)"
  "safe (views F F) (login e dummy now username password)" "safe (views F F) (logout e cookie now)"
  "safe (views F F) (me e cookie now)" "safe (views F F) (list_positions e cookie now)"
  "safe (views F F) (get_position e cookie now i)"
  unfolding create_user_def reset_password_def setup_account_def login_def reject_login_def logout_def me_def
    list_positions_def get_position_def
  by (intro safe_intros)+

lemma kept_writes [safe_intros]:
  "safe (views F F) (insert_fills e u fws)" "safe (views F F) (insert_broker_transactions e u ws)"
  "safe (views F F) (upsert_connection e u et ah)" "safe (views F F) (read_connection e u)"
  "safe (views F F) (persist_token e u h)"
  unfolding insert_fills_def insert_fills_chunked_def insert_fill_chunk_def fill_values_def encrypt_amount_def
    fill_init_def insert_broker_transactions_def insert_broker_chunk_def broker_values_def
    broker_transaction_init_def broker_current_dek_eq upsert_connection_def connection_values_def
    connection_current_dek_eq read_connection_def persist_token_def Let_def
  by (intro safe_intros)+

lemma kept_runs [safe_intros]:
  "safe (views F F) (read_sync_runs u n)" "safe (views F F) (record_sync_run e u a b t v f g x)"
  "safe (views F F) (parse_uuid s)"
proof -
  have "safe (views F F) (sync_run_record_of r)" for r
    by (auto simp: sync_run_record_of_def intro: safe_intros split: option.split)
  then show "safe (views F F) (read_sync_runs u n)" unfolding read_sync_runs_def by (intro safe_intros)
  show "safe (views F F) (record_sync_run e u a b t v f g x)" "safe (views F F) (parse_uuid s)"
    unfolding record_sync_run_def parse_uuid_def by (intro safe_intros)+
qed

lemma kept_windows [safe_intros]: "safe (views F F) (sync_all_windows e auth u ah n ws acc)"
  by (induction ws arbitrary: n acc) (auto simp: sync_window_def Let_def intro!: safe_intros)

lemma kept_sync [safe_intros]: "safe (views F F) (sync_user e st auth u now)"
  "safe (views F F) (record_failure e r s t a b x)"
  unfolding sync_user_def schwab_client_for_user_def record_failure_def Let_def by (intro safe_intros)+

lemma kept_broker_routes [safe_intros]:
  "safe (views F F) (connect e st lib cookie now later)" "safe (views F F) (connection e cookie now later)"
  "safe (views F F) (sync e st cookie now later)" "safe (views F F) (sync_runs e cookie now)"
  "safe (views F F) (callback e st lib now url state)"
proof -
  have "safe (views F F) (case entries of [entry] \<Rightarrow> upsert_connection e u et (an_hash_value entry)
      | _ \<Rightarrow> raise (HTTPException 409 ''Conflict''))" for entries u et
    by (auto intro!: safe_intros split: list.split)
  then show "safe (views F F) (callback e st lib now url state)"
    unfolding callback_def store_callback_def by (intro safe_intros)
qed (unfold connect_def connection_def sync_def sync_runs_def defer_manual_sync_def Let_def, (intro safe_intros)+)

lemma kept_create_admin: "safe (views F F) (create_admin e now username)"
  unfolding create_admin_def by (intro safe_intros)

text \<open>Requests, jobs and the bootstrap on what is committed.\<close>

lemma kept_with_session: "F (sv_db sv) \<Longrightarrow> safe (views F F) m \<Longrightarrow> F (sv_db (snd (with_session r m sv)))"
  by (rule with_session_views)

lemma kept_sync_task:
  assumes "F (sv_db sv)"
  shows "F (sv_db (snd (sync_user_task e st auth maker u trigger a b sv)))"
  using assms unfolding sync_user_task_def
  by (auto split: option.split intro!: kept_with_session) (intro safe_intros)

lemma kept_fan_out:
  assumes "F (sv_db sv)"
  shows "F (sv_db (snd (sync_all_connected_users_task sv)))"
  unfolding sync_all_connected_users_task_def sync_all_connected_users_def Let_def
  by (rule kept_with_session [OF assms]) (intro safe_intros)

lemma kept_bootstrap:
  assumes "F (sv_db sv)"
  shows "F (sv_db (snd (create_admin_script e now argv sv)))"
proof -
  have "F (sv_db sv')" if "with_session Superuser (create_admin e now username) sv = (x, sv')" for username x sv'
    using kept_with_session [OF assms kept_create_admin, of Superuser e now username] by (simp add: that)
  with assms show ?thesis
    by (auto simp: create_admin_script_def split: list.split prod.split sum.split option.split)
qed

end

text \<open>A fact about one user, which another user's deletion leaves alone.\<close>

locale durable_of = durable F for F :: "db \<Rightarrow> bool" +
  fixes u :: uuid
  assumes aside_positions: "F (t_positions_update fa d) = F d" "F (t_legs_update fb d) = F d" "F (t_events_update fc d) = F d"
    and shrinks: "F d \<Longrightarrow> (\<And>r. ka r \<Longrightarrow> dk_user_id r \<noteq> u) \<Longrightarrow>
        F (t_user_data_keys_update (\<lambda>_. filter (\<lambda>r. \<not> ka r) (t_user_data_keys d)) d)"
      "F d \<Longrightarrow> (\<And>r. kb r \<Longrightarrow> f_user_id r \<noteq> u) \<Longrightarrow> F (t_fills_update (\<lambda>_. filter (\<lambda>r. \<not> kb r) (t_fills d)) d)"
      "F d \<Longrightarrow> (\<And>r. kc r \<Longrightarrow> b_user_id r \<noteq> u) \<Longrightarrow>
        F (t_broker_transactions_update (\<lambda>_. filter (\<lambda>r. \<not> kc r) (t_broker_transactions d)) d)"
      "F d \<Longrightarrow> (\<And>r. kd r \<Longrightarrow> r_user_id r \<noteq> u) \<Longrightarrow> F (t_sync_runs_update (\<lambda>_. filter (\<lambda>r. \<not> kd r) (t_sync_runs d)) d)"
begin

lemma kept_erased:
  assumes "F d" "v \<noteq> u"
  shows "F (erased v d)"
proof -
  let ?d1 = "t_user_data_keys_update (\<lambda>_. filter (\<lambda>r. \<not> dk_user_id r = v) (t_user_data_keys d)) d"
  let ?d2 = "t_fills_update (\<lambda>_. filter (\<lambda>r. \<not> f_user_id r = v) (t_fills ?d1)) ?d1"
  let ?d3 = "t_broker_transactions_update (\<lambda>_. filter (\<lambda>r. \<not> b_user_id r = v) (t_broker_transactions ?d2)) ?d2"
  let ?d4 = "t_sync_runs_update (\<lambda>_. filter (\<lambda>r. \<not> r_user_id r = v) (t_sync_runs ?d3)) ?d3"
  have "F ?d1" using assms by (intro shrinks(1)) auto
  then have "F ?d2" using assms(2) by (intro shrinks(2)) auto
  then have "F ?d3" using assms(2) by (intro shrinks(3)) auto
  then have "F ?d4" using assms(2) by (intro shrinks(4)) auto
  moreover have "erased v d = t_users_update (filter (\<lambda>r. u_id r \<noteq> v))
      (t_schwab_connections_update (filter (\<lambda>r. c_user_id r \<noteq> v)) (t_setup_tokens_update (filter (\<lambda>r. st_user_id r \<noteq> v))
      (t_sessions_update (filter (\<lambda>r. ss_user_id r \<noteq> v)) (t_positions_update (filter (\<lambda>r. p_user_id r \<noteq> v))
      (t_legs_update (filter (\<lambda>r. l_user_id r \<noteq> v)) (t_events_update (filter (\<lambda>r. e_user_id r \<noteq> v)) ?d4))))))"
    by (simp add: erased_def without_rows_def)
  ultimately show ?thesis by (simp only: aside aside_positions)
qed

lemma kept_delete_me:
  assumes "intact e (sv_db sv)" "F (sv_db sv)" "has_user (sv_db (snd (with_session App (delete_me e' cookie now) sv))) u"
  shows "F (sv_db (snd (with_session App (delete_me e' cookie now) sv)))"
  using delete_me_effect [OF assms(1), of e' cookie now]
proof (elim disjE exE conjE)
  fix v
  assume e: "sv_db (snd (with_session App (delete_me e' cookie now) sv)) = erased v (sv_db sv)"
  have "\<not> has_user (erased v (sv_db sv)) v" by (simp add: erased_def has_user_def list_ex_iff)
  with assms(3) e have "v \<noteq> u" by auto
  with kept_erased [OF assms(2)] e show ?thesis by simp
qed (use assms(2) in simp)

text \<open>Every way in; what a rotation does is left to the fact.\<close>

lemma kept_step:
  assumes "step e y y'" "system_ok e y" "has_user (sv_db (sy_server y')) u" "F (sv_db (sy_server y))"
    "\<And>n old. rotate_run (env_of e y) old (sy_kek y') (sy_server y) = (Inr n, sy_server y') \<Longrightarrow> G"
    "sy_kek y' = sy_kek y \<Longrightarrow> F (sv_db (sy_server y')) \<Longrightarrow> G"
  shows G
  using assms(1)
proof cases
  case (account_deletion cookie now)
  have "F (sv_db (sy_server y'))"
    using account_deletion assms(2-4) kept_delete_me [of "env_of e y" "sy_server y"]
    by (simp add: system_ok_def served_def)
  with assms(6) account_deletion show ?thesis by (simp add: served_def)
next
  case (sync_job st auth maker user_id trigger started_at finished_at)
  with kept_sync_task assms(4,6) show ?thesis by (simp add: on_server_def)
next
  case fan_out
  with kept_fan_out assms(4,6) show ?thesis by (simp add: on_server_def)
next
  case (bootstrap now argv)
  with kept_bootstrap assms(4,6) show ?thesis by (simp add: on_server_def)
next
  case (rotation old_key new_key n sv kek)
  from rotation(2,3) obtain old where "rotate_run (env_of e y) old kek (sy_server y) = (Inr n, sv)"
    by (rule rotate_main_ok)
  with assms(5) rotation(1) show ?thesis by simp
next
  case (failed_rotation old_key new_key r sv)
  with assms(4,6) rotate_main_fails [OF failed_rotation(2,3)] show ?thesis by simp
qed (rule assms(6); use assms(4) in \<open>auto simp: served_def intro!: kept_with_session safe_intros\<close>)+

end


section \<open>The facts\<close>

text \<open>A fill the ledger reads back, and a raw broker transaction that decrypts.\<close>

definition in_ledger :: "env \<Rightarrow> uuid \<Rightarrow> fill_record \<Rightarrow> db \<Rightarrow> bool" where
  "in_ledger e u rc d \<longleftrightarrow> (\<exists>r \<in> set (t_fills d). f_user_id r = u \<and> opens e d u r rc)"

definition payload_kept :: "env \<Rightarrow> uuid \<Rightarrow> string \<Rightarrow> string \<Rightarrow> db \<Rightarrow> bool" where
  "payload_kept e u activity_id raw d \<longleftrightarrow> (\<exists>r \<in> set (t_broker_transactions d). b_user_id r = u \<and>
     b_activity_id r = activity_id \<and> (\<exists>dek. dek_in e d u (b_key_version r) = Some dek \<and>
       aes_dec e dek (b_raw_nonce r) (b_raw_ciphertext r)
         (Some (broker_transaction_associated_data ''raw_ciphertext'' u activity_id)) = Some raw))"

definition run_recorded :: "sync_run_row \<Rightarrow> db \<Rightarrow> bool" where
  "run_recorded r d \<longleftrightarrow> r \<in> set (t_sync_runs d)"

definition on_trail :: "audit_row \<Rightarrow> db \<Rightarrow> bool" where
  "on_trail a d \<longleftrightarrow> a \<in> set (t_audit_log d)"

lemma dek_in_filtered:
  assumes "\<And>r. hit r \<Longrightarrow> dk_user_id r \<noteq> u"
  shows "dek_in e (t_user_data_keys_update (\<lambda>_. filter (\<lambda>r. \<not> hit r) (t_user_data_keys d)) d) u = dek_in e d u"
proof -
  have "key_rows (t_user_data_keys_update (\<lambda>_. filter (\<lambda>r. \<not> hit r) (t_user_data_keys d)) d) u = key_rows d u"
    unfolding key_rows_def using assms by (auto intro: filter_cong)
  then show ?thesis by (simp add: fun_eq_iff dek_in_def)
qed

lemma dek_in_aside [simp]:
  "dek_in e (t_positions_update ga d) = dek_in e d" "dek_in e (t_legs_update gb d) = dek_in e d"
  "dek_in e (t_events_update gc d) = dek_in e d"
  by (simp_all add: fun_eq_iff dek_in_def key_rows_def)

interpretation ledger: durable_of "in_ledger e u rc" u for e u rc
proof unfold_locales
qed (auto simp: in_ledger_def opens_def dek_in_append dek_in_filtered)

interpretation payloads: durable_of "payload_kept e u i raw" u for e u i raw
proof unfold_locales
qed (auto simp: payload_kept_def dek_in_append dek_in_filtered)

interpretation runs: durable_of "run_recorded r" "r_user_id r" for r
  by unfold_locales (auto simp: run_recorded_def)

interpretation trail: durable_of "on_trail a" u for a u
  by unfold_locales (auto simp: on_trail_def)


text \<open>What a rotation leaves of them.\<close>

lemma rotation_keeps:
  assumes "aead_correct e" "aead_binding e" "system_ok e y" "d = sv_db (sy_server y)" "d' = sv_db (sy_server y')"
    "rotate_run (env_of e y) old (sy_kek y') (sy_server y) = (Inr n, sy_server y')"
  shows "in_ledger (env_of e y) u rc d \<Longrightarrow> in_ledger (env_of e y') u rc d'"
    "payload_kept (env_of e y) u i raw d \<Longrightarrow> payload_kept (env_of e y') u i raw d'"
    "run_recorded r d \<Longrightarrow> run_recorded r d'" "on_trail a d \<Longrightarrow> on_trail a d'"
proof -
  have i: "intact ((env_of e y)\<lparr>master_key_bytes := sy_kek y\<rparr>) (sv_db (sy_server y))"
    using assms(3) by (simp add: system_ok_def env_of_def)
  have c: "aead_correct (env_of e y)" "aead_binding (env_of e y)" using assms(1,2) by simp_all
  have e: "(env_of e y)\<lparr>master_key_bytes := sy_kek y'\<rparr> = env_of e y'" "(env_of e y)\<lparr>master_key_bytes := sy_kek y\<rparr> = env_of e y"
    by (simp_all add: env_of_def)
  obtain ks where d: "d' = t_user_data_keys_update (\<lambda>_. ks) d"
    and dek: "\<And>u v. dek_in (env_of e y') d' u v = dek_in (env_of e y) d u v"
    using rotate_effect [OF c i assms(6)] unfolding e assms(4,5) by metis
  have o: "open_fill (env_of e y') = open_fill (env_of e y)" "aes_dec (env_of e y') = aes_dec (env_of e y)"
    using open_fill_master by (simp_all add: env_of_def)
  show "in_ledger (env_of e y) u rc d \<Longrightarrow> in_ledger (env_of e y') u rc d'"
    "payload_kept (env_of e y) u i raw d \<Longrightarrow> payload_kept (env_of e y') u i raw d'"
    "run_recorded r d \<Longrightarrow> run_recorded r d'" "on_trail a d \<Longrightarrow> on_trail a d'"
    unfolding in_ledger_def payload_kept_def opens_def o dek
    by (simp_all add: d run_recorded_def on_trail_def)
qed

text \<open>
  C1: What is once recorded stays. Take any reachable state and any single step from it: a request, a
  worker job, an operator script or a rotation of the master key, successful or not. For a user who still
  exists afterwards, every fill that read back from the ledger before reads back after it with the same
  content, every raw broker transaction decrypts to the same bytes and every recorded run is still there;
  and no entry of the audit trail is ever lost. Only the deletion of the account itself erases them.
\<close>

theorem history_kept:
  assumes "aead_correct e" "aead_binding e" "reachable e y" "step e y y'"
    "d = sv_db (sy_server y)" "d' = sv_db (sy_server y')" "has_user d' u"
  shows "(in_ledger (env_of e y) u rc d \<longrightarrow> in_ledger (env_of e y') u rc d') \<and>
    (payload_kept (env_of e y) u i raw d \<longrightarrow> payload_kept (env_of e y') u i raw d') \<and>
    (r_user_id r = u \<and> run_recorded r d \<longrightarrow> run_recorded r d') \<and> (on_trail a d \<longrightarrow> on_trail a d')"
proof -
  have ok: "system_ok e y" by (rule reachable_ok [OF assms(1-3)])
  have u: "has_user (sv_db (sy_server y')) u" using assms(6,7) by simp
  note rot = rotation_keeps [OF assms(1,2) ok assms(5,6)]
  have env: "env_of e y' = env_of e y" if "sy_kek y' = sy_kek y" using that by (simp add: env_of_def)
  have "in_ledger (env_of e y') u rc d'" if "in_ledger (env_of e y) u rc d"
    using ledger.kept_step [OF assms(4) ok u that [unfolded assms(5)]] rot(1) [OF _ that] env assms(6) by metis
  moreover have "payload_kept (env_of e y') u i raw d'" if "payload_kept (env_of e y) u i raw d"
    using payloads.kept_step [OF assms(4) ok u that [unfolded assms(5)]] rot(2) [OF _ that] env assms(6) by metis
  moreover have "run_recorded r d'" if "run_recorded r d" "r_user_id r = u"
    using runs.kept_step [OF assms(4) ok _ that(1) [unfolded assms(5)]] that(2) u rot(3) [OF _ that(1)] assms(6) by metis
  moreover have "on_trail a d'" if "on_trail a d"
    using trail.kept_step [OF assms(4) ok u that [unfolded assms(5)]] rot(4) [OF _ that] assms(6) by metis
  ultimately show ?thesis by blast
qed

end
