(* ===== verification/Admin_Promises.thy ===== *)
theory Admin_Promises
  imports Identity_Promises
begin

text \<open>
  The admin routes and the deletion of an account: each commits all of its effects or none of them.
\<close>

section \<open>The admin gate\<close>

definition admin_of :: "env \<Rightarrow> db \<Rightarrow> string \<Rightarrow> datetime \<Rightarrow> user_row option" where
  "admin_of e d token now = (case logged_in e d token now of None \<Rightarrow> None
     | Some u \<Rightarrow> (case user_in d u of None \<Rightarrow> None | Some r \<Rightarrow> if u_is_admin r then Some r else None))"

lemma get_current_admin_in:
  assumes "identity_ok (s_db s)" "live s" "admin_of e (s_db s) token now = Some r"
  shows "get_current_admin e (Some token) now s =
    (Inr \<lparr>au_user_id = u_id r, au_is_admin = True\<rparr>, as_caller r s)"
proof -
  from assms(3) obtain u where u: "logged_in e (s_db s) token now = Some u" "user_in (s_db s) u = Some r" "u_is_admin r"
    by (auto simp: admin_of_def split: option.splits if_splits)
  then have "u_id r = u" using user_in_id [OF assms(1)] by blast
  with u show ?thesis
    by (simp add: get_current_admin_def op_bind_def get_current_user_in [OF assms(1,2)] ret_def)
qed

lemma get_current_admin_not:
  assumes "identity_ok (s_db s)" "live s" "admin_of e (s_db s) token now = None"
  shows "\<exists>code detail t. get_current_admin e (Some token) now s = (Inl (HTTPException code detail), t) \<and>
    s_committed t = s_committed s \<and> s_draws t = s_draws s \<and>
    code = (if logged_in e (s_db s) token now = None then 401 else 404)"
proof (cases "logged_in e (s_db s) token now")
  case None
  then show ?thesis
    using get_current_user_run [of s e "Some token" now] assms(2) identity_okD [OF assms(1)]
    by (simp add: get_current_admin_def op_bind_def)
next
  case (Some u)
  then obtain r where "user_in (s_db s) u = Some r" by (rule logged_in_user [OF assms(1)])
  with Some assms(3) show ?thesis
    by (simp add: get_current_admin_def op_bind_def get_current_user_in [OF assms(1,2)] raise_def admin_of_def
        split: if_splits)
qed

text \<open>
  The admin routes are closed to everyone else. Whoever is not an admin gets \<open>404\<close> from both routes,
  or \<open>401\<close> without a session, and nothing is stored, not even an audit row.
\<close>

theorem admin_routes_closed:
  assumes "identity_ok (sv_db sv)" "admin_of e (sv_db sv) token now = None"
  shows "\<exists>code detail. with_session App (create_user e (Some token) now later name) sv = (Inl (HTTPException code detail), sv) \<and>
    with_session App (reset_password e (Some token) now later target) sv = (Inl (HTTPException code detail), sv) \<and>
    code = (if logged_in e (sv_db sv) token now = None then 401 else 404)"
proof -
  from get_current_admin_not [of "request sv" e token now] assms obtain code detail t where
    "get_current_admin e (Some token) now (request sv) = (Inl (HTTPException code detail), t)"
    "s_committed t = sv_db sv" "s_draws t = sv_draws sv"
    "code = (if logged_in e (sv_db sv) token now = None then 401 else 404)" by auto
  then show ?thesis
    by (intro exI [of _ code] exI [of _ detail]) (simp add: with_request create_user_def reset_password_def op_bind_def)
qed


section \<open>Resetting a password\<close>

lemma refused_run:
  "m s = (Inl IntegrityError, t) \<Longrightarrow>
   refused_as code detail m s = (Inl (HTTPException code detail), end_tx (t\<lparr>s_db := s_committed t\<rparr>))"
  "m s = (Inr x, t) \<Longrightarrow> refused_as code detail m s = (Inr x, t)"
  by (simp_all add: refused_as_def op_catch_def op_seq_def op_bind_def rollback_def raise_def)

text \<open>
  A reset is audited or it does not happen. For an admin, resetting a stored user's password answers a
  token and commits, together, one audit row naming the admin and the target and one reset token of the
  target good for an hour; for an identifier that names no user it answers \<open>404\<close> and commits nothing.
\<close>

theorem reset_password_audited:
  assumes "identity_ok (sv_db sv)" "admin_of e (sv_db sv) token now = Some admin"
    "new_audit_ids e (sv_draws sv) (sv_db sv)" "new_tokens e (sv_draws sv) (sv_db sv)"
  shows "with_session App (reset_password e (Some token) now later target) sv =
    (if has_user (sv_db sv) target
     then (Inr (token_urlsafe (urandom e (Suc (sv_draws sv)) 32)), \<lparr>sv_db =
       t_setup_tokens_update (\<lambda>rs. rs @ [token_row e (Suc (sv_draws sv)) target PasswordReset (later + reset_token_ttl)])
         (t_audit_log_update (\<lambda>rs. rs @ [audit_row_of (gen_uuid e (sv_draws sv)) (u_id admin) target]) (sv_db sv)),
       sv_draws = sv_draws sv + 3\<rparr>)
     else (Inl (HTTPException 404 ''Not Found''), sv\<lparr>sv_draws := Suc (sv_draws sv)\<rparr>))"
proof -
  let ?t = "as_caller admin (request sv)"
  have g: "get_current_admin e (Some token) now (request sv) = (Inr \<lparr>au_user_id = u_id admin, au_is_admin = True\<rparr>, ?t)"
    using get_current_admin_in [of "request sv"] assms(1,2) by simp
  from assms(2) have adm: "u_is_admin admin" "admin \<in> set (t_users (sv_db sv))"
    using user_in_id [OF assms(1)] by (auto simp: admin_of_def split: option.splits if_splits)
  then have ha: "has_user (s_db ?t) (u_id admin)" by (auto simp: has_user_iff)
  have o: "open_audited_read e (u_id admin) target ?t =
    (if has_user (sv_db sv) target
     then (Inr \<lparr>ar_reader_id = u_id admin, ar_subject_id = target, ar_token = FactorySentinel\<rparr>,
       ?t\<lparr>s_draws := Suc (sv_draws sv), s_db := t_audit_log_update
          (\<lambda>rs. rs @ [audit_row_of (gen_uuid e (sv_draws sv)) (u_id admin) target]) (sv_db sv)\<rparr>)
     else (Inl IntegrityError, ?t\<lparr>s_draws := Suc (sv_draws sv), s_aborted := True\<rparr>))"
    using open_audited_read_run [of ?t e "u_id admin" target] ha assms(3) by simp
  show ?thesis
  proof (cases "has_user (sv_db sv) target")
    case False
    with o have "refused_as 404 ''Not Found'' (open_audited_read e (u_id admin) target) ?t =
      (Inl (HTTPException 404 ''Not Found''), end_tx (?t\<lparr>s_draws := Suc (sv_draws sv), s_aborted := True, s_db := sv_db sv\<rparr>))"
      using refused_run(1) [where s = ?t and m = "open_audited_read e (u_id admin) target"] by simp
    with False g show ?thesis by (simp add: with_request reset_password_def op_bind_def end_tx_def)
  next
    case True
    let ?d = "t_audit_log_update (\<lambda>rs. rs @ [audit_row_of (gen_uuid e (sv_draws sv)) (u_id admin) target]) (sv_db sv)"
    let ?u = "?t\<lparr>s_draws := Suc (sv_draws sv), s_db := ?d\<rparr>"
    have r: "refused_as 404 ''Not Found'' (open_audited_read e (u_id admin) target) ?t =
      (Inr \<lparr>ar_reader_id = u_id admin, ar_subject_id = target, ar_token = FactorySentinel\<rparr>, ?u)"
      using o True refused_run(2) [where s = ?t and m = "open_audited_read e (u_id admin) target"] by simp
    obtain tr where tr: "user_in (sv_db sv) target = Some tr"
      using has_user_in True identity_okD(4) [OF assms(1)] by blast
    have a: "as_user (u_id admin) ?u"
      using as_caller_as_user [of "request sv" admin] by (simp add: as_user_def)
    have "filter (\<lambda>r. u_id r = target) (t_users (s_db ?u)) = [tr]" using filter_user [OF tr] by simp
    then have sel: "sel users_table (\<lambda>r. u_id r = target) ?u = (Inr [tr], ?u)"
      using sel_users_as [OF a] adm(1) by simp
    have tid: "u_id tr = target" using user_in_id [OF assms(1) tr] by simp
    have "live ?u" "has_user (s_db ?u) target" "new_tokens e (s_draws ?u) (s_db ?u)"
      using True assms(4) by (simp_all add: has_user_def new_tokens_def)
    note i = issue_token_run [OF this, of PasswordReset reset_token_ttl later]
    have c: "commit (?u\<lparr>s_draws := k, s_db := x\<rparr>) = (Inr (), committed (?u\<lparr>s_draws := k, s_db := x\<rparr>))" for k x
      by (intro commit_live) simp
    have "reset_password e (Some token) now later target (request sv) =
      (Inr (token_urlsafe (urandom e (Suc (sv_draws sv)) 32)), committed (?u\<lparr>s_draws := sv_draws sv + 3, s_db :=
        t_setup_tokens_update (\<lambda>rs. rs @ [token_row e (Suc (sv_draws sv)) target PasswordReset (later + reset_token_ttl)]) ?d\<rparr>))"
      using g r sel i c
      by (simp add: reset_password_def op_bind_def op_seq_def get_user_for_management_def one_or_none_def ret_def tid
          numeral_3_eq_3)
    then show ?thesis by (simp add: with_request True numeral_3_eq_3)
  qed
qed


section \<open>Creating an account\<close>

text \<open>What the schema and fresh entropy give: the identifier drawn next is no stored user's, and every key has its user.\<close>

definition new_users :: "env \<Rightarrow> nat \<Rightarrow> db \<Rightarrow> bool" where
  "new_users e i d \<longleftrightarrow> \<not> has_user d (gen_uuid e i) \<and>
     list_all (\<lambda>r. has_user d (dk_user_id r)) (t_user_data_keys d)"

definition new_user_row :: "uuid \<Rightarrow> string \<Rightarrow> user_row" where
  "new_user_row i name = \<lparr>u_id = i, u_username = name, u_password_hash = None, u_is_admin = False\<rparr>"

definition new_key_row :: "env \<Rightarrow> nat \<Rightarrow> uuid \<Rightarrow> data_key_row" where
  "new_key_row e n u = \<lparr>dk_user_id = u, dk_key_version = 1,
     dk_wrapped_dek = aes_enc e (master_key_bytes e) (urandom e (Suc n) 12) (urandom e n 32) None,
     dk_wrap_nonce = urandom e (Suc n) 12\<rparr>"

text \<open>A new key row under the user's own context, the first of that user.\<close>

lemma provision_data_key_run:
  assumes "as_user u s" "has_user (s_db s) u" "key_rows (s_db s) u = []"
  shows "provision_data_key e u s = (Inr (), s\<lparr>s_draws := s_draws s + 2,
    s_db := t_user_data_keys_update (\<lambda>rs. rs @ [new_key_row e (s_draws s) u]) (s_db s)\<rparr>)"
proof -
  let ?s = "s\<lparr>s_draws := s_draws s + 2\<rparr>"
  let ?row = "new_key_row e (s_draws s) u"
  have a: "as_user u ?s" using assms(1) by simp
  have "\<not> list_ex (\<lambda>q. tb_clash user_data_keys_table q ?row) (tb_rows user_data_keys_table (s_db ?s))"
    using assms(3) by (auto simp: user_data_keys_table_def new_key_row_def list_ex_iff key_rows_def filter_empty_conv)
  moreover have "tb_owner user_data_keys_table ?row = u" "tb_check user_data_keys_table ?row = None"
    "INSERT \<in> set (tb_grants user_data_keys_table)" "tb_parents user_data_keys_table (s_db ?s) ?row"
    using assms(2) by (simp_all add: user_data_keys_table_def new_key_row_def typed_def)
  ultimately have "ins user_data_keys_table ?row ?s = (Inr (), ?s\<lparr>s_db :=
      t_user_data_keys_update (\<lambda>rs. rs @ [?row]) (s_db s)\<rparr>)"
    using keys_tb.ins_as [OF a, of ?row] by (simp add: user_data_keys_table_def)
  then show ?thesis
    by (simp add: provision_data_key_def generate_dek_def wrap_dek_def draw_def op_bind_def ret_def new_key_row_def)
qed

text \<open>The admin's session may write a row of \<open>users\<close> that is not its own.\<close>

lemma ins_user_admin:
  assumes "as_user a s" "s_admin_guc s = Some ''true''" "\<not> has_user (s_db s) i"
  shows "ins users_table (new_user_row i name) s =
    (if user_named (s_db s) name = None
     then (Inr (), s\<lparr>s_db := t_users_update (\<lambda>rs. rs @ [new_user_row i name]) (s_db s)\<rparr>)
     else (Inl IntegrityError, s\<lparr>s_aborted := True\<rparr>))"
proof -
  have "list_ex (\<lambda>q. tb_clash users_table q (new_user_row i name)) (t_users (s_db s)) \<longleftrightarrow>
      user_named (s_db s) name \<noteq> None"
    using assms(3) by (auto simp: users_table_def new_user_row_def has_user_def list_ex_iff user_named_def find_None_iff)
  moreover have "policy_user users_table s = Inr (Some a)" "row_writable users_table s (Some a) (new_user_row i name)"
    using assms(1,2) by (simp_all add: policy_user_def users_table_def as_user_def row_writable_def row_visible_def)
  moreover have "tb_rows users_table = t_users" "INSERT \<in> set (tb_grants users_table)"
    "tb_put users_table xs d = t_users_update (\<lambda>_. xs) d" "tb_check users_table r = None" "tb_parents users_table d r" for xs d r
    by (simp_all add: users_table_def)
  ultimately show ?thesis using assms(1)
    by (simp add: ins_def stmt_def as_user_def insert_row_def db_fail_def)
qed


definition new_account :: "env \<Rightarrow> nat \<Rightarrow> string \<Rightarrow> datetime \<Rightarrow> db \<Rightarrow> db" where
  "new_account e n name later d =
     t_user_data_keys_update (\<lambda>rs. rs @ [new_key_row e (Suc (Suc (Suc n))) (gen_uuid e n)])
     (t_setup_tokens_update (\<lambda>rs. rs @ [token_row e (Suc n) (gen_uuid e n) Setup (later + setup_token_ttl)])
     (t_users_update (\<lambda>rs. rs @ [new_user_row (gen_uuid e n) name]) d))"

lemma create_user_row:
  assumes "as_user a s" "live s" "s_admin_guc s = Some ''true''" "new_users e (s_draws s) (s_db s)"
  shows "refused_as 409 ''Conflict'' (op_bind (draw_uuid e) (\<lambda>i.
       op_seq (ins users_table \<lparr>u_id = i, u_username = name, u_password_hash = None, u_is_admin = False\<rparr>)
       (ret i))) s =
    (if user_named (s_db s) name = None
     then (Inr (gen_uuid e (s_draws s)), s\<lparr>s_draws := Suc (s_draws s),
       s_db := t_users_update (\<lambda>rs. rs @ [new_user_row (gen_uuid e (s_draws s)) name]) (s_db s)\<rparr>)
     else (Inl (HTTPException 409 ''Conflict''), end_tx (s\<lparr>s_draws := Suc (s_draws s), s_aborted := True,
       s_db := s_committed s\<rparr>)))"
proof -
  let ?s = "s\<lparr>s_draws := Suc (s_draws s)\<rparr>"
  let ?m = "op_bind (draw_uuid e) (\<lambda>i. op_seq (ins users_table
    \<lparr>u_id = i, u_username = name, u_password_hash = None, u_is_admin = False\<rparr>) (ret i))"
  have i: "ins users_table (new_user_row (gen_uuid e (s_draws s)) name) ?s =
    (if user_named (s_db s) name = None
     then (Inr (), ?s\<lparr>s_db := t_users_update (\<lambda>rs. rs @ [new_user_row (gen_uuid e (s_draws s)) name]) (s_db s)\<rparr>)
     else (Inl IntegrityError, ?s\<lparr>s_aborted := True\<rparr>))"
    using ins_user_admin [of a ?s] assms by (simp add: new_users_def)
  show ?thesis
  proof (cases "user_named (s_db s) name = None")
    case True
    then have "?m s = (Inr (gen_uuid e (s_draws s)), ?s\<lparr>s_db := t_users_update
        (\<lambda>rs. rs @ [new_user_row (gen_uuid e (s_draws s)) name]) (s_db s)\<rparr>)"
      using i by (simp add: op_bind_def op_seq_def draw_uuid_def ret_def new_user_row_def)
    from refused_run(2) [where m = ?m, OF this] True show ?thesis by simp
  next
    case False
    with i have "ins users_table (new_user_row (gen_uuid e (s_draws s)) name) ?s = (Inl IntegrityError, ?s\<lparr>s_aborted := True\<rparr>)"
      by (simp only: if_False)
    then have "?m s = (Inl IntegrityError, ?s\<lparr>s_aborted := True\<rparr>)"
      by (simp add: op_bind_def op_seq_def draw_uuid_def new_user_row_def)
    from refused_run(1) [where m = ?m, OF this] False show ?thesis by simp
  qed
qed

lemma create_user_law:
  assumes "aead_correct e" "identity_ok (sv_db sv)" "admin_of e (sv_db sv) token now = Some admin"
    "new_users e (sv_draws sv) (sv_db sv)" "new_tokens e (sv_draws sv) (sv_db sv)"
  shows "with_session App (create_user e (Some token) now later name) sv =
    (if user_named (sv_db sv) name = None
     then (Inr (gen_uuid e (sv_draws sv), token_urlsafe (urandom e (Suc (sv_draws sv)) 32)),
       \<lparr>sv_db = new_account e (sv_draws sv) name later (sv_db sv), sv_draws = sv_draws sv + 5\<rparr>)
     else (Inl (HTTPException 409 ''Conflict''), sv\<lparr>sv_draws := Suc (sv_draws sv)\<rparr>)) \<and>
    dek_in e (new_account e (sv_draws sv) name later (sv_db sv)) (gen_uuid e (sv_draws sv)) 1 =
      Some (urandom e (sv_draws sv + 3) 32)"
proof -
  let ?n = "sv_draws sv" and ?d = "sv_db sv"
  let ?i = "gen_uuid e ?n"
  let ?t = "as_caller admin (request sv)"
  have g: "get_current_admin e (Some token) now (request sv) = (Inr \<lparr>au_user_id = u_id admin, au_is_admin = True\<rparr>, ?t)"
    using get_current_admin_in [of "request sv"] assms(2,3) by simp
  from assms(3) have adm: "u_is_admin admin" by (auto simp: admin_of_def split: option.splits if_splits)
  have a: "as_user (u_id admin) ?t" using as_caller_as_user by simp
  have pre: "live ?t" "s_admin_guc ?t = Some ''true''" "new_users e (s_draws ?t) (s_db ?t)" using adm assms(4) by simp_all
  note u = create_user_row [OF a pre, of name, simplified as_caller_simps request_simps]
  have fresh: "\<not> has_user ?d ?i" "list_all (\<lambda>r. has_user ?d (dk_user_id r)) (t_user_data_keys ?d)"
    using assms(4) by (simp_all add: new_users_def)
  have no_key: "filter (\<lambda>r. dk_user_id r = ?i) (t_user_data_keys ?d) = []"
    using fresh by (auto simp: filter_empty_conv list_all_iff)
  have dek: "dek_in e (new_account e ?n name later ?d) ?i 1 = Some (urandom e (?n + 3) 32)"
    by (simp add: dek_in_def key_rows_def new_account_def no_key new_key_row_def unwrapped_def aead_correctD [OF assms(1)]
        numeral_3_eq_3)
  show ?thesis
  proof (cases "user_named ?d name = None")
    case False
    with u have "create_user e (Some token) now later name (request sv) =
        (Inl (HTTPException 409 ''Conflict''), end_tx (?t\<lparr>s_draws := Suc ?n, s_aborted := True, s_db := ?d\<rparr>))"
      using g by (simp add: create_user_def op_bind_def)
    with False dek show ?thesis by (simp add: with_request end_tx_def)
  next
    case True
    let ?d1 = "t_users_update (\<lambda>rs. rs @ [new_user_row ?i name]) ?d"
    let ?s1 = "?t\<lparr>s_draws := Suc ?n, s_db := ?d1\<rparr>"
    have "live ?s1" "has_user (s_db ?s1) ?i" "new_tokens e (s_draws ?s1) (s_db ?s1)"
      using assms(5) by (simp_all add: has_user_def new_user_row_def new_tokens_def)
    note t = issue_token_run [OF this, of Setup setup_token_ttl later]
    let ?d2 = "t_setup_tokens_update (\<lambda>rs. rs @ [token_row e (Suc ?n) ?i Setup (later + setup_token_ttl)]) ?d1"
    let ?s2 = "?s1\<lparr>s_draws := Suc (Suc (Suc ?n)), s_db := ?d2\<rparr>"
    have t2: "issue_token e ?i Setup setup_token_ttl later ?s1 = (Inr (token_urlsafe (urandom e (Suc ?n) 32)), ?s2)"
      using t by simp
    let ?s3 = "?s2\<lparr>s_user_guc := Some (uuid_str ?i)\<rparr>"
    have l2: "live ?s2" by simp
    have c3: "set_current_user (uuid_str ?i) ?s2 = (Inr (), ?s3)" using set_current_user_live [OF l2] by simp
    have a3: "as_user ?i ?s3" using as_user_set [OF l2] by simp
    have k: "key_rows (s_db ?s3) ?i = []" "has_user (s_db ?s3) ?i"
      by (simp_all add: key_rows_def no_key has_user_def new_user_row_def)
    have p: "provision_data_key e ?i ?s3 = (Inr (), ?s3\<lparr>s_draws := ?n + 5, s_db := new_account e ?n name later ?d\<rparr>)"
      using provision_data_key_run [OF a3 k(2,1), of e] by (simp add: new_account_def eval_nat_numeral)
    have l4: "live (?s3\<lparr>s_draws := ?n + 5, s_db := new_account e ?n name later ?d\<rparr>)" by simp
    have "create_user e (Some token) now later name (request sv) =
        (Inr (?i, token_urlsafe (urandom e (Suc ?n) 32)),
         committed (?s3\<lparr>s_draws := ?n + 5, s_db := new_account e ?n name later ?d\<rparr>))"
      using g u True
      by (simp only: create_user_def op_bind_def op_seq_def sum.case prod.case simp_thms if_True t2 c3
          require_rls_context_as [OF a3] p commit_live [OF l4] ret_def)
    with True dek show ?thesis by (simp add: with_request)
  qed
qed


text \<open>
  C36: An account and its key are born together. For an admin, creating a user whose name is free answers
  the new identifier and a setup token and commits, in one transaction, the user without a password, the
  token, and a first data key, wrapped under the master key, that reads as the drawn key for that user alone;
  a taken name is answered \<open>409\<close> and commits nothing.
\<close>

theorem create_user_atomic:
  assumes "aead_correct e" "identity_ok (sv_db sv)" "admin_of e (sv_db sv) token now = Some admin"
    "new_users e (sv_draws sv) (sv_db sv)" "new_tokens e (sv_draws sv) (sv_db sv)"
  shows "with_session App (create_user e (Some token) now later name) sv =
    (if user_named (sv_db sv) name = None
     then (Inr (gen_uuid e (sv_draws sv), token_urlsafe (urandom e (Suc (sv_draws sv)) 32)),
       \<lparr>sv_db = new_account e (sv_draws sv) name later (sv_db sv), sv_draws = sv_draws sv + 5\<rparr>)
     else (Inl (HTTPException 409 ''Conflict''), sv\<lparr>sv_draws := Suc (sv_draws sv)\<rparr>)) \<and>
    dek_in e (new_account e (sv_draws sv) name later (sv_db sv)) (gen_uuid e (sv_draws sv)) 1 =
      Some (urandom e (sv_draws sv + 3) 32)"
  using assms by (rule create_user_law)

section \<open>Deleting an account\<close>

lemma erased_nothing_left:
  "\<not> has_user (erased u d) u" "key_rows (erased u d) u = []" "dek_in e (erased u d) u v = None"
  "user_referenced (erased u d) u \<longleftrightarrow> audited d u"
  by (auto simp: erased_def without_rows_def has_user_def key_rows_def dek_in_def user_referenced_def audited_def
      list_ex_iff)

text \<open>
  C19: Deleting an account takes everything or nothing, and an audited user keeps it all. For a user no
  audit row names, \<open>DELETE /me\<close> commits the database without any row of that user, so that no data key
  of the user is left under any version, and leaves everybody else's rows; for a user the audit trail
  names, as the reader or as the subject of one password reset, the final statement violates the trail's
  foreign key, the whole request is rolled back, and nothing is deleted, the data key included.
\<close>

theorem delete_me_exact:
  assumes "identity_ok (sv_db sv)" "logged_in e (sv_db sv) token now = Some u" "own_positions (sv_db sv) u"
  shows "with_session App (delete_me e (Some token) now) sv =
      (if audited (sv_db sv) u then (Inl IntegrityError, sv) else (Inr (), sv\<lparr>sv_db := erased u (sv_db sv)\<rparr>)) \<and>
    dek_in e (erased u (sv_db sv)) u v = None \<and> others u (erased u (sv_db sv)) = others u (sv_db sv)"
proof -
  obtain r where r: "user_in (sv_db sv) u = Some r" "u_id r = u" by (rule logged_in_user [OF assms(1,2)])
  let ?t = "as_caller r (request sv)"
  have g: "get_current_user e (Some token) now (request sv) = (Inr \<lparr>au_user_id = u, au_is_admin = u_is_admin r\<rparr>, ?t)"
    using get_current_user_in [of "request sv"] assms(1,2) r(1) by simp
  have a: "as_user u ?t" using as_caller_as_user [of "request sv" r] r(2) by simp
  have "has_user (s_db ?t) u" using user_in_id [OF assms(1) r(1)] by (auto simp: has_user_iff)
  from delete_account_run [OF a this] assms(3)
  have d: "delete_account u ?t = (if audited (sv_db sv) u
      then (Inl IntegrityError, ?t\<lparr>s_db := without_rows u (sv_db sv), s_aborted := True\<rparr>)
      else (Inr (), ?t\<lparr>s_db := erased u (sv_db sv)\<rparr>))" by simp
  have "live (?t\<lparr>s_db := x\<rparr>)" for x by simp
  then have c: "commit (?t\<lparr>s_db := x\<rparr>) = (Inr (), committed (?t\<lparr>s_db := x\<rparr>))" for x by (rule commit_live)
  have "others u (erased u (sv_db sv)) = others u (sv_db sv)"
    by (simp add: others_def erased_def without_rows_def)
  with g d c show ?thesis
    by (simp add: with_request delete_me_def op_bind_def op_seq_def erased_nothing_left)
qed

end
