(* ===== verification/Identity_Witnesses.thy ===== *)
theory Identity_Witnesses
  imports Admin_Promises
begin

text \<open>
  A small identity world in which the hypotheses of the account promises hold: a user, an admin, one session
  each, a setup token and a position. The stored hashes end in the padding sign, which no drawn token does.
\<close>

definition id_env :: env where
  "id_env = demo_env\<lparr>gen_uuid := (\<lambda>_. 1000)\<rparr>"

definition id_admin_row :: user_row where
  "id_admin_row = \<lparr>u_id = 9, u_username = ''root'', u_password_hash = None, u_is_admin = True\<rparr>"

definition id_session :: "string \<Rightarrow> uuid \<Rightarrow> session_row" where
  "id_session h u = \<lparr>ss_id = u, ss_token_hash = h, ss_user_id = u, ss_expires_at = 100\<rparr>"

definition id_token :: setup_token_row where
  "id_token = \<lparr>st_id = 1, st_token_hash = ''tk='', st_user_id = 7, st_purpose = ''setup'', st_expires_at = 100\<rparr>"

definition id_position :: position_row where
  "id_position = \<lparr>p_id = 3, p_user_id = 7, p_opened_at = None, p_closed_at = None\<rparr>"

definition id_db :: db where
  "id_db = demo_db\<lparr>t_users := [demo_user_row, id_admin_row],
     t_sessions := [id_session ''ck='' 7, id_session ''ad='' 9], t_setup_tokens := [id_token],
     t_positions := [id_position]\<rparr>"

definition id_server :: server where
  "id_server = \<lparr>sv_db = id_db, sv_draws = 0\<rparr>"

lemmas id_defs = id_db_def demo_db_def empty_db_def demo_user_row_def id_admin_row_def id_session_def id_token_def
  demo_user_def

lemma id_server_simps [simp]: "sv_db id_server = id_db" "sv_draws id_server = 0"
  by (simp_all add: id_server_def)

lemma id_hash [simp]: "hash_token id_env t = t"
  by (simp add: hash_token_def id_env_def demo_env_def)

lemma id_gen_uuid [simp]: "gen_uuid id_env n = 1000"
  by (simp add: id_env_def)

lemma token_not_padded: "token_urlsafe bs \<noteq> xs @ ''=''"
proof
  assume "token_urlsafe bs = xs @ ''=''"
  then have d: "dropWhile (\<lambda>c. c = CHR ''='') (rev (b64_encode url_char bs)) = CHR ''='' # rev xs"
    by (simp add: token_urlsafe_def rev_swap)
  then have "dropWhile (\<lambda>c. c = CHR ''='') (rev (b64_encode url_char bs)) \<noteq> []" by simp
  from hd_dropWhile [OF this] d show False by simp
qed

lemma token_not_demo [simp]:
  "token_urlsafe bs \<noteq> ''ck=''" "token_urlsafe bs \<noteq> ''ad=''" "token_urlsafe bs \<noteq> ''tk=''"
  "''ck='' \<noteq> token_urlsafe bs" "''ad='' \<noteq> token_urlsafe bs" "''tk='' \<noteq> token_urlsafe bs"
  using token_not_padded [of bs "''ck''"] token_not_padded [of bs "''ad''"] token_not_padded [of bs "''tk''"]
  by (auto dest: sym)

lemma id_ok [simp]: "identity_ok id_db"
  by (simp add: identity_ok_def sessions_distinct_def tokens_distinct_def users_ok_def has_user_def id_defs)

lemma id_logged_in [simp]:
  "logged_in id_env id_db ''ck='' 0 = Some 7" "logged_in id_env id_db ''ad='' 0 = Some 9"
  by (simp_all add: logged_in_def id_defs)

lemma id_user [simp]: "user_in id_db 7 = Some demo_user_row" "user_in id_db 9 = Some id_admin_row"
  by (simp_all add: user_in_def id_defs)

lemma id_admin [simp]: "admin_of id_env id_db ''ad='' 0 = Some id_admin_row" "admin_of id_env id_db ''ck='' 0 = None"
  by (simp_all add: admin_of_def) (simp_all add: id_admin_row_def demo_user_row_def)

lemma id_fresh [simp]:
  "new_sessions id_env n id_db" "new_tokens id_env n id_db" "new_audit_ids id_env n id_db" "new_users id_env n id_db"
  by (simp_all add: new_sessions_def new_tokens_def new_audit_ids_def new_users_def has_user_def id_defs
      demo_key_row_def)

lemma id_aead: "aead_correct id_env"
  using demo_aead_correct by (simp add: aead_correct_def id_env_def)

lemma id_argon2: "argon2_correct id_env"
  by (simp add: argon2_correct_def id_env_def demo_env_def)

theorem positions_isolated_witness:
  "with_session App (list_positions id_env (Some ''ck='') 0) id_server = (Inr [position_response_of id_position], id_server) \<and>
   with_session App (get_position id_env (Some ''ad='') 0 3) id_server = (Inl (HTTPException 404 ''not found''), id_server)"
proof -
  have p: "positions_distinct (sv_db id_server)" "t_positions id_db = [id_position]" "p_user_id id_position = 7"
    by (simp_all add: positions_distinct_def id_db_def id_position_def)
  have "identity_ok (sv_db id_server)" by simp
  from positions_isolated [OF this p(1), of id_env "Some ''ck=''" 0]
    positions_isolated [OF this p(1), of id_env "Some ''ad=''" 0 3] p(2,3)
  show ?thesis by simp
qed

theorem login_refused_witness:
  "with_session App (login id_env ''d'' 0 ''ada'' ''no'') id_server =
    (Inl (HTTPException 401 ''invalid credentials''), id_server)"
  by (rule login_refused, simp)
    (simp add: proves_def user_named_def id_defs verify_password_def id_env_def demo_env_def)

theorem setup_then_login_witness:
  "\<exists>sv1 cookie sv2. with_session App (setup_account id_env 0 0 ''tk='' ''correct horse'') id_server = (Inr (), sv1) \<and>
    with_session App (login id_env ''d'' 5 ''ada'' ''correct horse'') sv1 = (Inr cookie, sv2) \<and>
    with_session App (me id_env (Some cookie) 6) sv2 =
      (Inr \<lparr>me_user_id = 7, me_username = ''ada'', me_is_admin = False\<rparr>, sv2)"
proof -
  have "t_setup_tokens id_db = [id_token]" by (simp add: id_db_def)
  then have a: "identity_ok (sv_db id_server)" "12 \<le> code_points ''correct horse''"
    "setup_user id_env (sv_db id_server) ''tk='' 0 0 = Some 7" "user_in (sv_db id_server) 7 = Some demo_user_row"
    "new_sessions id_env (sv_draws id_server) (sv_db id_server)"
    by (simp_all add: code_points_def setup_user_def token_user_def usable_def id_token_def
        token_purpose_value_def)
  have "(6 :: int) < 5 + session_cookie_ttl" by (simp add: session_cookie_ttl_def td_days_def)
  with setup_then_login [OF a(1) id_argon2 a(2-5), of "''d''" 5] show ?thesis
    by (fastforce simp: demo_user_row_def)
qed

theorem logout_revokes_witness:
  "\<exists>sv'. with_session App (logout id_env (Some ''ck='') 0) id_server = (Inr (), sv') \<and>
    with_session App (me id_env (Some ''ck='') 1) sv' = (Inl (HTTPException 401 ''not authenticated''), sv')"
proof -
  have i: "identity_ok (sv_db id_server)" by simp
  have g: "get_current_user id_env (Some ''ck='') 0 (request id_server) =
      (Inr \<lparr>au_user_id = 7, au_is_admin = u_is_admin demo_user_row\<rparr>, as_caller demo_user_row (request id_server))"
    using get_current_user_in [of "request id_server"] by simp
  let ?t = "as_caller demo_user_row (request id_server)"
  have "live ?t" by simp
  note d = sessions_tb.del_live [OF this, of "\<lambda>r. ss_token_hash r = ''ck=''"]
  have "commit (?t\<lparr>s_db := x\<rparr>) = (Inr (), committed (?t\<lparr>s_db := x\<rparr>))" for x by (intro commit_live) simp
  with g d obtain sv' where l: "with_session App (logout id_env (Some ''ck='') 0) id_server = (Inr (), sv')"
    by (simp add: with_request logout_def op_bind_def)
  from logout_revokes [OF i l, of 1] l show ?thesis by blast
qed

theorem admin_routes_closed_witness:
  "\<exists>detail. with_session App (create_user id_env (Some ''ck='') 0 0 ''eve'') id_server =
     (Inl (HTTPException 404 detail), id_server)"
  using admin_routes_closed [of id_server id_env "''ck=''" 0 0 "''eve''" 0] by auto

theorem reset_password_audited_witness:
  "with_session App (reset_password id_env (Some ''ad='') 0 0 8) id_server =
     (Inl (HTTPException 404 ''Not Found''), id_server\<lparr>sv_draws := 1\<rparr>) \<and>
   t_audit_log (sv_db (snd (with_session App (reset_password id_env (Some ''ad='') 0 0 7) id_server))) =
     [audit_row_of 1000 9 7]"
proof -
  have h: "has_user id_db 7" "\<not> has_user id_db 8" "u_id id_admin_row = 9" "t_audit_log id_db = []"
    by (simp_all add: has_user_def id_defs)
  have i: "identity_ok (sv_db id_server)" "admin_of id_env (sv_db id_server) ''ad='' 0 = Some id_admin_row"
    "new_audit_ids id_env (sv_draws id_server) (sv_db id_server)" "new_tokens id_env (sv_draws id_server) (sv_db id_server)" by simp_all
  from reset_password_audited [OF i, of 0 7] reset_password_audited [OF i, of 0 8] h show ?thesis by simp
qed

theorem create_user_atomic_witness:
  "with_session App (create_user id_env (Some ''ad='') 0 0 ''ada'') id_server =
     (Inl (HTTPException 409 ''Conflict''), id_server\<lparr>sv_draws := 1\<rparr>) \<and>
   fst (with_session App (create_user id_env (Some ''ad='') 0 0 ''eve'') id_server) =
     Inr (1000, token_urlsafe (urandom id_env 1 32))"
proof -
  have n: "user_named id_db ''ada'' = Some demo_user_row" "user_named id_db ''eve'' = None"
    by (simp_all add: user_named_def id_defs)
  have i: "identity_ok (sv_db id_server)" "admin_of id_env (sv_db id_server) ''ad='' 0 = Some id_admin_row"
    "new_users id_env (sv_draws id_server) (sv_db id_server)" "new_tokens id_env (sv_draws id_server) (sv_db id_server)" by simp_all
  from create_user_atomic [OF id_aead i, of 0 "''ada''"] create_user_atomic [OF id_aead i, of 0 "''eve''"] n
  show ?thesis by simp
qed

theorem delete_me_exact_witness:
  "with_session App (delete_me id_env (Some ''ck='') 0) id_server = (Inr (), id_server\<lparr>sv_db := erased 7 id_db\<rparr>) \<and>
   with_session App (delete_me id_env (Some ''ck='') 0)
     (id_server\<lparr>sv_db := id_db\<lparr>t_audit_log := [audit_row_of 1 9 7]\<rparr>\<rparr>) =
     (Inl IntegrityError, id_server\<lparr>sv_db := id_db\<lparr>t_audit_log := [audit_row_of 1 9 7]\<rparr>\<rparr>)"
proof -
  let ?d = "id_db\<lparr>t_audit_log := [audit_row_of 1 9 7]\<rparr>"
  have "identity_ok ?d" "logged_in id_env ?d ''ck='' 0 = Some 7" "own_positions ?d 7" "own_positions id_db 7"
    "audited ?d 7" "\<not> audited id_db 7"
    using id_ok id_logged_in(1)
    by (simp_all add: identity_ok_def sessions_distinct_def tokens_distinct_def users_ok_def has_user_def logged_in_def
        own_positions_def audited_def audit_row_of_def id_defs)
  then show ?thesis
    using delete_me_exact [of id_server id_env "''ck=''" 0 7] delete_me_exact [of "id_server\<lparr>sv_db := ?d\<rparr>" id_env "''ck=''" 0 7]
    by simp
qed

end
