(* ===== verification/Connection_Witnesses.thy ===== *)
theory Connection_Witnesses
  imports Connection_Promises Identity_Witnesses Sync_Promises
begin

text \<open>The broker promises in the small identity world, with the vendor of the ingest witnesses.\<close>

definition id_settings :: settings where
  "id_settings = default_settings\<lparr>schwab_api_key := Some ''k'', schwab_app_secret := Some ''s'',
     schwab_callback_url := Some ''u''\<rparr>"

lemma id_schwab_auth [simp]: "get_schwab_auth id_settings (demo_lib JNull) = Inr (demo_auth JNull)"
  by (simp add: get_schwab_auth_def schwab_credentials_of_def id_settings_def demo_auth_def)

definition id_oauth_server :: server where
  "id_oauth_server = id_server\<lparr>sv_db := id_db\<lparr>t_setup_tokens := [id_token\<lparr>st_purpose := ''oauth_state''\<rparr>]\<rparr>\<rparr>"

theorem callback_isolated_witness:
  "token_user id_env (sv_db (snd (with_session App (callback id_env id_settings (demo_lib JNull) 0 ''url'' ''tk='') id_oauth_server)))
     ''tk='' OauthState 0 = None \<and>
   token_user id_env (sv_db id_oauth_server) ''tk='' OauthState 0 = Some 7"
proof -
  obtain x sv' where c: "with_session App (callback id_env id_settings (demo_lib JNull) 0 ''url'' ''tk='') id_oauth_server = (x, sv')"
    by fastforce
  have t: "token_user id_env (sv_db id_oauth_server) ''tk='' OauthState 0 = Some 7"
    by (simp add: id_oauth_server_def token_user_def usable_def token_purpose_value_def) (simp add: id_token_def)
  have "identity_ok (sv_db id_oauth_server)"
    using id_ok by (simp add: id_oauth_server_def identity_ok_def sessions_distinct_def tokens_distinct_def users_ok_def
        has_user_def) (simp add: id_defs)
  from callback_isolated [OF this id_schwab_auth c, of OauthState 0] t c show ?thesis by simp
qed

lemma id_keys [simp]: "keys_distinct id_db" "key_rows id_db 7 = [demo_key_row]" "unwrapped id_env demo_key_row = Some demo_dek"
  "conn_of id_db 7 = []" "t_sync_runs id_db = []" "t_schwab_connections id_db = []"
  using demo_keys_distinct demo_key_rows demo_unwrapped
  by (simp_all add: id_db_def keys_distinct_def key_rows_def unwrapped_def id_env_def demo_user_def conn_of_def)
    (simp_all add: demo_db_def empty_db_def)

lemma id_exchange: "exchange_callback id_env (demo_auth JNull) url raw = Inr \<lparr>et_token = JStr ''tok'', et_created_at = 5000000\<rparr>"
  by (simp add: exchange_callback_def demo_auth_def demo_lib_def wrapped_token_of_def id_env_def demo_env_def
      from_timestamp_def td_seconds_def)

lemma id_accounts: "get_account_numbers (demo_auth JNull) = Inr [\<lparr>an_account_number = ''1'', an_hash_value = ''hash''\<rparr>]"
  by (simp add: get_account_numbers_def demo_auth_def demo_lib_def response_json_def account_number_entry_of_def
      as_list_def as_str_def)

theorem connect_then_callback_witness:
  "\<exists>sv1 sv2 row c. with_session App (connect id_env id_settings (demo_lib JNull) (Some ''ck='') 0 0) id_server =
      (Inr (build_authorize_url (demo_auth JNull) (token_urlsafe (urandom id_env 0 32))), sv1) \<and>
    with_session App (callback id_env id_settings (demo_lib JNull) 9 ''url'' (token_urlsafe (urandom id_env 0 32))) sv1 =
      (Inr (), sv2) \<and>
    conn_of (sv_db sv2) 7 = [row] \<and> open_connection id_env (sv_db sv2) row = Some c \<and>
    cr_token c = JStr ''tok'' \<and> cr_account_hash c = ''hash'' \<and>
    with_session App (connection id_env (Some ''ck='') 0 9) sv2 =
      (Inr \<lparr>cn_health = connection_health_value (fst (derive_connection_health 5000000 9)),
         cn_expires_at = snd (derive_connection_health 5000000 9), cn_last_synced_at = None, cn_reauth_notified_at = None\<rparr>, sv2)"
proof -
  let ?et = "\<lparr>et_token = JStr ''tok'', et_created_at = 5000000\<rparr>"
  have v: "validate_json id_env (json_dumps (et_token ?et)) = Some (et_token ?et)"
    using demo_validate(1) by (simp add: id_env_def del: json_dumps.simps)
  have b: "(9 :: int) < 0 + oauth_state_ttl" by (simp add: oauth_state_ttl_def td_days_def)
  have h: "identity_ok (sv_db id_server)" "logged_in id_env (sv_db id_server) ''ck='' 0 = Some 7"
    "new_tokens id_env (sv_draws id_server) (sv_db id_server)" "keys_distinct (sv_db id_server)"
    "key_rows (sv_db id_server) 7 = [demo_key_row]" "int2 (dk_key_version demo_key_row)"
    "length (conn_of (sv_db id_server) 7) \<le> 1"
    "token_urlsafe (urandom id_env 0 32) = token_urlsafe (urandom id_env (sv_draws id_server) 32)" by simp_all
  from connect_then_callback [OF id_aead h(1,2) id_schwab_auth h(3,4,5) id_keys(3) h(6,7,8) b id_exchange id_accounts v h(2), where seen = 9]
  show ?thesis by fastforce
qed

definition id_conn_server :: server where
  "id_conn_server = id_server\<lparr>sv_db := id_db\<lparr>t_schwab_connections := [demo_conn_row]\<rparr>\<rparr>"

lemma id_conn [simp]:
  "identity_ok (sv_db id_conn_server)" "logged_in id_env (sv_db id_conn_server) ''ck='' 0 = Some 7"
  "conn_of (sv_db id_conn_server) 7 = [demo_conn_row]" "own_runs (sv_db id_conn_server) 7 = []"
  "open_connection id_env (sv_db id_conn_server) demo_conn_row = Some demo_connection"
proof -
  show "identity_ok (sv_db id_conn_server)" "logged_in id_env (sv_db id_conn_server) ''ck='' 0 = Some 7"
    using id_ok id_logged_in(1)
    by (simp_all add: id_conn_server_def identity_ok_def sessions_distinct_def tokens_distinct_def users_ok_def
        has_user_def logged_in_def)
  show "conn_of (sv_db id_conn_server) 7 = [demo_conn_row]" "own_runs (sv_db id_conn_server) 7 = []"
    by (simp_all add: id_conn_server_def conn_of_def own_runs_def demo_conn_row_def demo_user_def)
  have env: "aes_dec id_env = aes_dec demo_env" "validate_json id_env = validate_json demo_env"
    by (simp_all add: id_env_def)
  have "unwrapped id_env = unwrapped demo_env" by (simp add: unwrapped_def id_env_def fun_eq_iff)
  then have dek: "dek_in id_env (sv_db id_conn_server) u v = dek_in demo_env demo_conn_db u v" for u v
    by (simp add: dek_in_def key_rows_def id_conn_server_def id_db_def demo_conn_db_def split: list.split)
  have "open_connection id_env (sv_db id_conn_server) demo_conn_row = open_connection demo_env demo_conn_db demo_conn_row"
    unfolding open_connection_def env dek by (rule refl)
  then show "open_connection id_env (sv_db id_conn_server) demo_conn_row = Some demo_connection" by simp
qed

theorem manual_sync_exact_witness:
  "with_session App (sync id_env id_settings (Some ''ck='') 0 9) id_conn_server = (Inr (), queued [manual_job 7] id_conn_server) \<and>
   with_session App (sync id_env id_settings (Some ''ck='') 0 9) id_server = (Inl (HTTPException 404 ''not found''), id_server)"
proof -
  have "own_runs (sv_db id_server) 7 = []" by (simp add: own_runs_def)
  then have a: "list_all run_readable (own_runs (sv_db id_conn_server) 7)" "list_all run_readable (own_runs (sv_db id_server) 7)"
    "identity_ok (sv_db id_server)" "logged_in id_env (sv_db id_server) ''ck='' 0 = Some 7"
    by simp_all
  from manual_sync_exact [OF id_conn(1,2) a(1), of id_settings 9] manual_sync_exact [OF a(3,4,2), of id_settings 9]
  show ?thesis by simp
qed

theorem cooldown_not_held_witness:
  "ask_again id_env id_settings ''ck='' 0 9 2 id_conn_server = ([Inr (), Inr ()], queued [manual_job 7, manual_job 7] id_conn_server)"
proof -
  have "list_all run_readable (own_runs (sv_db id_conn_server) 7)"
    "\<not> list_ex (within_cooldown id_settings 9) (own_runs (sv_db id_conn_server) 7)" by simp_all
  from cooldown_not_held [OF id_conn(1,2,3,5) this, of 2] show ?thesis by (simp add: eval_nat_numeral)
qed

end
