(* ===== verification/System_Witnesses.thy ===== *)
theory System_Witnesses
  imports History Ledger_Book Connection_Witnesses
begin

text \<open>
  A run of the small world from the empty database: the bootstrap, the administrator's setup, a login and
  a broker authorization. The promises about reachable states are applied along it.
\<close>

definition sys_env :: env where
  "sys_env = demo_env\<lparr>gen_uuid := (\<lambda>i. if i = 0 then 1 else 2)\<rparr>"

lemma sys_aead: "aead_correct sys_env" "aead_binding sys_env"
  using demo_aead_correct demo_aead_binding by (simp_all add: aead_correct_def aead_binding_def sys_env_def)

definition demo_start :: system where
  "demo_start = \<lparr>sy_kek = master_key_bytes sys_env, sy_server = \<lparr>sv_db = empty_db, sv_draws = 0\<rparr>\<rparr>"

definition demo_boot :: system where
  "demo_boot = on_server (create_admin_script (env_of sys_env demo_start) 0 [''create_admin.py'', ''alice'']) demo_start"

lemma demo_start_reachable: "reachable sys_env demo_start"
  unfolding demo_start_def by (rule start)

lemma demo_boot_reachable: "reachable sys_env demo_boot"
  unfolding demo_boot_def by (rule onward [OF demo_start_reachable bootstrap])

lemma sys_env_of [simp]: "sy_kek y = master_key_bytes sys_env \<Longrightarrow> env_of sys_env y = sys_env"
  by (simp add: env_of_def sys_env_def demo_env_def)

lemma served_simps [simp]:
  "sy_kek (served m y) = sy_kek y" "sy_server (served m y) = snd (with_session App m (sy_server y))"
  "sy_kek (on_server f y) = sy_kek y" "sy_server (on_server f y) = snd (f (sy_server y))"
  by (simp_all add: served_def on_server_def)

definition demo_admin :: uuid where
  "demo_admin = gen_uuid sys_env 0"

definition demo_setup_token :: string where
  "demo_setup_token = token_urlsafe (urandom sys_env (Suc 0) 32)"

lemma demo_boot_state:
  "sy_kek demo_boot = master_key_bytes sys_env"
  "sv_db (sy_server demo_boot) = empty_db\<lparr>t_users := [admin_row demo_admin ''alice''],
     t_setup_tokens := [token_row sys_env (Suc 0) demo_admin Setup (td_days 7)]\<rparr>"
proof -
  show k: "sy_kek demo_boot = master_key_bytes sys_env" by (simp add: demo_boot_def demo_start_def)
  let ?sv = "\<lparr>sv_db = empty_db, sv_draws = 0\<rparr>"
  have "\<not> has_admin (sv_db ?sv)" "\<not> list_ex (\<lambda>r. u_username r = ''alice'') (t_users (sv_db ?sv))"
    "\<not> has_user (sv_db ?sv) (gen_uuid sys_env (sv_draws ?sv))" "new_tokens sys_env (sv_draws ?sv) (sv_db ?sv)"
    by (simp_all add: has_admin_def has_user_def new_tokens_def empty_db_def)
  from create_admin_law [OF this, where prog = "''create_admin.py''" and now = 0 and later = 0 and prog' = "[]" and username' = "[]"]
  show "sv_db (sy_server demo_boot) = empty_db\<lparr>t_users := [admin_row demo_admin ''alice''],
     t_setup_tokens := [token_row sys_env (Suc 0) demo_admin Setup (td_days 7)]\<rparr>"
    using k by (auto simp: demo_boot_def demo_start_def demo_admin_def td_days_def empty_db_def)
qed


lemma demo_reachable_ok: "reachable sys_env y \<Longrightarrow> identity_ok (sv_db (sy_server y))"
  by (intro db_ok_identity reachable_parts(1) [OF sys_aead])

lemma demo_argon2: "argon2_correct sys_env"
  by (simp add: argon2_correct_def sys_env_def demo_env_def)

lemma demo_setup_done:
  obtains y h where "reachable sys_env y" "sy_kek y = master_key_bytes sys_env"
    "sv_db (sy_server y) = empty_db\<lparr>t_users := [(admin_row demo_admin ''alice'')\<lparr>u_password_hash := Some h\<rparr>]\<rparr>"
    "verify_password sys_env h ''correct horse''"
proof -
  let ?d = "sv_db (sy_server demo_boot)"
  let ?y = "served (setup_account (env_of sys_env demo_boot) 0 0 demo_setup_token ''correct horse'') demo_boot"
  have d: "?d = empty_db\<lparr>t_users := [admin_row demo_admin ''alice''],
      t_setup_tokens := [token_row sys_env (Suc 0) demo_admin Setup (td_days 7)]\<rparr>"
    by (rule demo_boot_state)
  have u: "usable sys_env demo_setup_token Setup 0 (token_row sys_env (Suc 0) demo_admin Setup (td_days 7))"
    by (simp add: usable_def demo_setup_token_def token_row_def td_days_def)
  have t: "token_user sys_env ?d demo_setup_token Setup 0 = Some demo_admin"
    using u by (simp add: d token_user_def) (simp add: token_row_def)
  then have w: "without_setup sys_env demo_setup_token 0 0 ?d = empty_db\<lparr>t_users := [admin_row demo_admin ''alice'']\<rparr>"
    using u by (simp add: without_setup_def without_token_def) (simp add: d empty_db_def)
  have s: "setup_user sys_env ?d demo_setup_token 0 0 = Some demo_admin"
    "user_in ?d demo_admin = Some (admin_row demo_admin ''alice'')" "12 \<le> code_points ''correct horse''"
    using t by (simp_all add: setup_user_def d user_in_def admin_row_def code_points_def)
  obtain n where n: "with_session App (setup_account sys_env 0 0 demo_setup_token ''correct horse'') (sy_server demo_boot) =
      (Inr (), \<lparr>sv_db = set_password demo_admin (argon2_hash sys_env n ''correct horse'')
         (empty_db\<lparr>t_users := [admin_row demo_admin ''alice'']\<rparr>), sv_draws = Suc n\<rparr>)"
    using setup_account_run [OF demo_reachable_ok [OF demo_boot_reachable] s(3,1,2)] w by auto
  have "reachable sys_env ?y" by (rule onward [OF demo_boot_reachable account_setup])
  moreover have "sy_kek ?y = master_key_bytes sys_env" using demo_boot_state(1) by simp
  moreover have "sv_db (sy_server ?y) = empty_db\<lparr>t_users := [(admin_row demo_admin ''alice'')
      \<lparr>u_password_hash := Some (argon2_hash sys_env n ''correct horse'')\<rparr>]\<rparr>"
    using n demo_boot_state(1) by (simp add: set_password_def admin_row_def)
  moreover have "verify_password sys_env (argon2_hash sys_env n ''correct horse'') ''correct horse''"
    by (simp add: verify_password_def sys_env_def demo_env_def)
  ultimately show ?thesis by (rule that)
qed

lemma demo_logged_in:
  obtains y cookie where "reachable sys_env y" "sy_kek y = master_key_bytes sys_env"
    "logged_in sys_env (sv_db (sy_server y)) cookie 0 = Some demo_admin"
    "admin_in (sv_db (sy_server y)) demo_admin" "t_setup_tokens (sv_db (sy_server y)) = []"
    "0 < sv_draws (sy_server y)"
    "\<exists>r. t_users (sv_db (sy_server y)) = [r] \<and> u_id r = demo_admin \<and> u_is_admin r \<and> u_username r = ''alice''"
    "t_user_data_keys (sv_db (sy_server y)) = []" "t_fills (sv_db (sy_server y)) = []"
    "t_sync_runs (sv_db (sy_server y)) = []" "t_schwab_connections (sv_db (sy_server y)) = []"
proof -
  obtain y h where y: "reachable sys_env y" "sy_kek y = master_key_bytes sys_env"
    "sv_db (sy_server y) = empty_db\<lparr>t_users := [(admin_row demo_admin ''alice'')\<lparr>u_password_hash := Some h\<rparr>]\<rparr>"
    "verify_password sys_env h ''correct horse''"
    by (rule demo_setup_done)
  let ?z = "served (login (env_of sys_env y) [] 0 ''alice'' ''correct horse'') y"
  have "proves sys_env (sv_db (sy_server y)) ''alice'' ''correct horse'' = Some (demo_admin, h)"
    using y(4) by (simp add: proves_def user_named_def y(3) admin_row_def)
  moreover have "new_sessions sys_env (sv_draws (sy_server y)) (sv_db (sy_server y))" by (simp add: new_sessions_def y(3) empty_db_def)
  ultimately obtain n d where l: "with_session App (login sys_env [] 0 ''alice'' ''correct horse'') (sy_server y) =
      (Inr (token_urlsafe (urandom sys_env n 32)), \<lparr>sv_db = with_new_session
         (session_row_of sys_env n demo_admin (0 + session_cookie_ttl)) d, sv_draws = n + 2\<rparr>)"
    "d = sv_db (sy_server y) \<or> (\<exists>h. d = set_password demo_admin h (sv_db (sy_server y)))"
    using login_run [OF demo_reachable_ok [OF y(1)]] by blast
  have z: "reachable sys_env ?z" "sy_kek ?z = master_key_bytes sys_env"
    using onward [OF y(1) log_in] y(2) by simp_all
  have db: "sv_db (sy_server ?z) = with_new_session (session_row_of sys_env n demo_admin session_cookie_ttl) d"
    using l(1) y(2) by simp
  have "logged_in sys_env (sv_db (sy_server ?z)) (token_urlsafe (urandom sys_env n 32)) 0 = Some demo_admin"
    unfolding db using l(2) by (auto simp: logged_in_def with_new_session_def session_row_of_def session_cookie_ttl_def td_days_def
        y(3) set_password_def empty_db_def)
  moreover have "admin_in (sv_db (sy_server ?z)) demo_admin" "t_setup_tokens (sv_db (sy_server ?z)) = []"
    unfolding db using l(2) by (auto simp: admin_in_def with_new_session_def y(3) set_password_def empty_db_def admin_row_def)
  moreover have "0 < sv_draws (sy_server ?z)" using l(1) y(2) by simp
  moreover have "\<exists>r. t_users (sv_db (sy_server ?z)) = [r] \<and> u_id r = demo_admin \<and> u_is_admin r \<and> u_username r = ''alice''"
    "t_user_data_keys (sv_db (sy_server ?z)) = []" "t_fills (sv_db (sy_server ?z)) = []"
    "t_sync_runs (sv_db (sy_server ?z)) = []" "t_schwab_connections (sv_db (sy_server ?z)) = []"
    unfolding db using l(2) by (auto simp: with_new_session_def y(3) set_password_def empty_db_def admin_row_def)
  ultimately show ?thesis using z by (intro that [of ?z "token_urlsafe (urandom sys_env n 32)"]) simp_all
qed

lemma demo_authorizing:
  obtains y raw where "reachable sys_env y" "sy_kek y = master_key_bytes sys_env"
    "token_user sys_env (sv_db (sy_server y)) raw OauthState 0 = Some demo_admin"
    "admin_in (sv_db (sy_server y)) demo_admin"
proof -
  obtain y cookie where y: "reachable sys_env y" "sy_kek y = master_key_bytes sys_env"
    "logged_in sys_env (sv_db (sy_server y)) cookie 0 = Some demo_admin"
    "admin_in (sv_db (sy_server y)) demo_admin" "t_setup_tokens (sv_db (sy_server y)) = []"
    by (rule demo_logged_in)
  let ?d = "sv_db (sy_server y)" and ?n = "sv_draws (sy_server y)"
  let ?z = "served (connect (env_of sys_env y) id_settings (demo_lib JNull) (Some cookie) 0 0) y"
  have n: "new_tokens sys_env ?n ?d" by (simp add: new_tokens_def y(5))
  have "has_user ?d demo_admin" using y(4) by (auto simp: admin_in_def has_user_def list_ex_iff)
  from connect_run [OF demo_reachable_ok [OF y(1)] y(3) id_schwab_auth this n]
  have db: "sv_db (sy_server ?z) = t_setup_tokens_update (\<lambda>rs. rs @ [token_row sys_env ?n demo_admin OauthState oauth_state_ttl]) ?d"
    using y(2) by simp
  have "token_user sys_env (sv_db (sy_server ?z)) (token_urlsafe (urandom sys_env ?n 32)) OauthState 0 = Some demo_admin"
    unfolding db using token_user_issued [OF n] by (simp add: oauth_state_ttl_def td_days_def)
  moreover have "admin_in (sv_db (sy_server ?z)) demo_admin" unfolding db using y(4) by (simp add: admin_in_def)
  moreover have "reachable sys_env ?z" by (rule onward [OF y(1) broker_connect])
  ultimately show ?thesis using y(2) by (intro that [of ?z]) simp_all
qed

text \<open>An account the administrator has created, with its data key and no fills.\<close>

lemma demo_account:
  obtains y u k dek where "reachable sys_env y" "sy_kek y = master_key_bytes sys_env"
    "has_user (sv_db (sy_server y)) u" "key_rows (sv_db (sy_server y)) u = [k]" "unwrapped sys_env k = Some dek"
    "dk_key_version k = 1" "own_fills (sv_db (sy_server y)) u = []" "conn_of (sv_db (sy_server y)) u = []"
    "t_sync_runs (sv_db (sy_server y)) = []"
proof -
  obtain y cookie where y: "reachable sys_env y" "sy_kek y = master_key_bytes sys_env"
    "logged_in sys_env (sv_db (sy_server y)) cookie 0 = Some demo_admin"
    "t_setup_tokens (sv_db (sy_server y)) = []" "0 < sv_draws (sy_server y)"
    "\<exists>r. t_users (sv_db (sy_server y)) = [r] \<and> u_id r = demo_admin \<and> u_is_admin r \<and> u_username r = ''alice''"
    "t_user_data_keys (sv_db (sy_server y)) = []" "t_fills (sv_db (sy_server y)) = []"
    "t_sync_runs (sv_db (sy_server y)) = []" "t_schwab_connections (sv_db (sy_server y)) = []"
    by (rule demo_logged_in)
  let ?d = "sv_db (sy_server y)" and ?n = "sv_draws (sy_server y)"
  let ?u = "gen_uuid sys_env ?n"
  let ?z = "served (create_user (env_of sys_env y) (Some cookie) 0 0 ''bob'') y"
  have u: "?u = 2" "demo_admin = 1" using y(5) by (simp_all add: sys_env_def demo_admin_def)
  obtain r where r: "t_users ?d = [r]" "u_id r = demo_admin" "u_is_admin r" "u_username r = ''alice''" using y(6) by blast
  have "admin_of sys_env ?d cookie 0 = Some r" using y(3) r by (simp add: admin_of_def user_in_def)
  moreover have "new_users sys_env ?n ?d" using r u y(7) by (simp add: new_users_def has_user_def)
  moreover have "new_tokens sys_env ?n ?d" using y(4) by (simp add: new_tokens_def)
  moreover have "user_named ?d ''bob'' = None" using r by (simp add: user_named_def)
  ultimately have c: "sv_db (sy_server ?z) = new_account sys_env ?n ''bob'' 0 ?d"
    "dek_in sys_env (new_account sys_env ?n ''bob'' 0 ?d) ?u 1 = Some (urandom sys_env (?n + 3) 32)"
    using create_user_law [OF sys_aead(1) demo_reachable_ok [OF y(1)], of cookie 0 r 0 "''bob''"] y(2) by simp_all
  let ?k = "new_key_row sys_env (Suc (Suc (Suc ?n))) ?u"
  have k: "key_rows (sv_db (sy_server ?z)) ?u = [?k]" "dk_key_version ?k = 1"
    unfolding c using y(7) by (simp_all add: key_rows_def new_account_def new_key_row_def)
  moreover have "unwrapped sys_env ?k = Some (urandom sys_env (?n + 3) 32)"
    using c(2) k unfolding c(1) by (simp add: dek_in_def)
  moreover have "has_user (sv_db (sy_server ?z)) ?u" "own_fills (sv_db (sy_server ?z)) ?u = []"
    "conn_of (sv_db (sy_server ?z)) ?u = []" "t_sync_runs (sv_db (sy_server ?z)) = []"
    unfolding c using y(8-10)
    by (simp_all add: new_account_def has_user_def new_user_row_def own_fills_def conn_of_def)
  moreover have "reachable sys_env ?z" by (rule onward [OF y(1) account_creation])
  ultimately show ?thesis using y(2) by (intro that [of ?z ?u ?k "urandom sys_env (?n + 3) 32"]) simp_all
qed


section \<open>The witnesses\<close>

theorem reachable_schema_witness: "reachable sys_env demo_boot \<and> db_ok (sv_db (sy_server demo_boot))"
  using demo_boot_reachable reachable_schema [OF sys_aead demo_boot_reachable] by simp

theorem reachable_accountable_witness:
  "admin_in (sv_db (sy_server demo_boot)) demo_admin \<and> key_rows (sv_db (sy_server demo_boot)) demo_admin = []"
proof -
  have "admin_in (sv_db (sy_server demo_boot)) demo_admin"
    by (simp add: demo_boot_state(2) admin_in_def admin_row_def)
  with reachable_accountable [OF sys_aead demo_boot_reachable refl] show ?thesis by simp
qed

theorem ledger_always_reads_witness:
  "\<exists>records. with_session App (op_seq (set_current_user (uuid_str demo_admin)) (read_fills sys_env demo_admin))
     (sy_server demo_boot) = (Inr records, sy_server demo_boot)"
  using ledger_always_reads [OF sys_aead demo_boot_reachable, of demo_admin]
    demo_boot_state(1) by auto

theorem connection_always_opens_witness:
  "\<exists>x. with_session App (op_seq (set_current_user (uuid_str demo_admin)) (read_connection sys_env demo_admin))
     (sy_server demo_boot) = (x, sy_server demo_boot) \<and> x \<noteq> Inl InvalidTag"
  using connection_always_opens [OF sys_aead demo_boot_reachable refl refl, of demo_admin 50]
    demo_boot_state(1) by auto

theorem admin_cannot_connect_witness:
  "\<exists>y raw d. reachable sys_env y \<and>
     with_session App (callback sys_env id_settings (demo_lib JNull) 0 ''url'' raw) (sy_server y) = (Inl NoResultFound, d) \<and>
     conn_of (sv_db (sy_server y)) demo_admin = []"
proof -
  obtain y raw where y: "reachable sys_env y" "sy_kek y = master_key_bytes sys_env"
    "token_user sys_env (sv_db (sy_server y)) raw OauthState 0 = Some demo_admin"
    "admin_in (sv_db (sy_server y)) demo_admin"
    by (rule demo_authorizing)
  have x: "exchange_callback sys_env (demo_auth JNull) ''url'' raw = Inr \<lparr>et_token = JStr ''tok'', et_created_at = 5000000\<rparr>"
    by (simp add: exchange_callback_def demo_auth_def demo_lib_def wrapped_token_of_def sys_env_def demo_env_def
        from_timestamp_def td_seconds_def)
  have e: "sys_env = env_of sys_env y" using y(2) by simp
  from admin_cannot_connect [OF sys_aead y(1) refl e id_schwab_auth y(3,4) x id_accounts] y(1)
  show ?thesis by blast
qed


theorem ledger_refines_book_witness:
  "\<exists>y u n s' new. reachable sys_env y \<and> insert_fills sys_env u demo_fills (session_of u (sy_server y)) = (Inr n, s') \<and>
     read_fills sys_env u s' = (Inr new, s') \<and> write_book Map.empty demo_fills = (n, book_of new)"
proof -
  obtain y u k dek where y: "reachable sys_env y" "sy_kek y = master_key_bytes sys_env"
    "has_user (sv_db (sy_server y)) u" "key_rows (sv_db (sy_server y)) u = [k]" "unwrapped sys_env k = Some dek"
    "dk_key_version k = 1" "own_fills (sv_db (sy_server y)) u = []"
    by (rule demo_account)
  let ?s = "session_of u (sy_server y)"
  have "current_dek sys_env u ?s = (Inr (dek, 1), ?s)"
    using current_dek_single [of u ?s k sys_env dek] y(4-6) by simp
  then have w: "insert_fills sys_env u demo_fills ?s = (Inr (length (landed_fills sys_env dek 1 u ?s demo_fills)),
      after_fills sys_env dek 1 u ?s demo_fills)"
    unfolding insert_fills_def using y(3) demo_fills_int2
    by (intro insert_fills_chunked_run) (simp_all add: fill_chunk_size_def)
  have e: "sys_env = env_of sys_env y" using y(2) by simp
  obtain old new where "read_fills sys_env u ?s = (Inr old, ?s)" "write_book (book_of old) demo_fills =
      (length (landed_fills sys_env dek 1 u ?s demo_fills), book_of new)"
    "read_fills sys_env u (after_fills sys_env dek 1 u ?s demo_fills) = (Inr new, after_fills sys_env dek 1 u ?s demo_fills)"
    using ledger_refines_book [OF sys_aead y(1) e refl w] by blast
  moreover from this(1) have "old = []" using y(7) by (simp add: read_fills_iff [of u ?s])
  moreover have "book_of [] = Map.empty" by (simp add: book_of_def)
  ultimately show ?thesis using y(1) w by metis
qed

theorem history_kept_witness:
  "\<exists>y y' u r. reachable sys_env y \<and> step sys_env y y' \<and> r_user_id r = u \<and> run_recorded r (sv_db (sy_server y)) \<and>
     run_recorded r (sv_db (sy_server y'))"
proof -
  obtain y u k dek where y: "reachable sys_env y" "sy_kek y = master_key_bytes sys_env"
    "has_user (sv_db (sy_server y)) u" "conn_of (sv_db (sy_server y)) u = []" "t_sync_runs (sv_db (sy_server y)) = []"
    by (rule demo_account)
  let ?sv = "sy_server y"
  let ?z = "on_server (sync_user_task (env_of sys_env y) default_settings quiet_auth App (uuid_str u)
    (sync_trigger_value Manual) 0 1) y"
  let ?y' = "served (me (env_of sys_env ?z) None 0) ?z"
  let ?t = "s_locks_update ((#) (hashtext sys_env (uuid_str u))) ((task_session ?sv)\<lparr>s_user_guc := Some (uuid_str u)\<rparr>)"
  have a: "as_user u ?t" by (simp add: as_user_def)
  have "conn_of (s_db ?t) u = []" using y(4) by simp
  from read_connection_none [OF a this]
  have f: "fst (sync_user sys_env default_settings quiet_auth u 0 (task_session ?sv)) = Inl ConnectionNotFound"
    by (simp add: sync_user_def op_run set_current_user_def advisory_xact_lock_def on_live_def)
  have "ConnectionNotFound \<noteq> Diverges" "new_run_ids sys_env (sv_draws ?sv) (sv_db ?sv)"
    using y(5) by (simp_all add: new_run_ids_def)
  with sync_failure_law [OF f _ y(3), of Manual 1] obtain i n where
    "sy_server ?z = \<lparr>sv_db = t_sync_runs_update (\<lambda>rs. rs @ [run_row i u 0 1 Manual Failed None None
       (Some (classify_sync_error ConnectionNotFound))]) (sv_db ?sv), sv_draws = n\<rparr>"
    using y(2) by auto
  then have "run_recorded (run_row i u 0 1 Manual Failed None None (Some (classify_sync_error ConnectionNotFound)))
      (sv_db (sy_server ?z))" "has_user (sv_db (sy_server ?z)) u"
    using y(3) by (simp_all add: run_recorded_def has_user_def)
  moreover have "r_user_id (run_row i u a b t v f g x) = u" for a b t v f g x by (simp add: run_row_def)
  ultimately obtain r where r: "run_recorded r (sv_db (sy_server ?z))" "r_user_id r = u" "has_user (sv_db (sy_server ?z)) u"
    by blast
  have z: "reachable sys_env ?z" "step sys_env ?z ?y'"
    by (rule onward [OF y(1) sync_job], rule who_am_i)
  have "sv_db (sy_server ?y') = sv_db (sy_server ?z)"
    by (simp add: with_session_def me_def get_current_user_def op_run new_session_def)
  then have "has_user (sv_db (sy_server ?y')) u" using r(3) by simp
  from history_kept [OF sys_aead z refl refl this] r z show ?thesis by blast
qed

end
