(* ===== verification/Py_Text.thy ===== *)
theory Py_Text
  imports Morai_Prelude
begin

text \<open>Methods of \<open>str\<close> on ASCII text.\<close>

text \<open>\<open>str.isspace\<close> on ASCII.\<close>

definition is_space :: "char \<Rightarrow> bool" where
  "is_space c \<longleftrightarrow> (of_char c :: nat) \<in> {9..13} \<union> {28..32}"

definition strip :: "string \<Rightarrow> string" where
  "strip s = rev (dropWhile is_space (rev (dropWhile is_space s)))"

text \<open>One character of \<open>str.lower\<close>.\<close>

definition lower :: "char \<Rightarrow> char" where
  "lower c = (if CHR ''A'' \<le> c \<and> c \<le> CHR ''Z'' then char_of (of_char c + (32 :: nat)) else c)"

lemma strip_id: "list_all (\<lambda>c. \<not> is_space c) s \<Longrightarrow> strip s = s"
proof -
  have d: "list_all (\<lambda>c. \<not> is_space c) s \<Longrightarrow> dropWhile is_space s = s" for s by (cases s) auto
  assume "list_all (\<lambda>c. \<not> is_space c) s"
  then show ?thesis using d [of s] d [of "rev s"] by (simp add: strip_def)
qed

lemma strip_parts: "\<exists>a c. s = a @ strip s @ c \<and> list_all is_space (a @ c)"
proof -
  let ?r = "dropWhile is_space s"
  have "s = takeWhile is_space s @ ?r" by simp
  moreover have "?r = rev (dropWhile is_space (rev ?r)) @ rev (takeWhile is_space (rev ?r))"
    by (metis rev_append rev_rev_ident takeWhile_dropWhile_id)
  ultimately have "s = takeWhile is_space s @ strip s @ rev (takeWhile is_space (rev ?r))"
    unfolding strip_def by metis
  moreover have "list_all is_space (takeWhile is_space s @ rev (takeWhile is_space (rev ?r)))"
    by (auto simp: list_all_iff dest: set_takeWhileD)
  ultimately show ?thesis by blast
qed

end
