(* ===== verification/Telemetry.thy ===== *)
theory Telemetry
  imports Py_Uuid Py_Json Py_Time "HOL-Library.AList"
begin

text \<open>
  \<open>telemetry.py\<close>: product events and exception reports for the analytics vendor. An exception is an
  object with a class, a message, a traceback and, for a failed response validation, Pydantic's error
  dictionaries; which of these leave the process is what the module is about.
\<close>

section \<open>Exception objects\<close>

record frame_summary =
  fm_filename :: string
  fm_lineno :: "int option"
  fm_name :: string

datatype loc_part = LocStr string | LocInt int

definition loc_text :: "loc_part \<Rightarrow> string" where
  "loc_text part = (case part of LocStr s \<Rightarrow> s | LocInt i \<Rightarrow> show_int i)"

record error_dict =
  ed_loc :: "loc_part list option"
  ed_type :: "string option"
  ed_input :: json
  ed_msg :: string

text \<open>\<open>px_errors\<close> is what \<open>exc.errors()\<close> returns, for a \<open>ResponseValidationError\<close> only.\<close>

record py_exception =
  px_type :: string
  px_module :: string
  px_frames :: "frame_summary list"
  px_text :: string
  px_errors :: "error_dict list option"


section \<open>The process\<close>

datatype scalar = ScalarStr string | ScalarInt int | ScalarFloat string | ScalarBool bool

record telemetry_event =
  te_distinct_id :: string
  te_event :: string
  te_properties :: "(string \<times> scalar) list"

datatype log_line =
    ClientNotConstructed
  | CaptureFailed string
  | ExceptionCaptureFailed
  | ShutdownFailed
  | ResponseInvalid string string "string list"
  | Unhandled string string

text \<open>
  \<open>_request_id_ctx\<close>, the log, what the vendor was handed, how many identifiers were drawn, and the
  cached client: \<open>lru_cache\<close> keeps what \<open>get_client\<close> returned, and nothing when it raised.
\<close>

record process =
  pr_request_id :: "string option"
  pr_log :: "log_line list"
  pr_sent :: "telemetry_event list"
  pr_drawn :: nat
  pr_client :: "bool option"

text \<open>
  The outside: what \<open>get_settings().posthog_api_key\<close> gives or raises, whether the client can be built,
  and whether a call of it returns.
\<close>

record posthog =
  ph_api_key :: "py_exception + string option"
  ph_constructs :: bool
  ph_accepts :: "nat \<Rightarrow> telemetry_event \<Rightarrow> bool"
  ph_stops :: bool

definition logged :: "log_line \<Rightarrow> process \<Rightarrow> process" where
  "logged l p = p\<lparr>pr_log := pr_log p @ [l]\<rparr>"

definition max_frames :: nat where "max_frames = 30"

text \<open>Whether there is a client.\<close>

definition get_client :: "posthog \<Rightarrow> process \<Rightarrow> (py_exception + bool) \<times> process" where
  "get_client ph p =
     (case pr_client p of
        Some c \<Rightarrow> (Inr c, p)
      | None \<Rightarrow> (case ph_api_key ph of
          Inl x \<Rightarrow> (Inl x, p)
        | Inr None \<Rightarrow> (Inr False, p\<lparr>pr_client := Some False\<rparr>)
        | Inr (Some key) \<Rightarrow>
            if ph_constructs ph then (Inr True, p\<lparr>pr_client := Some True\<rparr>)
            else (Inr False, (logged ClientNotConstructed p)\<lparr>pr_client := Some False\<rparr>)))"

text \<open>\<open>client.capture\<close> inside its \<open>try\<close>.\<close>

definition send_event :: "posthog \<Rightarrow> telemetry_event \<Rightarrow> log_line \<Rightarrow> process \<Rightarrow> process" where
  "send_event ph ev failed p =
     (if ph_accepts ph (length (pr_sent p)) ev then p\<lparr>pr_sent := pr_sent p @ [ev]\<rparr> else logged failed p)"

definition capture_event ::
    "posthog \<Rightarrow> string \<Rightarrow> string \<Rightarrow> (string \<times> scalar) list option \<Rightarrow> process \<Rightarrow> (py_exception + unit) \<times> process" where
  "capture_event ph distinct_id event properties p =
     (case get_client ph p of
        (Inl x, p) \<Rightarrow> (Inl x, p)
      | (Inr False, p) \<Rightarrow> (Inr (), p)
      | (Inr True, p) \<Rightarrow> (Inr (), send_event ph \<lparr>te_distinct_id = distinct_id, te_event = event,
          te_properties = (case properties of None \<Rightarrow> [] | Some ps \<Rightarrow> ps)\<rparr> (CaptureFailed event) p))"

definition render_frame :: "frame_summary \<Rightarrow> string" where
  "render_frame f = fm_filename f @ '':'' @ (case fm_lineno f of None \<Rightarrow> ''None'' | Some n \<Rightarrow> show_int n) @
     '' in '' @ fm_name f"

definition exception_properties :: "py_exception \<Rightarrow> string \<Rightarrow> (string \<times> string) list option \<Rightarrow> (string \<times> scalar) list" where
  "exception_properties exc request_id context =
     (let frames = map render_frame (drop (length (px_frames exc) - max_frames) (px_frames exc))
      in fold (\<lambda>(key, value). AList.update key (ScalarStr value)) (case context of None \<Rightarrow> [] | Some c \<Rightarrow> c)
        [(''exception_type'', ScalarStr (px_type exc)), (''exception_module'', ScalarStr (px_module exc)),
         (''request_id'', ScalarStr request_id), (''frame_count'', ScalarInt (int (length frames))),
         (''frames'', ScalarStr (join '' | '' frames))])"

definition capture_exception ::
    "posthog \<Rightarrow> py_exception \<Rightarrow> string \<Rightarrow> (string \<times> string) list option \<Rightarrow> string \<Rightarrow> process \<Rightarrow>
     (py_exception + unit) \<times> process" where
  "capture_exception ph exc request_id context distinct_id p =
     (case get_client ph p of
        (Inl x, p) \<Rightarrow> (Inl x, p)
      | (Inr False, p) \<Rightarrow> (Inr (), p)
      | (Inr True, p) \<Rightarrow> (Inr (), send_event ph \<lparr>te_distinct_id = distinct_id, te_event = ''exception'',
          te_properties = exception_properties exc request_id context\<rparr> ExceptionCaptureFailed p))"

definition shutdown :: "posthog \<Rightarrow> process \<Rightarrow> (py_exception + unit) \<times> process" where
  "shutdown ph p =
     (case get_client ph p of
        (Inl x, p) \<Rightarrow> (Inl x, p)
      | (Inr False, p) \<Rightarrow> (Inr (), p)
      | (Inr True, p) \<Rightarrow> (Inr (), if ph_stops ph then p else logged ShutdownFailed p))"


section \<open>What is sent\<close>

text \<open>The part of an exception that carries no value: class, frames, and where which check failed.\<close>

definition shape_of :: "py_exception \<Rightarrow> string \<times> string \<times> frame_summary list \<times> (loc_part list option \<times> string option) list option" where
  "shape_of x = (px_type x, px_module x, px_frames x, map_option (map (\<lambda>d. (ed_loc d, ed_type d))) (px_errors x))"

lemma capture_shape:
  assumes "shape_of x = shape_of x'"
  shows "capture_exception ph x = capture_exception ph x'"
proof -
  have "exception_properties x = exception_properties x'"
    using assms by (simp add: fun_eq_iff exception_properties_def shape_of_def)
  then show ?thesis unfolding fun_eq_iff capture_exception_def by (simp only: simp_thms)
qed

lemma get_client_frame:
  "pr_request_id (snd (get_client ph p)) = pr_request_id p" "pr_sent (snd (get_client ph p)) = pr_sent p"
  "pr_drawn (snd (get_client ph p)) = pr_drawn p"
  by (auto simp: get_client_def logged_def split: option.split sum.split)

lemma get_client_log: "\<exists>ls. pr_log (snd (get_client ph p)) = pr_log p @ ls"
  by (auto simp: get_client_def logged_def split: option.split sum.split)

lemma get_client_loaded: "ph_api_key ph = Inr k \<Longrightarrow> \<exists>c. fst (get_client ph p) = Inr c"
  by (auto simp: get_client_def split: option.split)

text \<open>A report, once the settings load: at most one event more, of the given properties.\<close>

lemma capture_exception_report:
  assumes "ph_api_key ph = Inr k"
  shows "\<exists>q ls. capture_exception ph x i c d p = (Inr (), q) \<and> pr_request_id q = pr_request_id p \<and>
    pr_drawn q = pr_drawn p \<and> pr_log q = pr_log p @ ls \<and> (pr_sent q = pr_sent p \<or> pr_sent q = pr_sent p @
      [\<lparr>te_distinct_id = d, te_event = ''exception'', te_properties = exception_properties x i c\<rparr>])"
proof -
  from get_client_loaded [OF assms, of p] obtain b q where g: "get_client ph p = (Inr b, q)" by (metis prod.collapse)
  moreover have "pr_request_id q = pr_request_id p" "pr_sent q = pr_sent p" "pr_drawn q = pr_drawn p"
    "\<exists>ls. pr_log q = pr_log p @ ls"
    using get_client_frame [of ph p] get_client_log [of ph p] g by simp_all
  ultimately show ?thesis
    by (cases b) (auto simp: capture_exception_def send_event_def logged_def)
qed

text \<open>
  Telemetry does not break what it observes, once the settings load. Whatever the vendor does, the client's
  construction included, every public function returns normally then; while the settings do not load, each of
  them passes the settings error to its caller, the client being fetched outside the \<open>try\<close>.
\<close>

theorem telemetry_never_raises:
  "(case ph_api_key ph of
      Inr k \<Rightarrow> fst (capture_event ph u ev ps p) = Inr () \<and> fst (capture_exception ph x i c d p) = Inr () \<and>
        fst (shutdown ph p) = Inr ()
    | Inl e \<Rightarrow> pr_client p = None \<longrightarrow> capture_event ph u ev ps p = (Inl e, p) \<and>
        capture_exception ph x i c d p = (Inl e, p) \<and> shutdown ph p = (Inl e, p))"
proof (cases "ph_api_key ph")
  case (Inl e)
  then show ?thesis
    by (simp add: capture_event_def capture_exception_def shutdown_def get_client_def)
next
  case (Inr k)
  from get_client_loaded [OF this, of p] obtain b q where "get_client ph p = (Inr b, q)" by (metis prod.collapse)
  with Inr show ?thesis
    by (cases b) (simp_all add: capture_event_def capture_exception_def shutdown_def)
qed

end
