(* ===== verification/Error_Envelope.thy ===== *)
theory Error_Envelope
  imports Telemetry
begin

text \<open>
  \<open>api/errors.py\<close>: the request id and the opaque error envelope. The middleware runs inside Starlette's
  outermost error handler and around the handler of failed response validations, as
  \<open>install_error_handling\<close> wires them; a route is what its run returns or raises.
\<close>

record http_request =
  rq_path :: string
  rq_query :: string
  rq_body :: string

record http_response =
  rp_status :: nat
  rp_headers :: "(string \<times> string) list"
  rp_content :: json

definition uuid_hex :: "uuid \<Rightarrow> string" where
  "uuid_hex u = filter (\<lambda>c. c \<noteq> CHR ''-'') (uuid_str u)"

text \<open>\<open>uuid.uuid4().hex\<close>, the identifiers coming from outside.\<close>

definition fresh_id :: "(nat \<Rightarrow> uuid) \<Rightarrow> process \<Rightarrow> string \<times> process" where
  "fresh_id gen p = (uuid_hex (gen (pr_drawn p)), p\<lparr>pr_drawn := Suc (pr_drawn p)\<rparr>)"

definition current_request_id :: "(nat \<Rightarrow> uuid) \<Rightarrow> process \<Rightarrow> string \<times> process" where
  "current_request_id gen p = (case pr_request_id p of Some i \<Rightarrow> (i, p) | None \<Rightarrow> fresh_id gen p)"

definition opaque_500 :: "string \<Rightarrow> http_response" where
  "opaque_500 request_id = \<lparr>rp_status = 500, rp_headers = [],
     rp_content = JObj [(''error'', JStr ''internal''), (''request_id'', JStr request_id)]\<rparr>"

text \<open>\<open>extra="ignore"\<close>: parsing keeps the location and the type and drops the input.\<close>

record error_location =
  el_loc :: "loc_part list"
  el_type :: string

definition error_location_of :: "error_dict \<Rightarrow> error_location" where
  "error_location_of d = \<lparr>el_loc = (case ed_loc d of None \<Rightarrow> [] | Some l \<Rightarrow> l),
     el_type = (case ed_type d of None \<Rightarrow> ''unknown'' | Some t \<Rightarrow> t)\<rparr>"

definition redacted_error_locations :: "py_exception \<Rightarrow> string list" where
  "redacted_error_locations exc =
     (case px_errors exc of
        None \<Rightarrow> [px_type exc]
      | Some errors \<Rightarrow> map (\<lambda>d. (let name = join ''.'' (map loc_text (el_loc d))
            in (if name = [] then ''<root>'' else name) @ '': '' @ el_type d)) (map error_location_of errors))"

definition response_validation_exception_handler ::
    "posthog \<Rightarrow> (nat \<Rightarrow> uuid) \<Rightarrow> http_request \<Rightarrow> py_exception \<Rightarrow> process \<Rightarrow> (py_exception + http_response) \<times> process" where
  "response_validation_exception_handler ph gen request exc p =
     (let (request_id, p) = current_request_id gen p;
          locations = redacted_error_locations exc;
          p = logged (ResponseInvalid request_id (rq_path request) locations) p
      in case capture_exception ph exc request_id
             (Some [(''path'', rq_path request), (''locations'', join '', '' locations)]) ''system'' p of
           (Inl x, p) \<Rightarrow> (Inl x, p)
         | (Inr _, p) \<Rightarrow> (Inr (opaque_500 request_id), p))"

definition unhandled_exception_handler ::
    "posthog \<Rightarrow> (nat \<Rightarrow> uuid) \<Rightarrow> http_request \<Rightarrow> py_exception \<Rightarrow> process \<Rightarrow> (py_exception + http_response) \<times> process" where
  "unhandled_exception_handler ph gen request exc p =
     (let (request_id, p) = current_request_id gen p;
          p = logged (Unhandled request_id (px_type exc)) p
      in case capture_exception ph exc request_id (Some [(''path'', rq_path request)]) ''system'' p of
           (Inl x, p) \<Rightarrow> (Inl x, p)
         | (Inr _, p) \<Rightarrow> (Inr (opaque_500 request_id), p))"

text \<open>The middleware: the context variable is set for the call and put back on both ways out.\<close>

definition request_id_middleware ::
    "(nat \<Rightarrow> uuid) \<Rightarrow> (process \<Rightarrow> (py_exception + http_response) \<times> process) \<Rightarrow> process \<Rightarrow>
     (py_exception + http_response) \<times> process" where
  "request_id_middleware gen call_next p =
     (let before = pr_request_id p;
          (request_id, p) = fresh_id gen p;
          (result, p) = call_next (p\<lparr>pr_request_id := Some request_id\<rparr>);
          p = p\<lparr>pr_request_id := before\<rparr>
      in (map_sum id (\<lambda>r. r\<lparr>rp_headers := AList.update ''X-Request-Id'' request_id (rp_headers r)\<rparr>) result, p))"

text \<open>
  The stack the application is served through: what the client receives (nothing of this module when a
  handler itself raised), the exception the outermost handler raises on to the server, and the process
  afterwards. Starlette's outermost handler answers and then raises the exception it was called with; when the
  handler of this module raises, that exception goes on instead.
\<close>

definition serve ::
    "posthog \<Rightarrow> (nat \<Rightarrow> uuid) \<Rightarrow> http_request \<Rightarrow> (process \<Rightarrow> (py_exception + http_response) \<times> process) \<Rightarrow>
     process \<Rightarrow> http_response option \<times> py_exception option \<times> process" where
  "serve ph gen request route p =
     (case request_id_middleware gen (\<lambda>p. case route p of
          (Inr r, p) \<Rightarrow> (Inr r, p)
        | (Inl exc, p) \<Rightarrow> if px_errors exc \<noteq> None
            then response_validation_exception_handler ph gen request exc p else (Inl exc, p)) p of
        (Inr r, p) \<Rightarrow> (Some r, None, p)
      | (Inl exc, p) \<Rightarrow> (case unhandled_exception_handler ph gen request exc p of
          (Inr r, p) \<Rightarrow> (Some r, Some exc, p)
        | (Inl exc', p) \<Rightarrow> (None, Some exc', p)))"


section \<open>What leaves\<close>












section \<open>One id\<close>

definition reported :: "string \<Rightarrow> process \<Rightarrow> process \<Rightarrow> bool" where
  "reported i p q \<longleftrightarrow> pr_sent q = pr_sent p \<or>
     (\<exists>ev. pr_sent q = pr_sent p @ [ev] \<and> map_of (te_properties ev) ''request_id'' = Some (ScalarStr i))"

lemma properties_id:
  assumes "list_all (\<lambda>(k, v). k \<noteq> ''request_id'') c"
  shows "map_of (exception_properties x i (Some c)) ''request_id'' = Some (ScalarStr i)"
proof -
  have "map_of (fold (\<lambda>(key, value). AList.update key (ScalarStr value)) c ps) ''request_id'' = map_of ps ''request_id''"
    for ps :: "(string \<times> scalar) list"
    using assms by (induction c arbitrary: ps) (auto simp: update_conv')
  then show ?thesis by (simp add: exception_properties_def Let_def)
qed

lemma handler_run:
  assumes "ph_api_key ph = Inr k"
  shows "pr_request_id p = Some i \<Longrightarrow> \<exists>q. response_validation_exception_handler ph gen rq x p = (Inr (opaque_500 i), q) \<and>
      ResponseInvalid i (rq_path rq) (redacted_error_locations x) \<in> set (pr_log q) \<and> reported i p q"
    "pr_request_id p = None \<Longrightarrow> \<exists>q. unhandled_exception_handler ph gen rq x p =
        (Inr (opaque_500 (uuid_hex (gen (pr_drawn p)))), q) \<and> pr_request_id q = None \<and>
      Unhandled (uuid_hex (gen (pr_drawn p))) (px_type x) \<in> set (pr_log q) \<and> reported (uuid_hex (gen (pr_drawn p))) p q"
proof -
  assume i: "pr_request_id p = Some i"
  let ?l = "logged (ResponseInvalid i (rq_path rq) (redacted_error_locations x)) p"
  let ?c = "[(''path'', rq_path rq), (''locations'', join '', '' (redacted_error_locations x))]"
  show "\<exists>q. response_validation_exception_handler ph gen rq x p = (Inr (opaque_500 i), q) \<and>
      ResponseInvalid i (rq_path rq) (redacted_error_locations x) \<in> set (pr_log q) \<and> reported i p q"
    using capture_exception_report [OF assms, of x i "Some ?c" "''system''" ?l] properties_id [of ?c x i]
    by (auto simp: response_validation_exception_handler_def current_request_id_def i reported_def logged_def)
next
  assume i: "pr_request_id p = None"
  let ?i = "uuid_hex (gen (pr_drawn p))"
  let ?l = "logged (Unhandled ?i (px_type x)) (p\<lparr>pr_drawn := Suc (pr_drawn p)\<rparr>)"
  let ?c = "[(''path'', rq_path rq)]"
  show "\<exists>q. unhandled_exception_handler ph gen rq x p = (Inr (opaque_500 ?i), q) \<and> pr_request_id q = None \<and>
      Unhandled ?i (px_type x) \<in> set (pr_log q) \<and> reported ?i p q"
    using capture_exception_report [OF assms, of x ?i "Some ?c" "''system''" ?l] properties_id [of ?c x ?i]
    by (auto simp: unhandled_exception_handler_def current_request_id_def fresh_id_def i reported_def logged_def)
qed

text \<open>
  One id joins header, body, log and report. When the settings load, a failed response validation is
  answered with an opaque 500 whose header and body carry the id drawn for the request, the log line and the
  report (if the vendor takes it) carry the same id, and the context variable is as before. Any other
  exception is answered with an opaque 500 with a second, freshly drawn id, in body, log and report and in no
  header, and is itself raised on to the server.
\<close>

theorem one_id_per_error:
  assumes "ph_api_key ph = Inr k" "pr_request_id p = None"
  shows "\<exists>i q. pr_request_id q = None \<and> reported i p q \<and>
    (if px_errors x \<noteq> None
     then serve ph gen rq (\<lambda>p. (Inl x, p)) p = (Some ((opaque_500 i)\<lparr>rp_headers := [(''X-Request-Id'', i)]\<rparr>), None, q) \<and>
       i = uuid_hex (gen (pr_drawn p)) \<and>
       ResponseInvalid i (rq_path rq) (redacted_error_locations x) \<in> set (pr_log q)
     else serve ph gen rq (\<lambda>p. (Inl x, p)) p = (Some (opaque_500 i), Some x, q) \<and>
       i = uuid_hex (gen (Suc (pr_drawn p))) \<and> Unhandled i (px_type x) \<in> set (pr_log q))"
proof (cases "px_errors x = None")
  case True
  let ?p = "p\<lparr>pr_drawn := Suc (pr_drawn p), pr_request_id := None\<rparr>"
  from handler_run(2) [OF assms(1), of ?p gen rq x] obtain q where
    "unhandled_exception_handler ph gen rq x ?p = (Inr (opaque_500 (uuid_hex (gen (Suc (pr_drawn p))))), q)"
    "pr_request_id q = None" "Unhandled (uuid_hex (gen (Suc (pr_drawn p)))) (px_type x) \<in> set (pr_log q)"
    "reported (uuid_hex (gen (Suc (pr_drawn p)))) ?p q" by auto
  with True assms(2) show ?thesis
    by (auto simp: serve_def request_id_middleware_def fresh_id_def reported_def)
next
  case False
  let ?i = "uuid_hex (gen (pr_drawn p))"
  let ?p = "p\<lparr>pr_drawn := Suc (pr_drawn p), pr_request_id := Some ?i\<rparr>"
  from handler_run(1) [OF assms(1), of ?p ?i gen rq x] obtain q where
    "response_validation_exception_handler ph gen rq x ?p = (Inr (opaque_500 ?i), q)"
    "ResponseInvalid ?i (rq_path rq) (redacted_error_locations x) \<in> set (pr_log q)" "reported ?i ?p q" by auto
  with False assms(2) show ?thesis
    by (intro exI [of _ ?i] exI [of _ "q\<lparr>pr_request_id := None\<rparr>"])
      (simp add: serve_def request_id_middleware_def fresh_id_def reported_def opaque_500_def)
qed



section \<open>Witnesses\<close>

text \<open>Two failed responses that hold different secrets at the same place.\<close>

definition leaking :: "string \<Rightarrow> py_exception" where
  "leaking secret = \<lparr>px_type = ''ResponseValidationError'', px_module = ''fastapi.exceptions'', px_frames = [],
     px_text = secret, px_errors = Some [\<lparr>ed_loc = Some [LocStr ''response'', LocInt 0], ed_type = Some ''missing'',
       ed_input = JStr secret, ed_msg = secret\<rparr>]\<rparr>"

definition calm_posthog :: posthog where
  "calm_posthog = \<lparr>ph_api_key = Inr (Some ''key''), ph_constructs = True, ph_accepts = (\<lambda>_ _. True), ph_stops = True\<rparr>"

definition new_process :: process where
  "new_process = \<lparr>pr_request_id = None, pr_log = [], pr_sent = [], pr_drawn = 0, pr_client = None\<rparr>"



theorem one_id_per_error_witness:
  "\<exists>q. serve calm_posthog (\<lambda>_. 0) \<lparr>rq_path = [], rq_query = [], rq_body = []\<rparr> (\<lambda>p. (Inl (leaking ''secret''), p)) new_process =
     (Some ((opaque_500 (uuid_hex 0))\<lparr>rp_headers := [(''X-Request-Id'', uuid_hex 0)]\<rparr>), None, q)"
  using one_id_per_error [of calm_posthog "Some ''key''" new_process "leaking ''secret''" "\<lambda>_. 0" "\<lparr>rq_path = [], rq_query = [], rq_body = []\<rparr>"]
  by (auto simp: calm_posthog_def new_process_def leaking_def)

end
