(* ===== verification/Isolation_Smoke.thy ===== *)
theory Isolation_Smoke
  imports Py_Text Error_Envelope Identity_Witnesses
begin

text \<open>
  \<open>tools/isolation_smoke.py\<close>: the check an operator runs against the deployed service. The HTTP client is a
  parameter, a function from path and cookie that may change the world it talks to and gives no response when
  it raises; \<open>sr_json\<close> is what \<open>.json()\<close> gives, when it gives something.
\<close>

section \<open>The script\<close>

record smoke_response =
  sr_status :: nat
  sr_headers :: "(string \<times> string) list"
  sr_content :: bytes
  sr_json :: "json option"

type_synonym 'w client = "string \<Rightarrow> string \<Rightarrow> 'w \<Rightarrow> smoke_response option \<times> 'w"

datatype smoke_failure =
    NotDiscovered nat nat
  | AdminReadReal nat
  | AdminReadFake nat
  | BodiesDiffer
  | HeadersDiffer
  | ListingLeaks

definition ignored_headers :: "string list" where
  "ignored_headers = [''x-request-id'', ''date'', ''content-length'']"

definition filtered_headers :: "smoke_response \<Rightarrow> (string \<times> string) list" where
  "filtered_headers response = fold (\<lambda>(key, value). AList.update (map lower key) value)
     (filter (\<lambda>(key, value). map lower key \<notin> set ignored_headers) (sr_headers response)) []"

text \<open>\<open>rows\<close> as a list, when it is one or is empty; anything else raises at \<open>rows[0]\<close> or \<open>len(rows)\<close>.\<close>

definition json_rows :: "json option \<Rightarrow> json list option" where
  "json_rows j = (case j of Some (JArr rows) \<Rightarrow> Some rows | Some (JObj []) \<Rightarrow> Some [] | Some (JStr []) \<Rightarrow> Some []
     | _ \<Rightarrow> None)"

text \<open>\<open>row["position_id"]\<close>; the identifiers of the interface are texts.\<close>

definition row_position :: "json \<Rightarrow> string option" where
  "row_position row = (case row of JObj members \<Rightarrow> (case map_of members ''position_id'' of
     Some (JStr t) \<Rightarrow> Some t | _ \<Rightarrow> None) | _ \<Rightarrow> None)"

definition row_positions :: "json option \<Rightarrow> string list option" where
  "row_positions j = Option.bind (json_rows j) (\<lambda>rows. those (map row_position rows))"

definition smoke_bind :: "('w \<Rightarrow> 'a option \<times> 'w) \<Rightarrow> ('a \<Rightarrow> 'w \<Rightarrow> 'b option \<times> 'w) \<Rightarrow> 'w \<Rightarrow> 'b option \<times> 'w" where
  "smoke_bind m f w = (case m w of (None, w) \<Rightarrow> (None, w) | (Some a, w) \<Rightarrow> f a w)"

text \<open>The comparisons, on the four responses after the first.\<close>

definition smoke_failures :: "string \<Rightarrow> smoke_response \<Rightarrow> smoke_response \<Rightarrow> string list \<Rightarrow> smoke_failure list" where
  "smoke_failures user_position_id real_404 fake_404 admin_position_ids =
     (if sr_status real_404 \<noteq> 404 then [AdminReadReal (sr_status real_404)] else []) @
     (if sr_status fake_404 \<noteq> 404 then [AdminReadFake (sr_status fake_404)] else []) @
     (if sr_content real_404 \<noteq> sr_content fake_404 then [BodiesDiffer] else []) @
     (if set (filtered_headers real_404) \<noteq> set (filtered_headers fake_404) then [HeadersDiffer] else []) @
     (if user_position_id \<in> set admin_position_ids then [ListingLeaks] else [])"

definition smoke_run :: "'w client \<Rightarrow> uuid \<Rightarrow> string \<Rightarrow> string \<Rightarrow> 'w \<Rightarrow> smoke_failure list option \<times> 'w" where
  "smoke_run get fake_id admin_cookie user_cookie =
     smoke_bind (get ''/gate/positions'' user_cookie) (\<lambda>listing.
     (case (if sr_status listing = 200 then json_rows (sr_json listing) else Some []) of
        None \<Rightarrow> Pair None
      | Some rows \<Rightarrow>
          if sr_status listing \<noteq> 200 \<or> rows = [] then Pair (Some [NotDiscovered (sr_status listing) (length rows)])
          else (case row_position (hd rows) of None \<Rightarrow> Pair None
           | Some user_position_id \<Rightarrow>
               smoke_bind (get (''/gate/positions/'' @ user_position_id) admin_cookie) (\<lambda>real_404.
               smoke_bind (get (''/gate/positions/'' @ uuid_str fake_id) admin_cookie) (\<lambda>fake_404.
               smoke_bind (get ''/gate/positions'' admin_cookie) (\<lambda>admin_listing.
               (case row_positions (sr_json admin_listing) of None \<Rightarrow> Pair None
                | Some ids \<Rightarrow> Pair (Some (smoke_failures user_position_id real_404 fake_404 ids)))))))))"

definition smoke_main :: "smoke_failure list \<Rightarrow> int" where
  "smoke_main failures = (if failures = [] then 0 else 1)"


section \<open>The service it talks to\<close>

text \<open>
  The modelled application behind the client: FastAPI turns a returned model into its JSON and an
  \<open>HTTPException\<close> into its status and detail, inside the error stack of \<open>api/errors.py\<close>. How JSON becomes
  bytes, a datetime becomes JSON, what other headers a response gets and the clock are parameters.
\<close>

record deployment =
  dp_env :: env
  dp_posthog :: posthog
  dp_ids :: "nat \<Rightarrow> uuid"
  dp_clock :: "nat \<Rightarrow> datetime"
  dp_encode :: "json \<Rightarrow> bytes"
  dp_datetime :: "datetime option \<Rightarrow> json"
  dp_fixed_headers :: "json \<Rightarrow> (string \<times> string) list"
  dp_date :: "nat \<Rightarrow> string"
  dp_exception :: "exn \<Rightarrow> py_exception"

definition position_json :: "deployment \<Rightarrow> position_response \<Rightarrow> json" where
  "position_json dp r = JObj [(''position_id'', JStr (uuid_str (pr_position_id r))),
     (''opened_at'', dp_datetime dp (pr_opened_at r))]"

definition plain_response :: "nat \<Rightarrow> json \<Rightarrow> http_response" where
  "plain_response status content = \<lparr>rp_status = status, rp_headers = [], rp_content = content\<rparr>"

definition route_response :: "deployment \<Rightarrow> exn + json \<Rightarrow> py_exception + http_response" where
  "route_response dp x = (case x of
     Inr content \<Rightarrow> Inr (plain_response 200 content)
   | Inl (HTTPException code detail) \<Rightarrow> Inr (plain_response code (JObj [(''detail'', JStr detail)]))
   | Inl exc \<Rightarrow> Inl (dp_exception dp exc))"

definition position_route :: "deployment \<Rightarrow> string \<Rightarrow> string \<Rightarrow> datetime \<Rightarrow> server \<Rightarrow> (exn + json) \<times> server" where
  "position_route dp path cookie now sv =
     (if path = ''/gate/positions''
      then map_prod (map_sum id (JArr \<circ> map (position_json dp))) id
        (with_session App (list_positions (dp_env dp) (Some cookie) now) sv)
      else (case uuid_of_text (drop (length ''/gate/positions/'') path) of
          None \<Rightarrow> (Inl (HTTPException 422 ''Unprocessable Content''), sv)
        | Some pid \<Rightarrow> map_prod (map_sum id (position_json dp)) id
            (with_session App (get_position (dp_env dp) (Some cookie) now pid) sv)))"

definition wire_response :: "deployment \<Rightarrow> nat \<Rightarrow> http_response \<Rightarrow> smoke_response" where
  "wire_response dp n r = \<lparr>sr_status = rp_status r,
     sr_headers = rp_headers r @ dp_fixed_headers dp (rp_content r) @ [(''Date'', dp_date dp n)],
     sr_content = dp_encode dp (rp_content r), sr_json = Some (rp_content r)\<rparr>"

definition deployed :: "deployment \<Rightarrow> (server \<times> process) client" where
  "deployed dp path cookie w =
     (let (sv, p) = w; n = pr_drawn p;
          (x, sv') = position_route dp path cookie (dp_clock dp n) sv;
          (r, _, p') = serve (dp_posthog dp) (dp_ids dp) \<lparr>rq_path = path, rq_query = [], rq_body = []\<rparr>
             (\<lambda>p. (route_response dp x, p)) p
      in (map_option (wire_response dp n) r, (sv', p')))"


section \<open>The modelled service passes\<close>

lemma serve_ok:
  "serve ph gen rq (\<lambda>p. (Inr r, p)) p =
    (Some (r\<lparr>rp_headers := AList.update ''X-Request-Id'' (uuid_hex (gen (pr_drawn p))) (rp_headers r)\<rparr>), None,
     p\<lparr>pr_drawn := Suc (pr_drawn p)\<rparr>)"
  by (cases p) (simp add: serve_def request_id_middleware_def fresh_id_def)

definition with_id :: "deployment \<Rightarrow> nat \<Rightarrow> nat \<Rightarrow> json \<Rightarrow> smoke_response" where
  "with_id dp n status content = wire_response dp n
     ((plain_response status content)\<lparr>rp_headers := [(''X-Request-Id'', uuid_hex (dp_ids dp n))]\<rparr>)"

lemma with_id_simps [simp]:
  "sr_status (with_id dp n status content) = status" "sr_json (with_id dp n status content) = Some content"
  "sr_content (with_id dp n status content) = dp_encode dp content"
  by (simp_all add: with_id_def wire_response_def plain_response_def)

text \<open>The headers the script compares depend on the content only.\<close>

lemma filtered_with_id: "filtered_headers (with_id dp n status content) = filtered_headers (with_id dp 0 status content)"
proof -
  have "map lower ''X-Request-Id'' = ''x-request-id''" "map lower ''Date'' = ''date''" by code_simp+
  then show ?thesis
    by (simp add: filtered_headers_def with_id_def wire_response_def plain_response_def ignored_headers_def)
qed

lemma deployed_listing:
  assumes "identity_ok (sv_db sv)" "positions_distinct (sv_db sv)"
    and "logged_in (dp_env dp) (sv_db sv) cookie (dp_clock dp (pr_drawn p)) = Some u"
  shows "deployed dp ''/gate/positions'' cookie (sv, p) =
    (Some (with_id dp (pr_drawn p) 200 (JArr (map (position_json dp \<circ> position_response_of)
       (filter (\<lambda>r. p_user_id r = u) (t_positions (sv_db sv)))))), (sv, p\<lparr>pr_drawn := Suc (pr_drawn p)\<rparr>))"
  using positions_law [OF assms(1,2), of "dp_env dp" "Some cookie" "dp_clock dp (pr_drawn p)"] assms
  by (simp add: deployed_def position_route_def route_response_def serve_ok with_id_def plain_response_def Let_def)

lemma deployed_missing:
  assumes "identity_ok (sv_db sv)" "positions_distinct (sv_db sv)"
    and "logged_in (dp_env dp) (sv_db sv) cookie (dp_clock dp (pr_drawn p)) = Some u"
    and "\<not> (\<exists>r \<in> set (t_positions (sv_db sv)). p_user_id r = u \<and> p_id r = pid)"
  shows "deployed dp (''/gate/positions/'' @ uuid_str pid) cookie (sv, p) =
    (Some (with_id dp (pr_drawn p) 404 (JObj [(''detail'', JStr ''not found'')])), (sv, p\<lparr>pr_drawn := Suc (pr_drawn p)\<rparr>))"
proof -
  have "find (\<lambda>r. p_user_id r = u \<and> p_id r = pid) (t_positions (sv_db sv)) = None"
    using assms(4) by (simp add: find_None_iff)
  then have "with_session App (get_position (dp_env dp) (Some cookie) (dp_clock dp (pr_drawn p)) pid) sv =
      (Inl (HTTPException 404 ''not found''), sv)"
    using positions_law [OF assms(1,2), of "dp_env dp" "Some cookie" "dp_clock dp (pr_drawn p)" pid] assms(3) by simp
  then show ?thesis
    by (simp add: deployed_def position_route_def route_response_def serve_ok with_id_def plain_response_def Let_def)
qed

lemma row_position_json [simp]: "row_position (position_json dp r) = Some (uuid_str (pr_position_id r))"
  by (simp add: row_position_def position_json_def)

lemma row_positions_json:
  "row_positions (Some (JArr (map (position_json dp \<circ> position_response_of) rs))) = Some (map (uuid_str \<circ> p_id) rs)"
proof -
  have "those (map (\<lambda>r. Some (f r)) rs) = Some (map f rs)" for f :: "position_row \<Rightarrow> string" by (induction rs) auto
  then show ?thesis
    by (simp add: row_positions_def json_rows_def o_def position_response_of_def)
qed

lemma smoke_run_steps:
  assumes "get ''/gate/positions'' user_cookie w = (Some listing, w1)" "sr_status listing = 200"
    and "sr_json listing = Some (JArr (row # rows))" "row_position row = Some pid"
    and "get (''/gate/positions/'' @ pid) admin_cookie w1 = (Some real_404, w2)"
    and "get (''/gate/positions/'' @ uuid_str fake) admin_cookie w2 = (Some other, w3)"
    and "get ''/gate/positions'' admin_cookie w3 = (Some admin_listing, w4)"
    and "row_positions (sr_json admin_listing) = Some ids"
  shows "smoke_run get fake admin_cookie user_cookie w = (Some (smoke_failures pid real_404 other ids), w4)"
  using assms by (simp add: smoke_run_def smoke_bind_def json_rows_def)

text \<open>
  C12: The operator's isolation check passes against the modelled application. With a session of a user
  who owns a position and a session of another account, the script finds no failure whatever the two accounts
  hold besides: the other account, administrator or not, gets the same \<open>404\<close> in status, bytes and compared
  headers for the user's real position as for an identifier of no position of its own, its own list does not show it, and
  the four requests leave the server's data as they were.
\<close>

theorem smoke_passes:
  assumes "identity_ok (sv_db sv)" "positions_distinct (sv_db sv)"
    and "\<forall>n. logged_in (dp_env dp) (sv_db sv) user_cookie (dp_clock dp n) = Some u"
    and "\<forall>n. logged_in (dp_env dp) (sv_db sv) admin_cookie (dp_clock dp n) = Some a" "a \<noteq> u"
    and "\<exists>r \<in> set (t_positions (sv_db sv)). p_user_id r = u"
    and "\<forall>r \<in> set (t_positions (sv_db sv)). p_user_id r = a \<longrightarrow> p_id r \<noteq> fake"
  shows "\<exists>p'. smoke_run (deployed dp) fake admin_cookie user_cookie (sv, p) = (Some [], (sv, p'))"
proof -
  let ?d = "t_positions (sv_db sv)"
  let ?own = "\<lambda>v. filter (\<lambda>r. p_user_id r = v) ?d"
  note listed = deployed_listing [OF assms(1,2)] and missed = deployed_missing [OF assms(1,2)]
  from assms(6) obtain r rs where own: "?own u = r # rs" by (cases "?own u") (auto simp: filter_empty_conv)
  then have r: "r \<in> set ?d" "p_user_id r = u"
    using filter_eq_ConsD [OF own] by auto
  have only: "p_user_id q \<noteq> a" if "q \<in> set ?d" "p_id q = p_id r" for q
  proof -
    have "inj_on p_id (set ?d)" using assms(2) by (simp add: positions_distinct_def distinct_map)
    with that r(1) have "q = r" by (simp add: inj_onD)
    with r(2) assms(5) show ?thesis by simp
  qed
  let ?pid = "uuid_str (p_id r)" and ?nf = "JObj [(''detail'', JStr ''not found'')]"
  let ?fail = "\<lambda>n m. smoke_failures ?pid (with_id dp n 404 ?nf) (with_id dp m 404 ?nf) (map (uuid_str \<circ> p_id) (?own a))"
  have "\<not> (\<exists>q \<in> set ?d. p_user_id q = a \<and> p_id q = p_id r)" using only by blast
  note real = missed [OF assms(4) [rule_format] this]
  have "\<not> (\<exists>q \<in> set ?d. p_user_id q = a \<and> p_id q = fake)" using assms(7) by blast
  note other = missed [OF assms(4) [rule_format] this]
  note first = listed [OF assms(3) [rule_format]] and last = listed [OF assms(4) [rule_format]]
  let ?p1 = "p\<lparr>pr_drawn := Suc (pr_drawn p)\<rparr>"
  let ?p2 = "?p1\<lparr>pr_drawn := Suc (pr_drawn ?p1)\<rparr>" let ?p3 = "?p2\<lparr>pr_drawn := Suc (pr_drawn ?p2)\<rparr>"
  have "\<exists>p'. smoke_run (deployed dp) fake admin_cookie user_cookie (sv, p) = (Some (?fail (pr_drawn ?p1) (pr_drawn ?p2)), (sv, p'))"
    by (rule exI, rule smoke_run_steps [OF first [of p] _ _ _ real [of ?p1] other [of ?p2] last [of ?p3]])
      (simp_all add: own row_positions_json position_response_of_def)+
  moreover have "?pid \<notin> set (map (uuid_str \<circ> p_id) (?own a))"
    using only by (simp add: image_iff) metis
  then have "?fail n m = []" for n m
    using filtered_with_id [of dp n] filtered_with_id [of dp m] by (simp add: smoke_failures_def)
  ultimately show ?thesis by simp
qed



section \<open>Witness\<close>

definition demo_deployment :: deployment where
  "demo_deployment = \<lparr>dp_env = id_env, dp_posthog = calm_posthog, dp_ids = (\<lambda>_. 0), dp_clock = (\<lambda>_. 0),
     dp_encode = json_dumps, dp_datetime = (\<lambda>_. JNull), dp_fixed_headers = (\<lambda>_. [(''content-type'', ''application/json'')]),
     dp_date = (\<lambda>_. ''today''), dp_exception = (\<lambda>_. leaking [])\<rparr>"

theorem smoke_passes_witness:
  "\<exists>p. smoke_run (deployed demo_deployment) 4 ''ad='' ''ck='' (id_server, new_process) = (Some [], (id_server, p))"
proof (rule smoke_passes)
  show "positions_distinct (sv_db id_server)" by (simp add: positions_distinct_def id_db_def)
  show "\<exists>r \<in> set (t_positions (sv_db id_server)). p_user_id r = 7" by (simp add: id_db_def id_position_def)
  show "\<forall>r \<in> set (t_positions (sv_db id_server)). p_user_id r = 9 \<longrightarrow> p_id r \<noteq> 4" by (simp add: id_db_def id_position_def)
qed (simp_all add: demo_deployment_def)

end
