(* ===== verification/Settings_Load.thy ===== *)
theory Settings_Load
  imports Settings_Values Telemetry
begin

text \<open>
  \<open>settings.py\<close>, reading the configuration. Pydantic merges the environment with the \<open>.env\<close> file and checks
  it against the declared fields; that is the parameter \<open>validate\<close>, which gives the settings or the list of
  what it rejected. The rest of the module decides what becomes of a rejection.
\<close>

record field_error =
  fe_loc :: "loc_part list"
  fe_type :: string
  fe_msg :: string

definition offender :: "field_error \<Rightarrow> string" where
  "offender err = join ''.'' (map loc_text (fe_loc err)) @ '': '' @ fe_type err"

definition rejection :: "string list \<Rightarrow> string" where
  "rejection offenders = ''Configuration rejected. Field names and failure types follow; values are '' @
     ''withheld deliberately, because a rejected key is often a credential '' @ ''(NN-34).'' @
     [CHR 0x0A] @ ''  '' @ join (CHR 0x0A # ''  '') offenders"

text \<open>The left value is the text of the \<open>RuntimeError\<close>.\<close>

definition load_settings :: "('env \<Rightarrow> field_error list + settings) \<Rightarrow> 'env \<Rightarrow> string + settings" where
  "load_settings validate env =
     (case validate env of Inr st \<Rightarrow> Inr st | Inl errors \<Rightarrow> Inl (rejection (sort (map offender errors))))"

text \<open>\<open>lru_cache\<close>: what was returned is kept, what was raised is not.\<close>

definition get_settings ::
    "('env \<Rightarrow> field_error list + settings) \<Rightarrow> 'env \<Rightarrow> settings option \<Rightarrow> (string + settings) \<times> settings option" where
  "get_settings validate env cache =
     (case cache of Some st \<Rightarrow> (Inr st, Some st)
      | None \<Rightarrow> (case load_settings validate env of Inl t \<Rightarrow> (Inl t, None) | Inr st \<Rightarrow> (Inr st, Some st)))"

lemma sort_offenders:
  assumes "mset (map (\<lambda>e. (fe_loc e, fe_type e)) es) = mset (map (\<lambda>e. (fe_loc e, fe_type e)) es')"
  shows "sort (map offender es) = sort (map offender es')"
proof -
  have o: "offender = (\<lambda>(l, t). join ''.'' (map loc_text l) @ '': '' @ t) \<circ> (\<lambda>e. (fe_loc e, fe_type e))"
    by (simp add: fun_eq_iff offender_def)
  have "mset (map offender es) = mset (map offender es')"
    unfolding o map_map [symmetric] mset_map [of _ "map _ _"] assms ..
  then show ?thesis by (simp add: properties_for_sort)
qed

text \<open>
  C14: A rejected configuration is reported without any of its values. The error's text lists exactly one line
  for each rejected field, in order, naming the field and the kind of failure; two configurations that fail on
  the same fields in the same ways give the same text, whatever the values are and in whatever order the
  failures were found. Once the settings have loaded, a later change of the environment has no effect.
\<close>

theorem rejected_settings_withheld:
  assumes "validate env = Inl es" "validate' env' = Inl es'"
    and "mset (map (\<lambda>e. (fe_loc e, fe_type e)) es) = mset (map (\<lambda>e. (fe_loc e, fe_type e)) es')"
  shows "load_settings validate env = load_settings validate' env' \<and>
    (\<exists>ls. load_settings validate env = Inl (rejection ls) \<and> sorted ls \<and> mset ls = mset (map offender es)) \<and>
    get_settings validate env None = (load_settings validate env, None) \<and>
    get_settings validate env (Some st) = (Inr st, Some st)"
proof -
  have "load_settings validate env = Inl (rejection (sort (map offender es)))"
    "load_settings validate' env' = Inl (rejection (sort (map offender es)))"
    using assms(1,2) sort_offenders [OF assms(3)] by (simp_all add: load_settings_def)
  then show ?thesis
    by (auto simp: get_settings_def intro!: exI [of _ "sort (map offender es)"])
qed

text \<open>Two environments with different secrets under the same undeclared keys, found in another order.\<close>

definition undeclared :: "string \<Rightarrow> string \<Rightarrow> field_error" where
  "undeclared key secret = \<lparr>fe_loc = [LocStr key], fe_type = ''extra_forbidden'', fe_msg = secret\<rparr>"

theorem rejected_settings_withheld_witness:
  "load_settings (\<lambda>s. Inl [undeclared ''a'' s, undeclared ''b'' s]) ''secret'' =
   load_settings (\<lambda>s. Inl [undeclared ''b'' s, undeclared ''a'' s]) ''other''"
  using rejected_settings_withheld [of "\<lambda>s. Inl [undeclared ''a'' s, undeclared ''b'' s]" "''secret''"
      "[undeclared ''a'' ''secret'', undeclared ''b'' ''secret'']"
      "\<lambda>s. Inl [undeclared ''b'' s, undeclared ''a'' s]" "''other''"
      "[undeclared ''b'' ''other'', undeclared ''a'' ''other'']"]
  by (simp add: undeclared_def add_mset_commute)

end
