(* ===== verification/Money.thy ===== *)
theory Money
  imports Py_Decimal Py_Text
begin

text \<open>
  \<open>money/units.py\<close> and \<open>money/api_types.py\<close>. The two units are names for the same decimals; what is code is
  the one conversion between them and the check a money field runs before Pydantic's own.
\<close>

definition spx_contract_multiplier :: int where "spx_contract_multiplier = 100"

definition points_to_usd :: "pydec \<Rightarrow> int \<Rightarrow> pydec" where
  "points_to_usd pts multiplier = dec_mul pts (dec_of_int multiplier)"

text \<open>The object a field is given: a decimal, a text, or anything else, by its type's name.\<close>

datatype field_value = AsDecimal pydec | AsStr string | AsOther string

datatype parse_error = InvalidOperation | NotMoney string

text \<open>
  \<open>Decimal(v)\<close> on an ASCII text: blanks around it and underscores are dropped first. The special values are
  \<open>Special\<close>: the constructor takes them.
\<close>

datatype decimal_value = Finite pydec | Special

definition special_text :: "string \<Rightarrow> bool" where
  "special_text s \<longleftrightarrow>
     (let body = map lower (snd (parse_sign s)); nan = (if take 1 body = ''s'' then drop 1 body else body)
      in body \<in> {''inf'', ''infinity''} \<or> take 3 nan = ''nan'' \<and> list_all is_digit (drop 3 nan))"

definition decimal_of :: "string \<Rightarrow> decimal_value option" where
  "decimal_of v = (let s = filter (\<lambda>c. c \<noteq> CHR ''_'') (strip v)
     in if special_text s then Some Special else map_option Finite (dec_parse s))"

definition parse_decimal_strict :: "field_value \<Rightarrow> parse_error + decimal_value" where
  "parse_decimal_strict v =
     (case v of
        AsDecimal d \<Rightarrow> Inr (Finite d)
      | AsStr t \<Rightarrow> (case decimal_of t of None \<Rightarrow> Inl InvalidOperation | Some d \<Rightarrow> Inr d)
      | AsOther kind \<Rightarrow> Inl (NotMoney (''expected Decimal or str, got '' @ kind)))"


section \<open>The wire form reads back\<close>

definition number_char :: "char \<Rightarrow> bool" where
  "number_char c \<longleftrightarrow> is_digit c \<or> c \<in> {CHR ''-'', CHR ''+'', CHR ''.'', CHR ''E''}"

lemma number_text: "list_all number_char (dec_str d)"
proof -
  have d: "c \<in> set (show_nat n) \<Longrightarrow> number_char c" for c n by (auto simp: number_char_def)
  have z: "number_char (CHR ''0'')" by (simp add: number_char_def is_digit_def)
  show ?thesis
    using d z by (auto simp: dec_str_def Let_def list_all_iff show_exp_def number_char_def dest: in_set_takeD in_set_dropD)
qed


lemma number_char_plain:
  assumes "number_char c"
  shows "\<not> is_space c" "c \<noteq> CHR ''_''" "lower c \<noteq> CHR ''i''" "lower c \<noteq> CHR ''n''"
proof -
  consider "is_digit c" | "c \<in> {CHR ''-'', CHR ''+'', CHR ''.'', CHR ''E''}"
    using assms by (auto simp: number_char_def)
  then have "\<not> is_space c \<and> c \<noteq> CHR ''_'' \<and> lower c \<noteq> CHR ''i'' \<and> lower c \<noteq> CHR ''n''"
  proof cases
    case 1
    then have d: "48 \<le> (of_char c :: nat)" "(of_char c :: nat) \<le> 57" by (simp_all add: is_digit_def)
    then have "\<not> CHR ''A'' \<le> c" by (simp add: less_eq_char_def)
    then have "lower c = c" by (simp add: lower_def)
    moreover have "c \<noteq> CHR ''_''" "c \<noteq> CHR ''i''" "c \<noteq> CHR ''n''" using d by auto
    ultimately show ?thesis using d by (simp add: is_space_def)
  next
    case 2
    have "lower (CHR ''E'') = CHR ''e''" by code_simp
    with 2 show ?thesis by (auto simp: is_space_def lower_def)
  qed
  then show "\<not> is_space c" "c \<noteq> CHR ''_''" "lower c \<noteq> CHR ''i''" "lower c \<noteq> CHR ''n''" by simp_all
qed

lemma number_not_special:
  assumes "list_all number_char s" shows "\<not> special_text s"
proof -
  let ?body = "map lower (snd (parse_sign s))"
  have "set (snd (parse_sign s)) \<subseteq> set s" by (auto simp: parse_sign_def split: list.splits if_splits)
  with assms have "CHR ''i'' \<notin> set ?body" "CHR ''n'' \<notin> set ?body"
    using number_char_plain by (fastforce simp: list_all_iff)+
  moreover have n: "CHR ''n'' \<in> set ?body" if "take 3 (if take 1 ?body = ''s'' then drop 1 ?body else ?body) = ''nan''"
  proof -
    have "CHR ''n'' \<in> set (take 3 (if take 1 ?body = ''s'' then drop 1 ?body else ?body))" unfolding that by simp
    then have "CHR ''n'' \<in> set (if take 1 ?body = ''s'' then drop 1 ?body else ?body)" by (rule in_set_takeD)
    then show ?thesis using in_set_dropD [of "CHR ''n''" 1 ?body] by (simp only: split: if_splits)
  qed
  moreover have i: "CHR ''i'' \<in> set ?body" if "?body \<in> {''inf'', ''infinity''}" using that by (elim insertE) simp_all
  ultimately show ?thesis unfolding special_text_def Let_def by (metis (no_types))
qed

text \<open>
  What the interface writes for an amount, it reads. The text of any amount passes the strict check of a
  money field and gives the same decimal, sign of zero and trailing zeros included; a number of another type
  (a float, an integer) is refused by name.
\<close>

theorem money_wire_roundtrip:
  "parse_decimal_strict (AsStr (dec_str d)) = Inr (Finite d) \<and>
   parse_decimal_strict (AsDecimal d) = Inr (Finite d) \<and>
   parse_decimal_strict (AsOther ''float'') = Inl (NotMoney ''expected Decimal or str, got float'')"
proof -
  have n: "list_all number_char (dec_str d)" by (rule number_text)
  then have "strip (dec_str d) = dec_str d"
    by (intro strip_id) (auto simp: list_all_iff dest: number_char_plain)
  moreover have "filter (\<lambda>c. c \<noteq> CHR ''_'') (dec_str d) = dec_str d"
    using n by (auto simp: list_all_iff filter_id_conv dest: number_char_plain)
  ultimately show ?thesis
    using number_not_special [OF n] by (simp add: parse_decimal_strict_def decimal_of_def dec_parse_str)
qed

text \<open>
  Converting points to dollars is exact while the product has at most 28 digits, the precision of the
  default context.
\<close>

theorem points_to_usd_exact:
  "dcoeff pts * nat \<bar>multiplier\<bar> < 10 ^ dec_prec \<Longrightarrow>
   dec_val (points_to_usd pts multiplier) = dec_val pts * of_int multiplier"
  by (simp add: points_to_usd_def dec_mul_exact dec_of_int_def) (simp add: dec_val_def abs_if)

text \<open>The contract of the first test: 4.45 points are 445.00 dollars.\<close>

theorem points_to_usd_exact_witness:
  "dec_val (points_to_usd (Dec False 445 (-2)) spx_contract_multiplier) = dec_val (Dec False 445 (-2)) * of_int 100"
  unfolding spx_contract_multiplier_def by (rule points_to_usd_exact) (simp add: dec_prec_def)

end
