(* ===== verification/Sql_Split.thy ===== *)
theory Sql_Split
  imports Py_Text
begin

text \<open>
  The splitter of migration 0002, \<open>_split_sql_statements\<close>: the queue's schema is one script, and the driver
  takes one statement at a time.
\<close>

text \<open>The loop: the rest of the script, the statements so far, the buffer and the quote flag.\<close>

fun split_loop :: "string \<Rightarrow> string list \<Rightarrow> string \<Rightarrow> bool \<Rightarrow> string list \<times> string" where
  "split_loop [] statements buf in_dollar_quote = (statements, buf)"
| "split_loop (c # r) statements buf in_dollar_quote =
     (if take 2 (c # r) = ''$$'' then split_loop (drop 1 r) statements (buf @ ''$$'') (\<not> in_dollar_quote)
      else if c = CHR '';'' \<and> \<not> in_dollar_quote then split_loop r (statements @ [buf @ [c]]) [] in_dollar_quote
      else split_loop r statements (buf @ [c]) in_dollar_quote)"

definition split_sql_statements :: "string \<Rightarrow> string list" where
  "split_sql_statements sql =
     (let (statements, buf) = split_loop sql [] [] False; tail = strip buf
      in if tail \<noteq> [] then statements @ [tail] else statements)"


section \<open>Nothing is lost\<close>

lemma dollars: "take 2 (c # r) = ''$$'' \<longleftrightarrow> c = CHR ''$'' \<and> (\<exists>r'. r = CHR ''$'' # r')"
  by (cases r) auto

declare split_loop.simps(2) [simp del]

lemma loop_steps:
  "split_loop (CHR ''$'' # CHR ''$'' # r) ss b q = split_loop r ss (b @ ''$$'') (\<not> q)"
  "split_loop (CHR '';'' # r) ss b False = split_loop r (ss @ [b @ '';'']) [] False"
  "c \<noteq> CHR ''$'' \<Longrightarrow> q \<or> c \<noteq> CHR '';'' \<Longrightarrow> split_loop (c # r) ss b q = split_loop r ss (b @ [c]) q"
  by (auto simp: split_loop.simps(2))

lemma split_loop_rejoin: "split_loop s ss b q = (ss', b') \<Longrightarrow> concat ss @ b @ s = concat ss' @ b'"
proof (induction s ss b q rule: split_loop.induct)
  case (2 c r ss b q)
  consider "take 2 (c # r) = ''$$''" | "take 2 (c # r) \<noteq> ''$$''" "c = CHR '';'' \<and> \<not> q"
    | "take 2 (c # r) \<noteq> ''$$''" "\<not> (c = CHR '';'' \<and> \<not> q)" by blast
  then show ?case
  proof cases
    case 1
    then obtain r' where r: "c = CHR ''$''" "r = CHR ''$'' # r'" by (auto simp only: dollars)
    have "split_loop (drop 1 r) ss (b @ ''$$'') (\<not> q) = (ss', b')"
      using "2.prems" unfolding split_loop.simps(2) if_P [OF 1] .
    from "2.IH"(1) [OF 1 this] r show ?thesis by simp
  next
    case 2
    have "split_loop r (ss @ [b @ [c]]) [] q = (ss', b')"
      using "2.prems" unfolding split_loop.simps(2) if_not_P [OF 2(1)] if_P [OF 2(2)] .
    from "2.IH"(2) [OF 2 this] show ?thesis by simp
  next
    case 3
    have "split_loop r ss (b @ [c]) q = (ss', b')"
      using "2.prems" unfolding split_loop.simps(2) if_not_P [OF 3(1)] if_not_P [OF 3(2)] .
    from "2.IH"(3) [OF 3 this] show ?thesis by simp
  qed
qed simp

text \<open>
  The pieces put together are the script, but for blanks around the last piece when it has no semicolon of
  its own (the comment promises the exact script).
\<close>

theorem split_keeps_script:
  "\<exists>ss a t c. split_sql_statements sql = ss @ (if t = [] then [] else [t]) \<and>
    sql = concat ss @ a @ t @ c \<and> list_all is_space (a @ c)"
proof -
  obtain ss b where l: "split_loop sql [] [] False = (ss, b)" by fastforce
  from strip_parts [of b] obtain a c where b: "b = a @ strip b @ c" "list_all is_space (a @ c)" by blast
  have "split_sql_statements sql = ss @ (if strip b = [] then [] else [strip b])"
    by (simp add: split_sql_statements_def l)
  moreover have "sql = concat ss @ a @ strip b @ c" using split_loop_rejoin [OF l] b(1) by simp
  ultimately show ?thesis using b(2) by blast
qed


section \<open>Every statement is found\<close>

text \<open>A script as it is written: statements made of plain text and dollar-quoted bodies.\<close>

datatype sql_chunk = Plain string | Dollar string

definition chunk_text :: "sql_chunk \<Rightarrow> string" where
  "chunk_text k = (case k of Plain t \<Rightarrow> t | Dollar t \<Rightarrow> ''$$'' @ t @ ''$$'')"

definition chunk_ok :: "sql_chunk \<Rightarrow> bool" where
  "chunk_ok k = (case k of Plain t \<Rightarrow> CHR ''$'' \<notin> set t \<and> CHR '';'' \<notin> set t | Dollar t \<Rightarrow> CHR ''$'' \<notin> set t)"

definition chunks_text :: "sql_chunk list \<Rightarrow> string" where
  "chunks_text ks = concat (map chunk_text ks)"

lemma loop_run:
  "CHR ''$'' \<notin> set t \<Longrightarrow> q \<or> CHR '';'' \<notin> set t \<Longrightarrow> split_loop (t @ r) ss b q = split_loop r ss (b @ t) q"
proof (induction t arbitrary: b)
  case (Cons c t)
  then have "split_loop (c # t @ r) ss b q = split_loop (t @ r) ss (b @ [c]) q" by (intro loop_steps(3)) auto
  with Cons.prems Cons.IH [of "b @ [c]"] show ?case by auto
qed simp

lemma loop_chunk:
  assumes "chunk_ok k" shows "split_loop (chunk_text k @ r) ss b False = split_loop r ss (b @ chunk_text k) False"
proof (cases k)
  case (Plain t)
  with assms show ?thesis by (simp add: chunk_text_def chunk_ok_def loop_run)
next
  case (Dollar t)
  with assms show ?thesis by (simp add: chunk_text_def chunk_ok_def loop_steps(1) loop_run)
qed

lemma loop_chunks:
  "list_all chunk_ok ks \<Longrightarrow> split_loop (chunks_text ks @ r) ss b False = split_loop r ss (b @ chunks_text ks) False"
  by (induction ks arbitrary: b) (simp_all add: chunks_text_def loop_chunk)

lemma loop_statements:
  "list_all (list_all chunk_ok) sts \<Longrightarrow>
   split_loop (concat (map (\<lambda>ks. chunks_text ks @ '';'') sts) @ r) ss [] False =
     split_loop r (ss @ map (\<lambda>ks. chunks_text ks @ '';'') sts) [] False"
proof (induction sts arbitrary: ss)
  case (Cons ks sts)
  let ?t = "concat (map (\<lambda>ks. chunks_text ks @ '';'') sts) @ r"
  have "split_loop (chunks_text ks @ '';'' @ ?t) ss [] False = split_loop ('';'' @ ?t) ss (chunks_text ks) False"
    using Cons.prems by (simp add: loop_chunks)
  also have "\<dots> = split_loop ?t (ss @ [chunks_text ks @ '';'']) [] False" by (simp add: loop_steps(2))
  finally show ?case using Cons by (simp)
qed simp

text \<open>
  The migration runs exactly the statements of the script, one at a time. A script that is a sequence of
  statements, each of plain text and dollar-quoted bodies closed by a semicolon, is split into just these
  statements in order, whatever semicolons the quoted bodies hold; text after the last one becomes a statement
  without the blanks around it, and no statement when it is blank.
\<close>

theorem split_sql_roundtrip:
  assumes "list_all (list_all chunk_ok) sts" "list_all chunk_ok rest"
  shows "split_sql_statements (concat (map (\<lambda>ks. chunks_text ks @ '';'') sts) @ chunks_text rest) =
    map (\<lambda>ks. chunks_text ks @ '';'') sts @
      (if strip (chunks_text rest) = [] then [] else [strip (chunks_text rest)])"
  using loop_statements [OF assms(1), of "chunks_text rest" "[]"] loop_chunks [OF assms(2), of "[]"]
  by (simp add: split_sql_statements_def Let_def)

theorem split_sql_roundtrip_witness:
  "split_sql_statements ''DO $$a;b;$$;DROP t; '' = [''DO $$a;b;$$;'', ''DROP t;'']"
  using split_sql_roundtrip [of "[[Plain ''DO '', Dollar ''a;b;''], [Plain ''DROP t'']]" "[Plain '' '']"]
  by (simp add: chunk_ok_def chunk_text_def chunks_text_def strip_def is_space_def)

end
