(* ===== verification/Migrations.thy ===== *)
theory Migrations
  imports Tables
begin

text \<open>
  The migrations under \<open>alembic/versions\<close>, as far as access goes: which objects each revision creates and drops, which
  privileges it grants and revokes, which policies it puts on which tables. Columns, keys and constraints are
  in the table descriptors; indexes, triggers, column defaults and the \<open>plpgsql\<close> extension carry no privilege of
  the application's and are left out. Statements act on a
  catalog the way Postgres does, dependencies included: of tables on the tables they refer to, of columns and of
  function signatures on the types they name, the row type of a table among them. A revision is its list of
  statements.
\<close>

section \<open>The catalog and its statements\<close>

text \<open>The names the scripts use; a serial column owns the sequence \<open><table>_id_seq\<close>.\<close>

datatype table_name =
    T_gate_money_probe | T_procrastinate_workers | T_procrastinate_jobs | T_procrastinate_periodic_defers
  | T_procrastinate_events | T_users | T_sessions | T_setup_tokens
  | T_audit_log | T_gate_user_scoped_probe | T_user_data_keys | T_fills
  | T_positions | T_legs | T_events | T_schwab_connections
  | T_broker_transactions | T_sync_runs
datatype type_name =
    Y_job_status | Y_job_event_type | Y_job_to_defer_v1
datatype function_name =
    F_login_lookup | F_defer_jobs_v1 | F_defer_periodic_job_v2 | F_fetch_job_v2
  | F_finish_job_v1 | F_cancel_job_v1 | F_retry_job_v1 | F_retry_job_v2
  | F_notify_queue_job_inserted_v1 | F_notify_queue_abort_job_v1 | F_trigger_function_status_events_insert_v1 | F_trigger_function_status_events_update_v1
  | F_trigger_function_scheduled_events_v1 | F_trigger_abort_requested_events_procedure_v1 | F_unlink_periodic_defers_v1 | F_register_worker_v1
  | F_unregister_worker_v1 | F_update_heartbeat_v1 | F_prune_stalled_workers_v1
datatype policy_name = N_user_isolation | N_self_or_admin | N_append_only
datatype role_name = Morai_app

datatype db_object = OTable table_name | OSequence table_name | OFunction function_name | ODatabase | OSchemaPublic
datatype grantee = Public | Role role_name
datatype privilege = Verb verb | USAGE | EXECUTE | CONNECT

text \<open>A type is named, or the row type of a table; what uses one is a column or the signature of a function.\<close>

datatype type_ref = Named type_name | RowOf table_name
datatype type_user = ColumnOf table_name | SignatureOf function_name

record catalog =
  ct_tables :: "table_name set"
  ct_refs :: "(table_name \<times> table_name) set"
  ct_sequences :: "table_name set"
  ct_types :: "type_name set"
  ct_uses :: "(type_user \<times> type_ref) set"
  ct_functions :: "(function_name \<times> bool) set"
  ct_roles :: "(role_name \<times> bool \<times> bool) set"
  ct_grants :: "(grantee \<times> db_object \<times> privilege) set"
  ct_rls :: "table_name set"
  ct_forced :: "table_name set"
  ct_policies :: "(table_name \<times> policy_name \<times> policy) set"

definition empty_catalog :: catalog where
  "empty_catalog = \<lparr>ct_tables = {}, ct_refs = {}, ct_sequences = {}, ct_types = {}, ct_uses = {}, ct_functions = {}, ct_roles = {},
     ct_grants = {}, ct_rls = {}, ct_forced = {}, ct_policies = {}\<rparr>"

datatype ddl_error = DuplicateObject | UndefinedObject | DependentObjects | NotSuperuser | PasswordMissing

text \<open>
  A table with the tables it refers to, the types of its columns and whether it has a serial column; a function
  with the types of its signature (the body is text, on which Postgres records no dependency) and whether it is
  \<open>SECURITY DEFINER\<close>; a role with its \<open>SUPERUSER\<close> and \<open>BYPASSRLS\<close> flags.
\<close>

datatype ddl =
    CreateTable table_name "table_name list" "type_name list" bool
  | DropTable table_name
  | DropTableIfExists table_name
  | CreateType type_name
  | DropTypeIfExists type_name
  | CreateFunction function_name "type_ref list" bool
  | DropFunction function_name
  | DropFunctionIfExistsCascade function_name
  | CreateRole role_name bool bool
  | AlterRolePassword role_name
  | DropRoleIfExists role_name
  | Grant "privilege list" db_object grantee
  | Revoke "privilege list" db_object grantee
  | EnableRls table_name
  | ForceRls table_name
  | CreatePolicy policy_name table_name policy
  | DropPolicy policy_name table_name

definition has_role :: "catalog \<Rightarrow> role_name \<Rightarrow> bool" where
  "has_role c r \<longleftrightarrow> r \<in> fst ` ct_roles c"

definition has_object :: "catalog \<Rightarrow> db_object \<Rightarrow> bool" where
  "has_object c ob = (case ob of
     OTable t \<Rightarrow> t \<in> ct_tables c
   | OSequence t \<Rightarrow> t \<in> ct_sequences c
   | OFunction f \<Rightarrow> f \<in> fst ` ct_functions c
   | ODatabase \<Rightarrow> True
   | OSchemaPublic \<Rightarrow> True)"

definition has_type :: "catalog \<Rightarrow> type_ref \<Rightarrow> bool" where
  "has_type c y = (case y of Named n \<Rightarrow> n \<in> ct_types c | RowOf t \<Rightarrow> t \<in> ct_tables c)"

definition has_grantee :: "catalog \<Rightarrow> grantee \<Rightarrow> bool" where
  "has_grantee c g = (case g of Public \<Rightarrow> True | Role r \<Rightarrow> has_role c r)"

definition without_table :: "table_name \<Rightarrow> catalog \<Rightarrow> catalog" where
  "without_table t c = c\<lparr>
     ct_tables := Set.filter (\<lambda>x. x \<noteq> t) (ct_tables c),
     ct_refs := Set.filter (\<lambda>(a, b). a \<noteq> t) (ct_refs c),
     ct_uses := Set.filter (\<lambda>(a, b). a \<noteq> ColumnOf t) (ct_uses c),
     ct_sequences := Set.filter (\<lambda>x. x \<noteq> t) (ct_sequences c),
     ct_grants := Set.filter (\<lambda>(g, ob, p). ob \<noteq> OTable t \<and> ob \<noteq> OSequence t) (ct_grants c),
     ct_rls := Set.filter (\<lambda>x. x \<noteq> t) (ct_rls c),
     ct_forced := Set.filter (\<lambda>x. x \<noteq> t) (ct_forced c),
     ct_policies := Set.filter (\<lambda>(a, n, p). a \<noteq> t) (ct_policies c)\<rparr>"

text \<open>A table that another refers to, or whose row type a signature names, is not dropped.\<close>

definition drop_table :: "table_name \<Rightarrow> catalog \<Rightarrow> ddl_error + catalog" where
  "drop_table t c =
     (if t \<notin> ct_tables c then Inl UndefinedObject
      else if \<exists>(a, b) \<in> ct_refs c. b = t \<and> a \<noteq> t then Inl DependentObjects
      else if \<exists>(a, b) \<in> ct_uses c. b = RowOf t then Inl DependentObjects
      else Inr (without_table t c))"

definition without_function :: "function_name \<Rightarrow> catalog \<Rightarrow> catalog" where
  "without_function f c = c\<lparr>ct_functions := Set.filter (\<lambda>(g, d). g \<noteq> f) (ct_functions c),
     ct_uses := Set.filter (\<lambda>(a, b). a \<noteq> SignatureOf f) (ct_uses c),
     ct_grants := Set.filter (\<lambda>(g, ob, p). ob \<noteq> OFunction f) (ct_grants c)\<rparr>"

text \<open>A new function may be called by everybody; a role that still holds a privilege is not dropped.\<close>

definition run_ddl :: "ddl \<Rightarrow> catalog \<Rightarrow> ddl_error + catalog" where
  "run_ddl st c = (case st of
     CreateTable t parents types serial \<Rightarrow>
       if t \<in> ct_tables c then Inl DuplicateObject
       else if \<not> list_all (\<lambda>p. p \<in> ct_tables c) parents \<or> \<not> list_all (\<lambda>y. y \<in> ct_types c) types then Inl UndefinedObject
       else Inr (c\<lparr>ct_tables := insert t (ct_tables c), ct_refs := set (map (Pair t) parents) \<union> ct_refs c,
          ct_uses := set (map (\<lambda>y. (ColumnOf t, Named y)) types) \<union> ct_uses c,
          ct_sequences := (if serial then insert t (ct_sequences c) else ct_sequences c)\<rparr>)
   | DropTable t \<Rightarrow> drop_table t c
   | DropTableIfExists t \<Rightarrow> if t \<in> ct_tables c then drop_table t c else Inr c
   | CreateType y \<Rightarrow> if y \<in> ct_types c then Inl DuplicateObject else Inr (c\<lparr>ct_types := insert y (ct_types c)\<rparr>)
   | DropTypeIfExists y \<Rightarrow>
       if \<exists>(a, b) \<in> ct_uses c. b = Named y then Inl DependentObjects
       else Inr (c\<lparr>ct_types := Set.filter (\<lambda>x. x \<noteq> y) (ct_types c)\<rparr>)
   | CreateFunction f types d \<Rightarrow>
       if f \<in> fst ` ct_functions c then Inl DuplicateObject
       else if \<not> list_all (has_type c) types then Inl UndefinedObject
       else Inr (c\<lparr>ct_functions := insert (f, d) (ct_functions c),
          ct_uses := set (map (Pair (SignatureOf f)) types) \<union> ct_uses c,
          ct_grants := insert (Public, OFunction f, EXECUTE) (ct_grants c)\<rparr>)
   | DropFunction f \<Rightarrow> if f \<in> fst ` ct_functions c then Inr (without_function f c) else Inl UndefinedObject
   | DropFunctionIfExistsCascade f \<Rightarrow> Inr (without_function f c)
   | CreateRole r su bypass \<Rightarrow>
       if has_role c r then Inl DuplicateObject else Inr (c\<lparr>ct_roles := insert (r, su, bypass) (ct_roles c)\<rparr>)
   | AlterRolePassword r \<Rightarrow> if has_role c r then Inr c else Inl UndefinedObject
   | DropRoleIfExists r \<Rightarrow>
       if \<not> has_role c r then Inr c
       else if \<exists>(g, ob, p) \<in> ct_grants c. g = Role r then Inl DependentObjects
       else Inr (c\<lparr>ct_roles := Set.filter (\<lambda>(x, su, b). x \<noteq> r) (ct_roles c)\<rparr>)
   | Grant ps ob g \<Rightarrow>
       if has_object c ob \<and> has_grantee c g
       then Inr (c\<lparr>ct_grants := set (map (\<lambda>p. (g, ob, p)) ps) \<union> ct_grants c\<rparr>) else Inl UndefinedObject
   | Revoke ps ob g \<Rightarrow>
       if has_object c ob \<and> has_grantee c g
       then Inr (c\<lparr>ct_grants := Set.filter (\<lambda>(g', ob', p). \<not> (g' = g \<and> ob' = ob \<and> p \<in> set ps)) (ct_grants c)\<rparr>)
       else Inl UndefinedObject
   | EnableRls t \<Rightarrow> if t \<in> ct_tables c then Inr (c\<lparr>ct_rls := insert t (ct_rls c)\<rparr>) else Inl UndefinedObject
   | ForceRls t \<Rightarrow> if t \<in> ct_tables c then Inr (c\<lparr>ct_forced := insert t (ct_forced c)\<rparr>) else Inl UndefinedObject
   | CreatePolicy n t p \<Rightarrow>
       if t \<notin> ct_tables c then Inl UndefinedObject
       else if \<exists>(a, m, q) \<in> ct_policies c. a = t \<and> m = n then Inl DuplicateObject
       else Inr (c\<lparr>ct_policies := insert (t, n, p) (ct_policies c)\<rparr>)
   | DropPolicy n t \<Rightarrow>
       if \<exists>(a, m, q) \<in> ct_policies c. a = t \<and> m = n
       then Inr (c\<lparr>ct_policies := Set.filter (\<lambda>(a, m, q). \<not> (a = t \<and> m = n)) (ct_policies c)\<rparr>)
       else Inl UndefinedObject)"

primrec run_script :: "ddl list \<Rightarrow> catalog \<Rightarrow> ddl_error + catalog" where
  "run_script [] c = Inr c"
| "run_script (st # sts) c = (case run_ddl st c of Inl x \<Rightarrow> Inl x | Inr c' \<Rightarrow> run_script sts c')"


section \<open>The revisions\<close>

text \<open>Of the environment a migration reads whether its role is a superuser, and the password variable.\<close>

record migration_env =
  me_superuser :: bool
  me_app_db_password :: "string option"

type_synonym script = "migration_env \<Rightarrow> catalog \<Rightarrow> ddl_error + catalog"

definition statements :: "ddl list \<Rightarrow> script" where
  "statements sts = (\<lambda>me. run_script sts)"

abbreviation crud :: "privilege list" where "crud \<equiv> [Verb SELECT, Verb INSERT, Verb UPDATE, Verb DELETE]"
abbreviation no_update :: "privilege list" where "no_update \<equiv> [Verb SELECT, Verb INSERT, Verb DELETE]"
abbreviation serial_use :: "privilege list" where "serial_use \<equiv> [USAGE, Verb SELECT]"

definition protect :: "table_name \<Rightarrow> ddl list" where
  "protect t = [EnableRls t, ForceRls t, CreatePolicy N_user_isolation t UserIsolation]"

definition upgrade_0001 :: script where
  "upgrade_0001 = statements [CreateTable T_gate_money_probe [] [] True]"

definition downgrade_0001 :: script where
  "downgrade_0001 = statements [DropTable T_gate_money_probe]"

text \<open>
  The vendored schema of the queue, by the objects it creates; the functions are Procrastinate's own and run
  with the rights of their caller.
\<close>

definition queue_functions :: "function_name list" where
  "queue_functions = [F_defer_jobs_v1, F_defer_periodic_job_v2,
     F_fetch_job_v2, F_finish_job_v1, F_cancel_job_v1,
     F_retry_job_v1, F_retry_job_v2,
     F_notify_queue_job_inserted_v1, F_notify_queue_abort_job_v1,
     F_trigger_function_status_events_insert_v1,
     F_trigger_function_status_events_update_v1,
     F_trigger_function_scheduled_events_v1,
     F_trigger_abort_requested_events_procedure_v1, F_unlink_periodic_defers_v1,
     F_register_worker_v1, F_unregister_worker_v1,
     F_update_heartbeat_v1, F_prune_stalled_workers_v1]"

text \<open>The types of the scripts' own that a signature names: \<open>fetch_job\<close> returns a row of the jobs table.\<close>

definition signature_types :: "function_name \<Rightarrow> type_ref list" where
  "signature_types f = (case f of
     F_defer_jobs_v1 \<Rightarrow> [Named Y_job_to_defer_v1]
   | F_fetch_job_v2 \<Rightarrow> [RowOf T_procrastinate_jobs]
   | F_finish_job_v1 \<Rightarrow> [Named Y_job_status]
   | _ \<Rightarrow> [])"

definition queue_schema :: "ddl list" where
  "queue_schema =
     [CreateType Y_job_status, CreateType Y_job_event_type,
      CreateType Y_job_to_defer_v1,
      CreateTable T_procrastinate_workers [] [] True,
      CreateTable T_procrastinate_jobs [T_procrastinate_workers] [Y_job_status] True,
      CreateTable T_procrastinate_periodic_defers [T_procrastinate_jobs] [] True,
      CreateTable T_procrastinate_events [T_procrastinate_jobs] [Y_job_event_type] True] @
     map (\<lambda>f. CreateFunction f (signature_types f) False) queue_functions"

definition upgrade_0002 :: script where
  "upgrade_0002 = statements queue_schema"

definition downgrade_0002 :: script where
  "downgrade_0002 = statements (
     [DropTableIfExists T_procrastinate_events, DropTableIfExists T_procrastinate_periodic_defers,
      DropTableIfExists T_procrastinate_jobs, DropTableIfExists T_procrastinate_workers] @
     map DropFunctionIfExistsCascade queue_functions @
     [DropTypeIfExists Y_job_to_defer_v1, DropTypeIfExists Y_job_event_type,
      DropTypeIfExists Y_job_status])"

text \<open>0003 checks its role and the password first, and only alters a role that is there already.\<close>

definition identity_tables :: "ddl list" where
  "identity_tables =
     [CreateTable T_users [] [] False, CreateTable T_sessions [T_users] [] False, CreateTable T_setup_tokens [T_users] [] False,
      CreateTable T_audit_log [T_users, T_users] [] False, CreateTable T_gate_user_scoped_probe [T_users] [] False]"

definition identity_grants :: "ddl list" where
  "identity_grants =
     [Grant [CONNECT] ODatabase (Role Morai_app), Grant [USAGE] OSchemaPublic (Role Morai_app)] @
     map (\<lambda>t. Grant crud (OTable t) (Role Morai_app))
       [T_users, T_sessions, T_setup_tokens, T_audit_log, T_gate_user_scoped_probe] @
     [Grant [Verb SELECT, Verb INSERT] (OTable T_gate_money_probe) (Role Morai_app),
      Grant serial_use (OSequence T_gate_money_probe) (Role Morai_app)]"

definition identity_policies :: "ddl list" where
  "identity_policies =
     concat (map (\<lambda>t. [EnableRls t, ForceRls t]) [T_users, T_audit_log, T_gate_user_scoped_probe]) @
     [CreatePolicy N_user_isolation T_gate_user_scoped_probe UserIsolation,
      CreatePolicy N_self_or_admin T_users SelfOrAdmin,
      CreatePolicy N_append_only T_audit_log AppendOnly]"

definition upgrade_0003 :: script where
  "upgrade_0003 me c =
     (if \<not> me_superuser me then Inl NotSuperuser
      else if me_app_db_password me = None then Inl PasswordMissing
      else run_script ([if has_role c Morai_app then AlterRolePassword Morai_app
            else CreateRole Morai_app False False] @ identity_tables @ identity_grants @ identity_policies) c)"

definition downgrade_0003 :: script where
  "downgrade_0003 = statements (map DropTable [T_gate_user_scoped_probe, T_audit_log, T_setup_tokens, T_sessions, T_users] @
     [Revoke [Verb SELECT, Verb INSERT] (OTable T_gate_money_probe) (Role Morai_app),
      Revoke serial_use (OSequence T_gate_money_probe) (Role Morai_app),
      Revoke [USAGE] OSchemaPublic (Role Morai_app), Revoke [CONNECT] ODatabase (Role Morai_app),
      DropRoleIfExists Morai_app])"

definition upgrade_0004 :: script where
  "upgrade_0004 = statements [CreateFunction F_login_lookup [] True, Grant [EXECUTE] (OFunction F_login_lookup) (Role Morai_app)]"

definition downgrade_0004 :: script where
  "downgrade_0004 = statements [DropFunction F_login_lookup]"

definition upgrade_0005 :: script where
  "upgrade_0005 = statements [Revoke [EXECUTE] (OFunction F_login_lookup) Public]"

definition downgrade_0005 :: script where
  "downgrade_0005 = statements [Grant [EXECUTE] (OFunction F_login_lookup) Public]"

definition upgrade_0006 :: script where
  "upgrade_0006 = statements [Revoke [Verb SELECT, Verb UPDATE, Verb DELETE] (OTable T_audit_log) (Role Morai_app)]"

definition downgrade_0006 :: script where
  "downgrade_0006 = statements [Grant [Verb SELECT, Verb UPDATE, Verb DELETE] (OTable T_audit_log) (Role Morai_app)]"

definition upgrade_0007 :: script where
  "upgrade_0007 = statements (
     [CreateTable T_user_data_keys [T_users] [] False, CreateTable T_fills [T_users] [] False,
      Grant no_update (OTable T_user_data_keys) (Role Morai_app), Grant no_update (OTable T_fills) (Role Morai_app)] @
     protect T_user_data_keys @ protect T_fills)"

definition downgrade_0007 :: script where
  "downgrade_0007 = statements [Revoke no_update (OTable T_fills) (Role Morai_app),
     Revoke no_update (OTable T_user_data_keys) (Role Morai_app), DropTable T_fills, DropTable T_user_data_keys]"

definition new_tables_0008 :: "table_name list" where
  "new_tables_0008 = [T_positions, T_legs, T_events]"

definition upgrade_0008 :: script where
  "upgrade_0008 = statements (
     [CreateTable T_positions [T_users] [] False, CreateTable T_legs [T_positions, T_users] [] False,
      CreateTable T_events [T_users, T_positions] [] False] @
     map (\<lambda>t. Grant no_update (OTable t) (Role Morai_app)) new_tables_0008 @ concat (map protect new_tables_0008))"

definition downgrade_0008 :: script where
  "downgrade_0008 = statements (map (\<lambda>t. Revoke no_update (OTable t) (Role Morai_app)) (rev new_tables_0008) @
     [DropTable T_events, DropTable T_legs, DropTable T_positions])"

definition upgrade_0009 :: script where
  "upgrade_0009 = statements [DropPolicy N_user_isolation T_gate_user_scoped_probe,
     Revoke crud (OTable T_gate_user_scoped_probe) (Role Morai_app),
     Revoke [Verb SELECT, Verb INSERT] (OTable T_gate_money_probe) (Role Morai_app),
     Revoke serial_use (OSequence T_gate_money_probe) (Role Morai_app),
     DropTable T_gate_user_scoped_probe, DropTable T_gate_money_probe]"

definition downgrade_0009 :: script where
  "downgrade_0009 = statements (
     [CreateTable T_gate_money_probe [] [] True,
      CreateTable T_gate_user_scoped_probe [T_users] [] False,
      Grant [Verb SELECT, Verb INSERT] (OTable T_gate_money_probe) (Role Morai_app),
      Grant serial_use (OSequence T_gate_money_probe) (Role Morai_app),
      Grant crud (OTable T_gate_user_scoped_probe) (Role Morai_app)] @ protect T_gate_user_scoped_probe)"

definition upgrade_0010 :: script where
  "upgrade_0010 = statements ([CreateTable T_schwab_connections [T_users] [] False,
     Grant crud (OTable T_schwab_connections) (Role Morai_app)] @ protect T_schwab_connections)"

definition downgrade_0010 :: script where
  "downgrade_0010 = statements [Revoke crud (OTable T_schwab_connections) (Role Morai_app), DropTable T_schwab_connections]"

definition upgrade_0011 :: script where
  "upgrade_0011 = statements ([CreateTable T_broker_transactions [T_users] [] False,
     Grant no_update (OTable T_broker_transactions) (Role Morai_app)] @ protect T_broker_transactions)"

definition downgrade_0011 :: script where
  "downgrade_0011 = statements [Revoke no_update (OTable T_broker_transactions) (Role Morai_app), DropTable T_broker_transactions]"

definition upgrade_0012 :: script where
  "upgrade_0012 = statements ([CreateTable T_sync_runs [T_users] [] False,
     Grant no_update (OTable T_sync_runs) (Role Morai_app)] @ protect T_sync_runs)"

definition downgrade_0012 :: script where
  "downgrade_0012 = statements [Revoke no_update (OTable T_sync_runs) (Role Morai_app), DropTable T_sync_runs]"

definition upgrade_0013 :: script where
  "upgrade_0013 = statements [Grant [Verb INSERT, Verb SELECT] (OTable T_procrastinate_jobs) (Role Morai_app),
     Grant serial_use (OSequence T_procrastinate_jobs) (Role Morai_app),
     Grant [Verb INSERT] (OTable T_procrastinate_events) (Role Morai_app),
     Grant serial_use (OSequence T_procrastinate_events) (Role Morai_app)]"

definition downgrade_0013 :: script where
  "downgrade_0013 = statements [Revoke serial_use (OSequence T_procrastinate_events) (Role Morai_app),
     Revoke [Verb INSERT] (OTable T_procrastinate_events) (Role Morai_app),
     Revoke serial_use (OSequence T_procrastinate_jobs) (Role Morai_app),
     Revoke [Verb INSERT, Verb SELECT] (OTable T_procrastinate_jobs) (Role Morai_app)]"

text \<open>The chain of \<open>down_revision\<close>s is linear; Alembic runs it in order.\<close>

definition revisions :: "(script \<times> script) list" where
  "revisions = [(upgrade_0001, downgrade_0001), (upgrade_0002, downgrade_0002), (upgrade_0003, downgrade_0003),
     (upgrade_0004, downgrade_0004), (upgrade_0005, downgrade_0005), (upgrade_0006, downgrade_0006),
     (upgrade_0007, downgrade_0007), (upgrade_0008, downgrade_0008), (upgrade_0009, downgrade_0009),
     (upgrade_0010, downgrade_0010), (upgrade_0011, downgrade_0011), (upgrade_0012, downgrade_0012),
     (upgrade_0013, downgrade_0013)]"

primrec run_scripts :: "script list \<Rightarrow> script" where
  "run_scripts [] me c = Inr c"
| "run_scripts (m # ms) me c = (case m me c of Inl x \<Rightarrow> Inl x | Inr c' \<Rightarrow> run_scripts ms me c')"

text \<open>\<open>do_run_migrations\<close> of \<open>alembic/env.py\<close>: one transaction around all of them.\<close>

definition do_run_migrations :: "script list \<Rightarrow> migration_env \<Rightarrow> catalog \<Rightarrow> ddl_error option \<times> catalog" where
  "do_run_migrations ms me c = (case run_scripts ms me c of Inl x \<Rightarrow> (Some x, c) | Inr c' \<Rightarrow> (None, c'))"



section \<open>Down to the queue, and no further\<close>

text \<open>Each downgrade, run right after its upgrade, gives back the catalog it started from.\<close>

primrec undoes :: "migration_env \<Rightarrow> catalog \<Rightarrow> (script \<times> script) list \<Rightarrow> bool" where
  "undoes me c [] = True"
| "undoes me c (r # rs) = (case fst r me c of Inl x \<Rightarrow> False | Inr c' \<Rightarrow> snd r me c' = Inr c \<and> undoes me c' rs)"

lemma run_scripts_append:
  "run_scripts (ms @ ns) me c = (case run_scripts ms me c of Inl x \<Rightarrow> Inl x | Inr c' \<Rightarrow> run_scripts ns me c')"
  by (induction ms arbitrary: c) (simp_all split: sum.split)

lemma undoes_append:
  assumes "undoes me c (rs @ qs)"
  obtains c' where "run_scripts (map fst rs) me c = Inr c'" "run_scripts (map snd (rev rs)) me c' = Inr c"
    "undoes me c' qs"
proof -
  have "\<exists>c'. run_scripts (map fst rs) me c = Inr c' \<and> run_scripts (map snd (rev rs)) me c' = Inr c \<and> undoes me c' qs"
    using assms
  proof (induction rs arbitrary: c)
    case (Cons r rs)
    then obtain d where "fst r me c = Inr d" "snd r me d = Inr c" "undoes me d (rs @ qs)" by (auto split: sum.splits)
    moreover from Cons.IH [OF this(3)] obtain c' where
      "run_scripts (map fst rs) me d = Inr c'" "run_scripts (map snd (rev rs)) me c' = Inr d" "undoes me c' qs" by blast
    ultimately show ?case by (simp add: run_scripts_append)
  qed simp
  with that show ?thesis by blast
qed

text \<open>The chain from a catalog on: up and down between any two of its revisions.\<close>

lemma undoes_between:
  assumes "undoes me c0 rs" "m \<le> n"
  obtains c d where "run_scripts (map fst (take m rs)) me c0 = Inr c" "run_scripts (map fst (take n rs)) me c0 = Inr d"
    "run_scripts (map snd (rev (drop m (take n rs)))) me d = Inr c"
proof -
  have t: "take n rs = take m rs @ drop m (take n rs)"
    using assms(2) by (metis append_take_drop_id min.absorb1 take_take)
  have "undoes me c0 (take m rs @ (drop m (take n rs) @ drop n rs))"
    using assms(1) t by (metis append.assoc append_take_drop_id)
  then obtain c where c: "run_scripts (map fst (take m rs)) me c0 = Inr c"
    "undoes me c (drop m (take n rs) @ drop n rs)" by (rule undoes_append)
  from undoes_append [OF c(2)] obtain d where d:
    "run_scripts (map fst (drop m (take n rs))) me c = Inr d"
    "run_scripts (map snd (rev (drop m (take n rs)))) me d = Inr c" by metis
  have "map fst (take n rs) = map fst (take m rs) @ map fst (drop m (take n rs))"
    using arg_cong [OF t, of "map fst"] by (simp only: map_append)
  then have "run_scripts (map fst (take n rs)) me c0 = Inr d"
    by (simp only: run_scripts_append c(1) d(1) sum.case)
  with c(1) d(2) show ?thesis by (intro that)
qed

text \<open>The catalog with the probe table and the queue, revision 0002.\<close>

definition queue_catalog :: catalog where
  "queue_catalog = projr (run_scripts [upgrade_0001, upgrade_0002] \<lparr>me_superuser = True, me_app_db_password = None\<rparr> empty_catalog)"

definition probe_catalog :: catalog where
  "probe_catalog = projr (run_scripts [upgrade_0001] \<lparr>me_superuser = True, me_app_db_password = None\<rparr> empty_catalog)"

lemma chain_undoes:
  "undoes \<lparr>me_superuser = True, me_app_db_password = Some pw\<rparr> queue_catalog (drop 2 revisions)"
  by code_simp

lemma queue_steps:
  "upgrade_0001 me empty_catalog = Inr probe_catalog" "upgrade_0002 me probe_catalog = Inr queue_catalog"
  "downgrade_0001 me probe_catalog = Inr empty_catalog" "downgrade_0002 me queue_catalog = Inl DependentObjects"
proof -
  let ?me = "\<lparr>me_superuser = True, me_app_db_password = None\<rparr>"
  have e: "upgrade_0001 me = upgrade_0001 ?me" "upgrade_0002 me = upgrade_0002 ?me"
    "downgrade_0001 me = downgrade_0001 ?me" "downgrade_0002 me = downgrade_0002 ?me"
    by (simp_all add: upgrade_0001_def upgrade_0002_def downgrade_0001_def downgrade_0002_def statements_def)
  have "upgrade_0001 ?me empty_catalog = Inr probe_catalog" "upgrade_0002 ?me probe_catalog = Inr queue_catalog"
    "downgrade_0001 ?me probe_catalog = Inr empty_catalog" "downgrade_0002 ?me queue_catalog = Inl DependentObjects"
    by code_simp+
  then show "upgrade_0001 me empty_catalog = Inr probe_catalog" "upgrade_0002 me probe_catalog = Inr queue_catalog"
    "downgrade_0001 me probe_catalog = Inr empty_catalog" "downgrade_0002 me queue_catalog = Inl DependentObjects"
    by (simp_all only: e)
qed

lemma revisions_split: "revisions = (upgrade_0001, downgrade_0001) # (upgrade_0002, downgrade_0002) # drop 2 revisions"
  by (simp add: revisions_def)

lemma upgrades_past_queue:
  "run_scripts (map fst (take (Suc (Suc i)) revisions)) me empty_catalog =
    run_scripts (map fst (take i (drop 2 revisions))) me queue_catalog"
  by (subst revisions_split) (simp add: queue_steps)

text \<open>
  C11: The migrations come down without a trace as far as the queue's revision, and no further. As a superuser
  with the password set, the database can be brought to any revision. From there, back to any revision from 0002 on,
  every statement succeeds, and the database then has exactly the tables, types, functions, roles, privileges and
  policies it had at that revision, the role gone with 0003. Any downgrade past 0002 fails: it drops the
  jobs table without \<open>CASCADE\<close> while \<open>procrastinate_fetch_job_v2\<close> still returns its row type, and since all
  the downgrades run in one transaction the database stays as it was.
\<close>

theorem migrations_down_to_queue:
  assumes "me_superuser me" "me_app_db_password me = Some pw" "m < n"
  shows "\<exists>c d. run_scripts (map fst (take m revisions)) me empty_catalog = Inr c \<and>
    run_scripts (map fst (take n revisions)) me empty_catalog = Inr d \<and>
    do_run_migrations (map snd (rev (drop m (take n revisions)))) me d =
      (if m < 2 \<and> 2 \<le> n then (Some DependentObjects, d) else (None, c))"
proof -
  have me: "me = \<lparr>me_superuser = True, me_app_db_password = Some pw\<rparr>" using assms(1,2) by (cases me) simp
  have ch: "undoes me queue_catalog (drop 2 revisions)" using chain_undoes [of pw] me by simp
  consider "2 \<le> m" | "m < 2" "2 \<le> n" | "m = 0" "n = 1" using assms(3) by linarith
  then show ?thesis
  proof cases
    case 1
    define i j where "i = m - 2" and "j = n - 2"
    with 1 assms(3) have m: "m = Suc (Suc i)" "n = Suc (Suc j)" "i \<le> j" by simp_all
    obtain c d where "run_scripts (map fst (take i (drop 2 revisions))) me queue_catalog = Inr c"
      "run_scripts (map fst (take j (drop 2 revisions))) me queue_catalog = Inr d"
      "run_scripts (map snd (rev (drop i (take j (drop 2 revisions))))) me d = Inr c"
      by (rule undoes_between [OF ch m(3)])
    moreover have "drop m (take n revisions) = drop i (take j (drop 2 revisions))"
      unfolding m by (subst revisions_split) simp
    ultimately show ?thesis using 1 by (simp add: m upgrades_past_queue do_run_migrations_def)
  next
    case 2
    define j where "j = n - 2"
    with 2 have n: "n = Suc (Suc j)" by simp
    obtain c d where d: "run_scripts (map fst (take 0 (drop 2 revisions))) me queue_catalog = Inr c"
      "run_scripts (map fst (take j (drop 2 revisions))) me queue_catalog = Inr d"
      "run_scripts (map snd (rev (drop 0 (take j (drop 2 revisions))))) me d = Inr c"
      by (rule undoes_between [OF ch, of 0 j]) simp
    have "\<exists>rs. map snd (rev (drop m (take n revisions))) =
        map snd (rev (take j (drop 2 revisions))) @ downgrade_0002 # rs"
      using 2(1) unfolding n by (subst revisions_split) (cases m; simp)
    then have "run_scripts (map snd (rev (drop m (take n revisions)))) me d = Inl DependentObjects"
      using d by (auto simp: run_scripts_append queue_steps)
    moreover have "\<exists>c. run_scripts (map fst (take m revisions)) me empty_catalog = Inr c"
      using 2(1) by (subst revisions_split) (cases m; simp add: queue_steps)
    ultimately show ?thesis using 2 d(2) by (simp add: n upgrades_past_queue do_run_migrations_def)
  next
    case 3
    then show ?thesis
      by (subst (1 2 3) revisions_split) (simp add: queue_steps do_run_migrations_def)
  qed
qed

theorem migrations_down_to_queue_witness:
  "\<exists>c d. run_scripts (map fst (take 2 revisions)) \<lparr>me_superuser = True, me_app_db_password = Some []\<rparr> empty_catalog = Inr c \<and>
    run_scripts (map fst revisions) \<lparr>me_superuser = True, me_app_db_password = Some []\<rparr> empty_catalog = Inr d \<and>
    do_run_migrations (map snd (rev (drop 2 revisions))) \<lparr>me_superuser = True, me_app_db_password = Some []\<rparr> d = (None, c)"
  using migrations_down_to_queue [of "\<lparr>me_superuser = True, me_app_db_password = Some []\<rparr>" "[]" 2 13]
  by (simp add: revisions_def)


section \<open>The tables at the head\<close>

definition granted :: "catalog \<Rightarrow> db_object \<Rightarrow> privilege set" where
  "granted c ob = (\<lambda>(g, ob, p). p) ` Set.filter (\<lambda>(g, ob', p). g = Role Morai_app \<and> ob' = ob) (ct_grants c)"

definition guarded :: "catalog \<Rightarrow> table_name \<Rightarrow> policy \<Rightarrow> bool" where
  "guarded c t p \<longleftrightarrow> (if p = NoPolicy then t \<notin> ct_rls c
     else t \<in> ct_rls c \<and> t \<in> ct_forced c \<and>
       (\<lambda>(a, n, q). q) ` Set.filter (\<lambda>(a, n, q). a = t) (ct_policies c) = {p})"

definition described :: "catalog \<Rightarrow> table_name \<Rightarrow> 'r table \<Rightarrow> bool" where
  "described c t tb \<longleftrightarrow> t \<in> ct_tables c \<and> granted c (OTable t) = set (map Verb (tb_grants tb)) \<and> guarded c t (tb_policy tb)"

definition tables_described :: "catalog \<Rightarrow> bool" where
  "tables_described c \<longleftrightarrow>
     described c T_users users_table \<and> described c T_sessions sessions_table \<and>
     described c T_setup_tokens setup_tokens_table \<and> described c T_audit_log audit_log_table \<and>
     described c T_user_data_keys user_data_keys_table \<and> described c T_fills fills_table \<and>
     described c T_positions positions_table \<and> described c T_legs legs_table \<and> described c T_events events_table \<and>
     described c T_schwab_connections schwab_connections_table \<and>
     described c T_broker_transactions broker_transactions_table \<and>
     described c T_sync_runs sync_runs_table \<and> described c T_procrastinate_jobs procrastinate_jobs_table"

text \<open>What is to hold of the application's role: see the property.\<close>

definition app_confined :: "catalog \<Rightarrow> bool" where
  "app_confined c \<longleftrightarrow>
     ct_roles c = {(Morai_app, False, False)} \<and>
     fst ` Set.filter snd (ct_functions c) = {F_login_lookup} \<and>
     (\<lambda>(g, ob, p). g) ` Set.filter (\<lambda>(g, ob, p). ob = OFunction F_login_lookup) (ct_grants c) = {Role Morai_app} \<and>
     fst ` Set.filter (\<lambda>(a, b). b = T_users) (ct_refs c) - ct_rls c \<inter> ct_forced c = {T_sessions, T_setup_tokens} \<and>
     (\<lambda>(g, ob, p). ob) ` Set.filter (\<lambda>(g, ob, p). g = Role Morai_app \<and> p = Verb UPDATE) (ct_grants c) =
       {OTable T_users, OTable T_sessions, OTable T_setup_tokens, OTable T_schwab_connections}"

lemma head_catalog:
  "case run_scripts (map fst revisions) \<lparr>me_superuser = True, me_app_db_password = Some pw\<rparr> empty_catalog of
     Inl x \<Rightarrow> False | Inr c \<Rightarrow> tables_described c \<and> app_confined c"
  by code_simp

text \<open>
  C9: The table descriptors this development works with are what the migrations set up. Running the thirteen revisions on
  an empty database succeeds for a superuser with the password set, and then each of the thirteen tables the
  program writes exists, the application's role holds on it just the privileges of its descriptor, and it is
  guarded by the descriptor's policy, enabled and forced, or by none where the descriptor has none.
\<close>

theorem migrations_give_tables:
  assumes "me_superuser me" "me_app_db_password me = Some pw"
  shows "\<exists>c. do_run_migrations (map fst revisions) me empty_catalog = (None, c) \<and> tables_described c"
proof -
  have "me = \<lparr>me_superuser = True, me_app_db_password = Some pw\<rparr>" using assms by (cases me) simp
  then show ?thesis using head_catalog [of pw] by (auto simp: do_run_migrations_def split: sum.splits)
qed

theorem migrations_give_tables_witness:
  "\<exists>c. do_run_migrations (map fst revisions) \<lparr>me_superuser = True, me_app_db_password = Some []\<rparr> empty_catalog = (None, c) \<and>
    tables_described c"
  by (rule migrations_give_tables) simp_all


end
