(* ===== verification/App_Boot.thy ===== *)
theory App_Boot
  imports Migrations Server Rls Settings_Values
begin

text \<open>
  Start-up: the two engines of \<open>db/session.py\<close>, the lifespan and the health route of \<open>api/app.py\<close>, and the
  worker's heartbeat. An engine is its URL and the limits it is given; a session of it runs as the URL's role.
\<close>

record engine =
  en_dsn :: string
  en_pool_size :: "nat option"
  en_max_overflow :: "nat option"

definition get_engine :: "settings \<Rightarrow> engine" where
  "get_engine st = \<lparr>en_dsn = async_dsn st, en_pool_size = None, en_max_overflow = None\<rparr>"

definition get_app_engine ::
    "(string \<Rightarrow> string option \<Rightarrow> string \<Rightarrow> string \<Rightarrow> string) \<Rightarrow> settings \<Rightarrow> exn + engine" where
  "get_app_engine set_url st = map_sum id
     (\<lambda>dsn. \<lparr>en_dsn = dsn, en_pool_size = Some 5, en_max_overflow = Some 5\<rparr>) (app_async_dsn set_url st)"

definition lifespan :: "role \<Rightarrow> server \<Rightarrow> (exn + unit) \<times> server" where
  "lifespan r = with_session r assert_connection_cannot_bypass_rls"

definition health :: string where "health = ''ok''"

definition heartbeat :: "(datetime \<Rightarrow> string) \<Rightarrow> datetime \<Rightarrow> string list \<Rightarrow> string list" where
  "heartbeat isoformat now lines = lines @ [''heartbeat run at '' @ isoformat now]"

text \<open>
  The web process starts exactly under a role that row security binds, touching no data, and the role the
  migrations create for it is one: its flags in the catalog are those the boot check reads.
\<close>

theorem lifespan_gate:
  "lifespan r sv = (if role_flags r = (False, False) then Inr () else Inl RuntimeError, sv)"
  by (cases r) (simp_all add: lifespan_def with_session_def assert_connection_cannot_bypass_rls_def on_running_def
      op_bind_def gets_def raise_def ret_def role_flags_def new_session_def)

lemma migrated_role_boots: "app_confined c \<Longrightarrow> (Morai_app, role_flags App) \<in> ct_roles c"
  by (simp add: app_confined_def role_flags_def)

end
