(* ===== verification/Spec2Isabelle.thy ===== *)
theory Spec2Isabelle
  imports Late_Fills Split_Executions Occ_Laws System_Witnesses Isolation_Smoke Settings_Load Money Sql_Split App_Boot
begin

text \<open>
  A verification development for the backend of a multi-user option trading journal: a web process and a
  worker in Python (\<open>src/morai\<close>) over one Postgres database (\<open>alembic/versions\<close>), with operator scripts (\<open>tools\<close>).

  \<^bold>\<open>The program.\<close> Executions pulled from the broker are written, encrypted under a key of their
  user, into an append-only table of fills; positions and events are derived from them. Each user's rows are
  fenced off by row-level security: a request proves who it is with a session cookie, sets the user of its
  transaction, and Postgres filters every statement. A user's data key is stored wrapped under one master key,
  which an operator can rotate; deleting the data key deletes the data. A broker connection holds the vendor's
  token, encrypted the same way; a job of the worker syncs one user's transactions and records the run.

  \<^bold>\<open>Ground: Python and Postgres.\<close>
  \<^item> Morai_Prelude, Py_Text, Py_Time, Py_Uuid, Py_Json, Py_Decimal, Dec_Sums: the parts of the language and its
    standard library the source computes with. Text is its UTF-8 bytes; a \<open>Decimal\<close> is sign, coefficient and
    exponent with the context's rounding to 28 digits; a datetime is its microseconds since 1970; a UUID is a
    128-bit word; \<open>smallint\<close> and \<open>integer\<close> columns are range checked.
  \<^item> Schema, Tables: one record per table of \<open>db/models.py\<close>, one descriptor per table of the migrations.
    Migrations, Sql_Split: the thirteen revisions in both directions on a catalog of tables, references, types and
    what uses them, functions, roles, privileges and policies, and the splitter of 0002. That the descriptors carry the grants and policies
    the migrations leave behind is proved, not assumed.
  \<^item> Db_Session, Table_Laws, Open_Tables, Conflict_Store, Batch_Store, Op_Logic, Views, Server: a session has the
    committed database, its own view, the two settings the policies read, its locks and its position in the
    entropy source; an operation takes a session to a result or an exception and the session after it. An
    exception of the database aborts the transaction; commit, rollback and the end of a session are operations.

  \<^bold>\<open>Components\<close> (definitions keep the names of the functions they model).
  \<^item> Envelope, Rotation, Rotation_Reads: \<open>crypto/envelope.py\<close>, \<open>crypto/rotation.py\<close>, \<open>tools/rotate_kek.py\<close>.
  \<^item> Fills, Fill_Laws, Fill_Reads, Fill_Promises; Events, Event_Reads; Broker_Transactions: the three encrypted
    stores (\<open>ledger/fills.py\<close>, \<open>ledger/events.py\<close>, \<open>ingest/broker_transactions.py\<close>).
  \<^item> Pairing, Pairing_Laws, Net_Amounts, Resolve, Sync_Events, Late_Fills, Occ_Symbol, Occ_Laws: \<open>ledger/pairing.py\<close>, from
    the resolution query through the derivation of events to their insertion.
  \<^item> Vendor_Protocol, Connections, Connection_Laws, Routes_Connections, Connection_Promises: \<open>vendor\<close>,
    \<open>api/routes_connections.py\<close>, \<open>api/job_queue.py\<close>.
  \<^item> Schwab_Extract, Split_Executions, Schwab_Sync, Sync_Runs, Sync_Promises, Worker: \<open>ingest\<close> and \<open>worker/app.py\<close>.
  \<^item> Rls, Tokens, Setup_Tokens, Sessions, Audited_Read, Account, Routes_Identity, Identity_Laws,
    Identity_Promises, Admin_Promises, Create_Admin: \<open>identity\<close>, \<open>api/routes_identity.py\<close>, \<open>tools/create_admin.py\<close>.
  \<^item> Settings, Settings_Values, Settings_Load, Telemetry, Error_Envelope, Money, App_Boot, Isolation_Smoke:
    \<open>settings.py\<close>, \<open>telemetry.py\<close>, \<open>api/errors.py\<close>, \<open>money\<close>, \<open>api/app.py\<close> and \<open>db/session.py\<close>, \<open>tools/isolation_smoke.py\<close>.
  \<^item> System, with Stored_Tables, Intact, Intact_Ops, Intact_Writes, History, Ledger_Book, System_Promises: all
    requests, jobs, scripts and rotations as one step relation from the empty database.
  \<^item> Demo_World, Identity_Witnesses, Connection_Witnesses, System_Witnesses: concrete worlds the witnesses run in.

  \<^bold>\<open>Interfaces.\<close> Locales state the contracts several components meet, and are interpreted on the
  model's own tables and operations: session_relation (what an operation keeps), owned_table (a table under the
  user policy), open_table (a table found by token), conflict_store and batch_store (insert or do nothing, in
  chunks), stored_table (a table in a database that satisfies the schema), durable and durable_of (a fact that
  later steps cannot undo).

  \<^bold>\<open>What the lemmas show.\<close>
  \<^item> Of the whole system: in every reachable state the schema holds, one account at most is an administrator, every
    password reset is on the audit trail, and every stored amount, token and run reads back; what is recorded
    stays recorded through every step but the deletion of its user's account; the encrypted store refines a
    book in which the first entry of an execution stands.
  \<^item> Of the boundary: the migrations give exactly the privileges and policies used here and can be undone down
    to the queue's; a user's operation neither reads nor writes another's rows; responses, log lines and reports of
    errors and rejected settings show no value (a crash is raised on to the server whole); the
    operator's isolation check passes against the modelled application.
  \<^item> Of the components: round trips (fills, events, OCC symbols, master key, money, SQL script), accounting for every fill,
    order independence and idempotence of the derivation, atomicity of the admin routes, one-time use of
    tokens, outcome of a sync on success and on failure, exact health of a connection, termination.

  \<^item> Of the code where it falls short of its comments: an administrator can never connect a broker, a token
    refreshed under a new data key locks the connection, a late fill is counted twice, the second activity of a
    split execution is lost, the downgrade of the queue's revision fails, a burst of sync requests passes the cooldown, deleting an audited account fails.

  \<^bold>\<open>Loops.\<close> Loops over data are structural, or shrink a measure (chunks, digits). The one loop that may not end, the window
  loop of \<open>sync_windows\<close>, is a partial function in the option monad: it returns for a positive range, and the
  windows tile the period; for a range of zero or less it never does.
  No fuel is used.

  \<^bold>\<open>Code that is not under src.\<close> It enters through records of functions. env: AES-256-GCM, SHA-256,
  Argon2id, the sources of random bytes and UUIDs, Postgres' \<open>hashtext\<close>, Pydantic's parsing of JSON, integers, decimals and
  datetimes. schwab_lib: the vendor's client library and whatever the vendor answers. posthog, deployment: the
  analytics client, Starlette's and FastAPI's rendering. Hypotheses on them are named: aead_correct (decryption
  inverts encryption) and aead_binding (and refuses another key, nonce or associated data: AES-GCM idealised),
  argon2_correct, injectivity of a digest where two digests are compared, and new_tokens, new_sessions, new_audit_ids,
  new_run_ids, new_users (fresh draws do not collide with what is stored). The witnesses instantiate all of them.

  \<^bold>\<open>Granularity.\<close> A step of the system is one request, job or script from its first statement to the
  end of its session; transactions that overlap in time are not interleaved, except that a job sees a worker's
  several sessions and commits one by one. The clock is read where the code reads it and is unconstrained.

  \<^bold>\<open>Idealised.\<close> A read without \<open>ORDER BY\<close> gives the rows in the order of the table; the order of what it
  gives is claimed up to that (the derivation of events does not depend on it). Instants are unbounded integers,
  so an \<open>OverflowError\<close> of datetime arithmetic outside the years 1 to 9999 does not occur.

  \<^bold>\<open>Not modelled.\<close> The bodies of Procrastinate's SQL functions, indexes, triggers and the \<open>created_at\<close> columns,
  which no code of the repository reads; the vendor calls the program never makes (\<open>get_option_chain\<close>, \<open>get_quotes\<close>); cookie
  attributes, the connection pools, printed and logged texts other than those of the error envelope and the bootstrap; the
  timing script \<open>tools/measure_argon2.py\<close>; tests and type stubs. \<open>sync_events\<close> and the writers of positions,
  legs and events have no caller in the repository, so they are verified on their own and are no step of the system.
\<close>

end
